theory Spec2Isabelle
  imports Complex_Main "HOL-Library.Sublist"
begin

section \<open>JavaScript values used by the pipeline\<close>

text \<open>
  A JavaScript string is a sequence of UTF-16 code units; titles and keywords of the
  repository contain Japanese text, so a string is modelled as the list of its code
  units. \<open>js\<close> turns an ASCII literal into such a list.
\<close>

type_synonym jsstring = "nat list"

definition js :: "string \<Rightarrow> jsstring" where
  "js s = map of_char s"

text \<open>
  Thrown values. \<open>RetryError\<close> is the class of \<^verbatim>\<open>src/utils/retry.ts\<close>; its third
  constructor argument is never passed in the repository, so its message is always the
  default one. A thrown value that is no \<open>Error\<close> instance is given by its
  \<open>String(...)\<close> rendering.
\<close>

datatype js_error =
    Error jsstring
  | RetryError (attemptCount: int) (lastError: js_error)

datatype js_thrown = ErrorObj js_error | NonError jsstring

fun digits :: "nat \<Rightarrow> jsstring" where
  "digits n = (if n < 10 then [48 + n] else digits (n div 10) @ [48 + n mod 10])"

definition Number_toString :: "int \<Rightarrow> jsstring" where
  "Number_toString i = (if i < 0 then 45 # digits (nat (- i)) else digits (nat i))"

fun message :: "js_error \<Rightarrow> jsstring" where
  "message (Error m) = m"
| "message (RetryError n e) =
     js ''All retry attempts failed after '' @ Number_toString n
       @ js '' tries. Last error: '' @ message e"

text \<open>\<^verbatim>\<open>error instanceof Error ? error : new Error(String(error))\<close>\<close>

fun toError :: "js_thrown \<Rightarrow> js_error" where
  "toError (ErrorObj e) = e"
| "toError (NonError s) = Error s"

section \<open>String operations of the runtime\<close>

text \<open>
  \<open>String.prototype.toLowerCase\<close>, code unit by code unit. The embedding covers the
  upper-case letters of Basic Latin, Latin-1, Cyrillic and the fullwidth forms; every
  other code unit is left as it is.
\<close>

definition toLowerCase_unit :: "nat \<Rightarrow> nat" where
  "toLowerCase_unit c =
     (if (65 \<le> c \<and> c \<le> 90) \<or> (192 \<le> c \<and> c \<le> 222 \<and> c \<noteq> 215)
         \<or> (1040 \<le> c \<and> c \<le> 1071) \<or> (65313 \<le> c \<and> c \<le> 65338)
      then c + 32
      else if 1024 \<le> c \<and> c \<le> 1039 then c + 80
      else c)"

definition toLowerCase :: "jsstring \<Rightarrow> jsstring" where
  "toLowerCase s = map toLowerCase_unit s"

text \<open>\<open>String.prototype.includes\<close>, \<open>endsWith\<close> and \<open>slice(0, -1)\<close>.\<close>

fun startsWith :: "jsstring \<Rightarrow> jsstring \<Rightarrow> bool" where
  "startsWith s [] = True"
| "startsWith [] (k # ks) = False"
| "startsWith (c # cs) (k # ks) = (c = k \<and> startsWith cs ks)"

fun includes_js :: "jsstring \<Rightarrow> jsstring \<Rightarrow> bool" where
  "includes_js [] k = (k = [])"
| "includes_js (c # cs) k = (startsWith (c # cs) k \<or> includes_js cs k)"

definition endsWith :: "jsstring \<Rightarrow> jsstring \<Rightarrow> bool" where
  "endsWith s k = startsWith (rev s) (rev k)"

definition slice_0_minus1 :: "jsstring \<Rightarrow> jsstring" where
  "slice_0_minus1 s = butlast s"

text \<open>
  The character classes of the regular expressions (no \<open>u\<close> or \<open>i\<close> flag): \<open>\d\<close>, \<open>\w\<close>
  and \<open>\s\<close>; \<open>trim\<close> removes the same code units as \<open>\s\<close> matches.
\<close>

definition isDigit :: "nat \<Rightarrow> bool" where
  "isDigit c = (48 \<le> c \<and> c \<le> 57)"

definition isWord :: "nat \<Rightarrow> bool" where
  "isWord c = ((65 \<le> c \<and> c \<le> 90) \<or> (97 \<le> c \<and> c \<le> 122) \<or> isDigit c \<or> c = 95)"

definition isSpace :: "nat \<Rightarrow> bool" where
  "isSpace c = ((9 \<le> c \<and> c \<le> 13) \<or> c = 32 \<or> c = 160 \<or> c = 5760
                 \<or> (8192 \<le> c \<and> c \<le> 8202) \<or> c = 8232 \<or> c = 8233 \<or> c = 8239
                 \<or> c = 8287 \<or> c = 12288 \<or> c = 65279)"

definition trim :: "jsstring \<Rightarrow> jsstring" where
  "trim s = rev (dropWhile isSpace (rev (dropWhile isSpace s)))"

section \<open>Retry executor (src/utils/retry.ts)\<close>

text \<open>
  An asynchronous operation \<^verbatim>\<open>() => Promise<T>\<close> reads and changes the world outside
  the program; it is a function from the world before the call to its outcome (rejected
  with a thrown value, or fulfilled) and the world after it.
\<close>

type_synonym ('a, 'w) operation = "'w \<Rightarrow> (js_thrown + 'a) \<times> 'w"

record RetryConfig =
  maxRetries :: int
  baseDelay :: real
  backoffMultiplier :: real

record PartialRetryConfig =
  maxRetries_opt :: "int option"
  baseDelay_opt :: "real option"
  backoffMultiplier_opt :: "real option"

definition DEFAULT_CONFIG :: RetryConfig where
  "DEFAULT_CONFIG = \<lparr>maxRetries = 3, baseDelay = 1000, backoffMultiplier = 2\<rparr>"

text \<open>\<^verbatim>\<open>{ ...RetryService.DEFAULT_CONFIG, ...config }\<close>\<close>

definition finalConfig :: "PartialRetryConfig \<Rightarrow> RetryConfig" where
  "finalConfig config =
     \<lparr>maxRetries = (case maxRetries_opt config of None \<Rightarrow> maxRetries DEFAULT_CONFIG | Some m \<Rightarrow> m),
      baseDelay = (case baseDelay_opt config of None \<Rightarrow> baseDelay DEFAULT_CONFIG | Some d \<Rightarrow> d),
      backoffMultiplier =
        (case backoffMultiplier_opt config of None \<Rightarrow> backoffMultiplier DEFAULT_CONFIG | Some b \<Rightarrow> b)\<rparr>"

text \<open>
  The loop of \<open>withRetry\<close>, from \<open>attempt\<close> on. The result is the settled promise
  (\<open>Inl\<close> the \<open>RetryError\<close> thrown after the loop, \<open>Inr\<close> the value returned), the number
  of invocations of the operation so far, and the world. After a failed attempt the source
  either sleeps (\<open>attempt \<le> maxRetries\<close>) or logs; both branches go on with the next
  iteration, and the suspension changes nothing the result depends on.
\<close>

function withRetry_loop ::
  "('a, 'w) operation \<Rightarrow> RetryConfig \<Rightarrow> int \<Rightarrow> js_error \<Rightarrow> nat \<Rightarrow> 'w
     \<Rightarrow> (js_error + 'a) \<times> nat \<times> 'w" where
  "withRetry_loop operation cfg attempt lastErr calls w =
     (if attempt \<le> maxRetries cfg + 1 then
        (case operation w of
           (Inr result, w') \<Rightarrow> (Inr result, Suc calls, w')
         | (Inl error, w') \<Rightarrow>
             (if attempt \<le> maxRetries cfg
              then withRetry_loop operation cfg (attempt + 1) (toError error) (Suc calls) w'
              else withRetry_loop operation cfg (attempt + 1) (toError error) (Suc calls) w'))
      else (Inl (RetryError (maxRetries cfg + 1) lastErr), calls, w))"
  by pat_completeness auto
termination
  by (relation "measure (\<lambda>(operation, cfg, attempt, lastErr, calls, w).
        nat (maxRetries cfg + 2 - attempt))") auto

definition withRetry ::
  "('a, 'w) operation \<Rightarrow> PartialRetryConfig \<Rightarrow> 'w \<Rightarrow> (js_error + 'a) \<times> nat \<times> 'w" where
  "withRetry operation config w =
     withRetry_loop operation (finalConfig config) 1 (Error (js ''Unknown error'')) 0 w"

text \<open>
  \<open>withRetryCondition\<close>: the same loop, but the predicate is consulted after every failure
  and the \<^verbatim>\<open>break\<close> leaves the loop for the \<^verbatim>\<open>throw\<close> behind it.
\<close>

function withRetryCondition_loop ::
  "('a, 'w) operation \<Rightarrow> (js_error \<Rightarrow> int \<Rightarrow> bool) \<Rightarrow> RetryConfig \<Rightarrow> int \<Rightarrow> js_error \<Rightarrow> nat \<Rightarrow> 'w
     \<Rightarrow> (js_error + 'a) \<times> nat \<times> 'w" where
  "withRetryCondition_loop operation shouldRetry cfg attempt lastErr calls w =
     (if attempt \<le> maxRetries cfg + 1 then
        (case operation w of
           (Inr result, w') \<Rightarrow> (Inr result, Suc calls, w')
         | (Inl error, w') \<Rightarrow>
             (let shouldContinue = shouldRetry (toError error) attempt in
              if attempt \<le> maxRetries cfg \<and> shouldContinue
              then withRetryCondition_loop operation shouldRetry cfg (attempt + 1)
                     (toError error) (Suc calls) w'
              else (Inl (RetryError (maxRetries cfg + 1) (toError error)), Suc calls, w')))
      else (Inl (RetryError (maxRetries cfg + 1) lastErr), calls, w))"
  by pat_completeness auto
termination
  by (relation "measure (\<lambda>(operation, shouldRetry, cfg, attempt, lastErr, calls, w).
        nat (maxRetries cfg + 2 - attempt))") auto

definition withRetryCondition ::
  "('a, 'w) operation \<Rightarrow> (js_error \<Rightarrow> int \<Rightarrow> bool) \<Rightarrow> PartialRetryConfig \<Rightarrow> 'w
     \<Rightarrow> (js_error + 'a) \<times> nat \<times> 'w" where
  "withRetryCondition operation shouldRetry config w =
     withRetryCondition_loop operation shouldRetry (finalConfig config) 1
       (Error (js ''Unknown error'')) 0 w"

text \<open>
  The world after \<open>n\<close> invocations of an operation, and the outcome of invocation
  number \<open>i + 1\<close>.
\<close>

fun world_after :: "('a, 'w) operation \<Rightarrow> 'w \<Rightarrow> nat \<Rightarrow> 'w" where
  "world_after operation w 0 = w"
| "world_after operation w (Suc n) = world_after operation (snd (operation w)) n"

definition outcome :: "('a, 'w) operation \<Rightarrow> 'w \<Rightarrow> nat \<Rightarrow> js_thrown + 'a" where
  "outcome operation w i = fst (operation (world_after operation w i))"

section \<open>Deduplication (src/utils/deduplication.ts)\<close>

subsection \<open>normalizeTitle\<close>

text \<open>\<^verbatim>\<open>.replace(/[\uFF21-\uFF3A\uFF41-\uFF5A\uFF10-\uFF19]/g, char => String.fromCharCode(char.charCodeAt(0) - 0xfee0))\<close>\<close>

definition isFullwidthAlnum :: "nat \<Rightarrow> bool" where
  "isFullwidthAlnum c = ((65313 \<le> c \<and> c \<le> 65338) \<or> (65345 \<le> c \<and> c \<le> 65370)
                          \<or> (65296 \<le> c \<and> c \<le> 65305))"

definition halfwidth :: "jsstring \<Rightarrow> jsstring" where
  "halfwidth s = map (\<lambda>c. if isFullwidthAlnum c then c - 65248 else c) s"

text \<open>\<^verbatim>\<open>.replace(/\s+/g, ' ')\<close>\<close>

function collapse_spaces :: "jsstring \<Rightarrow> jsstring" where
  "collapse_spaces [] = []"
| "collapse_spaces (c # cs) =
     (if isSpace c then 32 # collapse_spaces (dropWhile isSpace cs) else c # collapse_spaces cs)"
  by pat_completeness auto
termination
  by (relation "measure length") (auto simp: less_Suc_eq_le length_dropWhile_le)

text \<open>\<^verbatim>\<open>.replace(/[^\w\s\u3040-\u309F\u30A0-\u30FF\u4E00-\u9FAF]/g, '')\<close>\<close>

definition isKept :: "nat \<Rightarrow> bool" where
  "isKept c = (isWord c \<or> isSpace c \<or> (12352 \<le> c \<and> c \<le> 12447)
                \<or> (12448 \<le> c \<and> c \<le> 12543) \<or> (19968 \<le> c \<and> c \<le> 40879))"

definition strip_special :: "jsstring \<Rightarrow> jsstring" where
  "strip_special s = filter isKept s"

text \<open>
  A global \<open>replace\<close> with a pattern that never matches the empty string: \<open>m s\<close> is the
  length of the match of the pattern at the start of \<open>s\<close>, 0 when there is none. The
  scan goes on behind a match, or one code unit further where there is none.
\<close>

function replace_all :: "(jsstring \<Rightarrow> nat) \<Rightarrow> jsstring \<Rightarrow> jsstring \<Rightarrow> jsstring" where
  "replace_all m rep [] = []"
| "replace_all m rep (c # cs) =
     (if m (c # cs) = 0 then c # replace_all m rep cs
      else rep @ replace_all m rep (drop (m (c # cs) - 1) cs))"
  by pat_completeness auto
termination
  by (relation "measure (\<lambda>(m, rep, s). length s)") auto

text \<open>
  \<^verbatim>\<open>/\d{4}[\u5E74\/\-]\d{1,2}[\u6708\/\-]\d{1,2}[\u65E5]?/\<close>. The quantifiers are greedy; where the
  longer choice of \<open>\d{1,2}\<close> fails, the shorter one leaves a digit in front of the
  separator and fails too, so the greedy choice decides.
\<close>

definition digits_1_2 :: "jsstring \<Rightarrow> nat" where
  "digits_1_2 s = length (takeWhile isDigit (take 2 s))"

definition match_date :: "jsstring \<Rightarrow> nat" where
  "match_date s =
     (if length (takeWhile isDigit (take 4 s)) = 4 then
        (case drop 4 s of
           [] \<Rightarrow> 0
         | sep1 # r1 \<Rightarrow>
             if sep1 = 24180 \<or> sep1 = 47 \<or> sep1 = 45 then
               (let mm = digits_1_2 r1 in
                if mm = 0 then 0
                else
                  (case drop mm r1 of
                     [] \<Rightarrow> 0
                   | sep2 # r2 \<Rightarrow>
                       if sep2 = 26376 \<or> sep2 = 47 \<or> sep2 = 45 then
                         (let dd = digits_1_2 r2 in
                          if dd = 0 then 0
                          else 4 + 1 + mm + 1 + dd
                                 + (if startsWith (drop dd r2) [26085] then 1 else 0))
                       else 0))
             else 0)
      else 0)"

text \<open>
  \<^verbatim>\<open>/v?\d+\.\d+(\.\d+)?/\<close>. Again the greedy choices decide: giving back the \<open>v\<close> or a
  digit of a \<open>\d+\<close> puts a code unit that is no digit, or no dot, where one is required.
\<close>

definition match_version :: "jsstring \<Rightarrow> nat" where
  "match_version s =
     (let v = (if startsWith s [118] then 1 else 0);
          s1 = drop v s;
          a = length (takeWhile isDigit s1)
      in if a = 0 then 0
         else
           (case drop a s1 of
              [] \<Rightarrow> 0
            | dot1 # s2 \<Rightarrow>
                if dot1 = 46 then
                  (let b = length (takeWhile isDigit s2) in
                   if b = 0 then 0
                   else
                     (case drop b s2 of
                        [] \<Rightarrow> v + a + 1 + b
                      | dot2 # s3 \<Rightarrow>
                          (let c = length (takeWhile isDigit s3) in
                           if dot2 = 46 \<and> c \<noteq> 0 then v + a + 1 + b + 1 + c
                           else v + a + 1 + b)))
                else 0))"

definition normalizeTitle :: "jsstring \<Rightarrow> jsstring" where
  "normalizeTitle title =
     replace_all match_version (js ''vX.X.X'')
       (replace_all match_date (js ''YYYY-MM-DD'')
         (strip_special (collapse_spaces (halfwidth (trim (toLowerCase title))))))"

subsection \<open>The URL class of the runtime\<close>

text \<open>
  The URL Standard works on Unicode scalar values. A JavaScript string that enters the
  URL class is converted as a \<open>USVString\<close>: a surrogate pair becomes its code point, a
  surrogate that has no partner becomes U+FFFD.
\<close>

fun USVString :: "jsstring \<Rightarrow> nat list" where
  "USVString (h # l # r) =
     (if 55296 \<le> h \<and> h \<le> 56319 \<and> 56320 \<le> l \<and> l \<le> 57343
      then (65536 + (h - 55296) * 1024 + (l - 56320)) # USVString r
      else (if 55296 \<le> h \<and> h \<le> 57343 then 65533 else h) # USVString (l # r))"
| "USVString [h] = [if 55296 \<le> h \<and> h \<le> 57343 then 65533 else h]"
| "USVString [] = []"

definition scalar :: "nat \<Rightarrow> bool" where
  "scalar c = (c < 1114112 \<and> \<not> (55296 \<le> c \<and> c \<le> 57343))"

text \<open>
  The UTF-8 encoder, and the UTF-8 decoder of the Encoding Standard in its error mode
  \<open>replacement\<close>: an ill-formed sequence gives one U+FFFD, and the byte that ended it is
  read again.
\<close>

definition utf8_encode_cp :: "nat \<Rightarrow> nat list" where
  "utf8_encode_cp c =
     (if c < 128 then [c]
      else if c < 2048 then [192 + c div 64, 128 + c mod 64]
      else if c < 65536 then [224 + c div 4096, 128 + c div 64 mod 64, 128 + c mod 64]
      else [240 + c div 262144, 128 + c div 4096 mod 64, 128 + c div 64 mod 64, 128 + c mod 64])"

definition utf8_encode :: "nat list \<Rightarrow> nat list" where
  "utf8_encode cs = concat (map utf8_encode_cp cs)"

fun utf8_decode :: "nat list \<Rightarrow> nat list" where
  "utf8_decode [] = []"
| "utf8_decode (b # bs) =
     (if b < 128 then b # utf8_decode bs
      else if 194 \<le> b \<and> b \<le> 223 then
        (case bs of
           [] \<Rightarrow> [65533]
         | b1 # r1 \<Rightarrow>
             if 128 \<le> b1 \<and> b1 \<le> 191
             then ((b - 192) * 64 + (b1 - 128)) # utf8_decode r1
             else 65533 # utf8_decode bs)
      else if 224 \<le> b \<and> b \<le> 239 then
        (case bs of
           [] \<Rightarrow> [65533]
         | b1 # r1 \<Rightarrow>
             if (if b = 224 then 160 else 128) \<le> b1 \<and> b1 \<le> (if b = 237 then 159 else 191) then
               (case r1 of
                  [] \<Rightarrow> [65533]
                | b2 # r2 \<Rightarrow>
                    if 128 \<le> b2 \<and> b2 \<le> 191
                    then ((b - 224) * 4096 + (b1 - 128) * 64 + (b2 - 128)) # utf8_decode r2
                    else 65533 # utf8_decode r1)
             else 65533 # utf8_decode bs)
      else if 240 \<le> b \<and> b \<le> 244 then
        (case bs of
           [] \<Rightarrow> [65533]
         | b1 # r1 \<Rightarrow>
             if (if b = 240 then 144 else 128) \<le> b1 \<and> b1 \<le> (if b = 244 then 143 else 191) then
               (case r1 of
                  [] \<Rightarrow> [65533]
                | b2 # r2 \<Rightarrow>
                    if 128 \<le> b2 \<and> b2 \<le> 191 then
                      (case r2 of
                         [] \<Rightarrow> [65533]
                       | b3 # r3 \<Rightarrow>
                           if 128 \<le> b3 \<and> b3 \<le> 191
                           then ((b - 240) * 262144 + (b1 - 128) * 4096 + (b2 - 128) * 64
                                   + (b3 - 128)) # utf8_decode r3
                           else 65533 # utf8_decode r2)
                    else 65533 # utf8_decode r1)
             else 65533 # utf8_decode bs)
      else 65533 # utf8_decode bs)"

text \<open>
  A URL record of the URL Standard: what \<^verbatim>\<open>new URL(url)\<close> holds after parsing. The path
  is opaque (as in \<^verbatim>\<open>mailto:\<close> URLs) or a list of segments; the host is kept in its
  serialized form. The components of a parsed URL hold ASCII only.
\<close>

datatype url_path = Opaque jsstring | Segments "jsstring list"

record URL =
  scheme :: jsstring
  username :: jsstring
  password :: jsstring
  host :: "jsstring option"
  port :: "nat option"
  path :: url_path
  query :: "jsstring option"
  fragment :: "jsstring option"

text \<open>The path serializer (the \<open>pathname\<close> getter) and the URL serializer (\<open>toString\<close>).\<close>

fun path_serialize :: "url_path \<Rightarrow> jsstring" where
  "path_serialize (Opaque s) = s"
| "path_serialize (Segments segs) = concat (map (\<lambda>seg. 47 # seg) segs)"

definition pathname :: "URL \<Rightarrow> jsstring" where
  "pathname u = path_serialize (path u)"

definition URL_toString :: "URL \<Rightarrow> jsstring" where
  "URL_toString u =
     scheme u @ js '':''
     @ (case host u of
          Some h \<Rightarrow>
            js ''//''
            @ (if username u \<noteq> [] \<or> password u \<noteq> []
               then username u @ (if password u \<noteq> [] then js '':'' @ password u else []) @ js ''@''
               else [])
            @ h
            @ (case port u of None \<Rightarrow> [] | Some p \<Rightarrow> js '':'' @ digits p)
        | None \<Rightarrow>
            (case path u of
               Opaque s \<Rightarrow> []
             | Segments segs \<Rightarrow> if 1 < length segs \<and> hd segs = [] then js ''/.'' else []))
     @ pathname u
     @ (case query u of None \<Rightarrow> [] | Some q \<Rightarrow> js ''?'' @ q)
     @ (case fragment u of None \<Rightarrow> [] | Some f \<Rightarrow> js ''#'' @ f)"

text \<open>
  The \<open>pathname\<close> setter: nothing on an opaque path; otherwise the value is parsed from
  the path start state. The values \<open>normalizeUrl\<close> assigns are serialized paths of parsed
  URLs without their last slash: they hold no \<open>?\<close>, \<open>#\<close>, separator inside a segment, dot
  segment or code unit to escape, so parsing them is splitting at the slashes behind the
  leading one.
\<close>

fun split_at :: "nat \<Rightarrow> jsstring \<Rightarrow> jsstring list" where
  "split_at sep [] = [Nil]"
| "split_at sep (c # cs) =
     (if c = sep then [] # split_at sep cs
      else (case split_at sep cs of [] \<Rightarrow> [c] # [] | seg # segs \<Rightarrow> (c # seg) # segs))"

definition parse_path :: "jsstring \<Rightarrow> jsstring list" where
  "parse_path v = (if v = [] then [] else if hd v = 47 then split_at 47 (tl v) else split_at 47 v)"

definition set_pathname :: "jsstring \<Rightarrow> URL \<Rightarrow> URL" where
  "set_pathname v u =
     (case path u of Opaque s \<Rightarrow> u | Segments segs \<Rightarrow> u\<lparr>path := Segments (parse_path v)\<rparr>)"

text \<open>
  \<open>URLSearchParams\<close>: the \<^verbatim>\<open>application/x-www-form-urlencoded\<close> parser and serializer.
  The parser works on the bytes of the query: it cuts them at \<open>&\<close>, skips empty
  sequences, cuts each at its first \<open>=\<close>, turns \<open>+\<close> into a space, percent-decodes and
  UTF-8 decodes. A name or value is the sequence of scalar values that this gives. The
  serializer UTF-8 encodes a name or value and escapes its bytes.
\<close>

definition isHex :: "nat \<Rightarrow> bool" where
  "isHex c = (isDigit c \<or> (65 \<le> c \<and> c \<le> 70) \<or> (97 \<le> c \<and> c \<le> 102))"

definition hex_value :: "nat \<Rightarrow> nat" where
  "hex_value c = (if isDigit c then c - 48 else if c \<le> 70 then c - 55 else c - 87)"

definition hex_digit :: "nat \<Rightarrow> nat" where
  "hex_digit d = (if d < 10 then 48 + d else 55 + d)"

fun percent_decode :: "jsstring \<Rightarrow> jsstring" where
  "percent_decode (c # h # l # cs) =
     (if c = 37 \<and> isHex h \<and> isHex l
      then (16 * hex_value h + hex_value l) # percent_decode cs
      else c # percent_decode (h # l # cs))"
| "percent_decode cs = cs"

definition plus_to_space :: "jsstring \<Rightarrow> jsstring" where
  "plus_to_space s = map (\<lambda>c. if c = 43 then 32 else c) s"

definition parse_pair :: "jsstring \<Rightarrow> jsstring \<times> jsstring" where
  "parse_pair s =
     (let name = takeWhile (\<lambda>c. c \<noteq> 61) s;
          val = drop (Suc (length name)) s
      in (utf8_decode (percent_decode (plus_to_space name)),
          utf8_decode (percent_decode (plus_to_space val))))"

definition urlencoded_parse :: "jsstring \<Rightarrow> (jsstring \<times> jsstring) list" where
  "urlencoded_parse q =
     map parse_pair (filter (\<lambda>s. s \<noteq> []) (split_at 38 (utf8_encode (USVString q))))"

definition urlencoded_byte :: "nat \<Rightarrow> jsstring" where
  "urlencoded_byte c =
     (if isWord c \<or> c = 42 \<or> c = 45 \<or> c = 46 then [c]
      else if c = 32 then [43]
      else [37, hex_digit (c div 16 mod 16), hex_digit (c mod 16)])"

definition urlencoded_string :: "jsstring \<Rightarrow> jsstring" where
  "urlencoded_string s = concat (map urlencoded_byte (utf8_encode s))"

fun urlencoded_serialize :: "(jsstring \<times> jsstring) list \<Rightarrow> jsstring" where
  "urlencoded_serialize [] = []"
| "urlencoded_serialize [(n, v)] = urlencoded_string n @ 61 # urlencoded_string v"
| "urlencoded_serialize ((n, v) # ps) =
     urlencoded_string n @ 61 # urlencoded_string v @ 38 # urlencoded_serialize ps"

text \<open>
  The list of the \<open>searchParams\<close> object of a URL; \<open>delete(name)\<close> on the list; and the
  update steps that write a list back into the URL (an empty list clears the query).
\<close>

definition searchParams :: "URL \<Rightarrow> (jsstring \<times> jsstring) list" where
  "searchParams u = (case query u of None \<Rightarrow> [] | Some q \<Rightarrow> urlencoded_parse q)"

definition params_delete :: "jsstring \<Rightarrow> (jsstring \<times> jsstring) list \<Rightarrow> (jsstring \<times> jsstring) list" where
  "params_delete name l = filter (\<lambda>p. fst p \<noteq> name) l"

definition update_query :: "(jsstring \<times> jsstring) list \<Rightarrow> URL \<Rightarrow> URL" where
  "update_query l u = u\<lparr>query := (if l = [] then None else Some (urlencoded_serialize l))\<rparr>"

text \<open>One serialized pair of the query.\<close>

definition pair_string :: "jsstring \<times> jsstring \<Rightarrow> jsstring" where
  "pair_string p = urlencoded_string (fst p) @ 61 # urlencoded_string (snd p)"

text \<open>Parameter lists whose names and values are sequences of scalar values.\<close>

definition scalar_pairs :: "(jsstring \<times> jsstring) list \<Rightarrow> bool" where
  "scalar_pairs l = list_all (\<lambda>p. list_all scalar (fst p) \<and> list_all scalar (snd p)) l"

subsection \<open>normalizeUrl\<close>

text \<open>
  The parser behind \<^verbatim>\<open>new URL(url)\<close> is a parameter: it gives the URL record or throws.
  The five \<open>delete\<close> calls work on the one list parsed at the first access of
  \<open>searchParams\<close>, and each writes the list back. Whatever is thrown inside the
  \<^verbatim>\<open>try\<close> block is caught, and the input is returned.
\<close>

type_synonym URL_parser = "jsstring \<Rightarrow> js_thrown + URL"

definition paramsToRemove :: "jsstring list" where
  "paramsToRemove = [js ''utm_source'', js ''utm_medium'', js ''utm_campaign'', js ''ref'', js ''source'']"

definition delete_params :: "URL \<Rightarrow> URL" where
  "delete_params urlObj = update_query (fold params_delete paramsToRemove (searchParams urlObj)) urlObj"

definition strip_slash :: "jsstring \<Rightarrow> jsstring" where
  "strip_slash p = (if p \<noteq> js ''/'' \<and> endsWith p (js ''/'') then slice_0_minus1 p else p)"

definition normalizeUrl_try :: "URL_parser \<Rightarrow> jsstring \<Rightarrow> js_thrown + jsstring" where
  "normalizeUrl_try parse url =
     (case parse url of
        Inl error \<Rightarrow> Inl error
      | Inr urlObj \<Rightarrow>
          (let urlObj1 = delete_params urlObj;
               urlObj2 = set_pathname (strip_slash (pathname urlObj1)) urlObj1
           in Inr (URL_toString urlObj2)))"

definition normalizeUrl :: "URL_parser \<Rightarrow> jsstring \<Rightarrow> jsstring" where
  "normalizeUrl parse url =
     (case normalizeUrl_try parse url of Inl error \<Rightarrow> url | Inr s \<Rightarrow> s)"

subsection \<open>The URL parser\<close>

text \<open>
  The basic URL parser of the URL Standard, as \<^verbatim>\<open>new URL(url)\<close> runs it: without a base
  URL and from the scheme start state. The percent-encode sets come first.
\<close>

definition C0_control_set :: "nat \<Rightarrow> bool" where
  "C0_control_set c = (c < 32 \<or> 126 < c)"

definition fragment_set :: "nat \<Rightarrow> bool" where
  "fragment_set c = (C0_control_set c \<or> c \<in> set [32, 34, 60, 62, 96])"

definition query_set :: "nat \<Rightarrow> bool" where
  "query_set c = (C0_control_set c \<or> c \<in> set [32, 34, 35, 60, 62])"

definition special_query_set :: "nat \<Rightarrow> bool" where
  "special_query_set c = (query_set c \<or> c = 39)"

definition path_set :: "nat \<Rightarrow> bool" where
  "path_set c = (query_set c \<or> c \<in> set [63, 94, 96, 123, 125])"

definition userinfo_set :: "nat \<Rightarrow> bool" where
  "userinfo_set c = (path_set c \<or> c \<in> set [47, 58, 59, 61, 64, 91, 92, 93, 124])"

definition percent_encode_byte :: "nat \<Rightarrow> jsstring" where
  "percent_encode_byte b = [37, hex_digit (b div 16), hex_digit (b mod 16)]"

definition utf8_percent_encode :: "(nat \<Rightarrow> bool) \<Rightarrow> nat list \<Rightarrow> jsstring" where
  "utf8_percent_encode encode_set cs =
     concat (map (\<lambda>c. if encode_set c then concat (map percent_encode_byte (utf8_encode_cp c))
                       else [c]) cs)"

definition lower_ascii :: "jsstring \<Rightarrow> jsstring" where
  "lower_ascii s = map (\<lambda>c. if 65 \<le> c \<and> c \<le> 90 then c + 32 else c) s"

definition isAlpha :: "nat \<Rightarrow> bool" where
  "isAlpha c = ((65 \<le> c \<and> c \<le> 90) \<or> (97 \<le> c \<and> c \<le> 122))"

definition isSchemeUnit :: "nat \<Rightarrow> bool" where
  "isSchemeUnit c = (isAlpha c \<or> isDigit c \<or> c = 43 \<or> c = 45 \<or> c = 46)"

definition default_port :: "jsstring \<Rightarrow> nat option" where
  "default_port sch =
     (if sch = js ''http'' \<or> sch = js ''ws'' then Some 80
      else if sch = js ''https'' \<or> sch = js ''wss'' then Some 443
      else if sch = js ''ftp'' then Some 21
      else None)"

definition is_special :: "jsstring \<Rightarrow> bool" where
  "is_special sch = (sch = js ''file'' \<or> default_port sch \<noteq> None)"

definition invalid_URL :: js_thrown where
  "invalid_URL = ErrorObj (Error (js ''Invalid URL''))"

text \<open>
  The path state: the input is cut at the slashes (in a special URL also at the
  backslashes), each piece is percent-encoded, a double-dot piece removes the last
  segment, a single-dot piece is skipped, and a dot piece at the end leaves an empty
  segment.
\<close>

fun split_where :: "(nat \<Rightarrow> bool) \<Rightarrow> jsstring \<Rightarrow> jsstring list" where
  "split_where sep [] = [Nil]"
| "split_where sep (c # cs) =
     (if sep c then [] # split_where sep cs
      else (case split_where sep cs of [] \<Rightarrow> [c] # [] | seg # segs \<Rightarrow> (c # seg) # segs))"

definition is_single_dot :: "jsstring \<Rightarrow> bool" where
  "is_single_dot seg = (lower_ascii seg \<in> set [js ''.'', js ''%2e''])"

definition is_double_dot :: "jsstring \<Rightarrow> bool" where
  "is_double_dot seg = (lower_ascii seg \<in> set [js ''..'', js ''.%2e'', js ''%2e.'', js ''%2e%2e''])"

definition path_state :: "bool \<Rightarrow> nat list \<Rightarrow> jsstring list" where
  "path_state special input =
     (let pieces = map (utf8_percent_encode path_set)
                     (split_where (\<lambda>c. c = 47 \<or> (special \<and> c = 92)) input);
          segs = fold (\<lambda>piece segs. if is_double_dot piece then butlast segs
                                     else if is_single_dot piece then segs
                                     else segs @ [piece]) (butlast pieces) []
      in if is_double_dot (last pieces) then butlast segs @ [Nil]
         else if is_single_dot (last pieces) then segs @ [Nil]
         else segs @ [last pieces])"

text \<open>
  The host parser on the hosts this development covers: an opaque host in a URL that is
  not special; in a special URL a domain of ASCII code points without a label that starts
  with \<^verbatim>\<open>xn--\<close> (for which the Unicode \<open>ToASCII\<close> operation is ASCII lower-casing), read as
  an IPv4 address when it ends in a number. \<open>None\<close> stands for a host outside this range:
  an IPv6 address in brackets, or a domain that needs the IDNA mapping.
\<close>

definition forbidden_host :: "nat \<Rightarrow> bool" where
  "forbidden_host c = (c \<in> set [0, 9, 10, 13, 32, 35, 47, 58, 60, 62, 63, 64, 91, 92, 93, 94, 124])"

definition forbidden_domain :: "nat \<Rightarrow> bool" where
  "forbidden_domain c = (forbidden_host c \<or> c < 32 \<or> c = 37 \<or> c = 127)"

fun number_of :: "nat \<Rightarrow> jsstring \<Rightarrow> nat \<Rightarrow> nat" where
  "number_of radix [] acc = acc"
| "number_of radix (c # cs) acc = number_of radix cs (acc * radix + hex_value c)"

definition isRadixDigit :: "nat \<Rightarrow> nat \<Rightarrow> bool" where
  "isRadixDigit radix c = (isHex c \<and> hex_value c < radix)"

definition ipv4_number :: "jsstring \<Rightarrow> nat option" where
  "ipv4_number s =
     (if s = [] then None
      else
        (let hex = (2 \<le> length s \<and> (take 2 s = js ''0x'' \<or> take 2 s = js ''0X''));
             oct = (\<not> hex \<and> 2 \<le> length s \<and> hd s = 48);
             radix = (if hex then 16 else if oct then 8 else 10);
             ds = (if hex then drop 2 s else if oct then tl s else s)
         in if list_all (isRadixDigit radix) ds then Some (number_of radix ds 0) else None))"

definition ipv4_parts :: "jsstring \<Rightarrow> jsstring list" where
  "ipv4_parts h =
     (let parts = split_at 46 h
      in if last parts = [] \<and> 1 < length parts then butlast parts else parts)"

definition ends_in_number :: "jsstring \<Rightarrow> bool" where
  "ends_in_number h =
     (if h = [] then False
      else (let l = last (ipv4_parts h)
            in (l \<noteq> [] \<and> list_all isDigit l) \<or> ipv4_number l \<noteq> None))"

definition ipv4_parse :: "jsstring \<Rightarrow> nat option" where
  "ipv4_parse h =
     (let parts = ipv4_parts h;
          numbers = map ipv4_number parts
      in if 4 < length parts \<or> None \<in> set numbers then None
         else
           (let ns = map the numbers
            in if list_ex (\<lambda>n. 255 < n) (butlast ns) \<or> 256 ^ (5 - length ns) \<le> last ns then None
               else Some (last ns
                          + sum_list (map (\<lambda>(i, n). n * 256 ^ (3 - i))
                                        (zip [0 ..< length ns - 1] (butlast ns))))))"

definition ipv4_serialize :: "nat \<Rightarrow> jsstring" where
  "ipv4_serialize a =
     digits (a div 16777216) @ 46 # digits (a div 65536 mod 256) @ 46 # digits (a div 256 mod 256)
       @ 46 # digits (a mod 256)"

definition host_parse :: "bool \<Rightarrow> nat list \<Rightarrow> (js_thrown + jsstring) option" where
  "host_parse special input =
     (if startsWith input [91] then None
      else if \<not> special then
        Some (if list_ex forbidden_host input then Inl invalid_URL
              else Inr (utf8_percent_encode C0_control_set input))
      else
        (let domain = utf8_decode (percent_decode (utf8_encode input))
         in if list_ex (\<lambda>c. 127 < c) domain
               \<or> list_ex (\<lambda>l. startsWith (lower_ascii l) (js ''xn--'')) (split_at 46 domain)
            then None
            else
              (let asciiDomain = lower_ascii domain
               in Some (if asciiDomain = [] \<or> list_ex forbidden_domain asciiDomain then Inl invalid_URL
                        else if ends_in_number asciiDomain then
                          (case ipv4_parse asciiDomain of
                             None \<Rightarrow> Inl invalid_URL
                           | Some a \<Rightarrow> Inr (ipv4_serialize a))
                        else Inr asciiDomain))))"

text \<open>
  The authority, host and port states on the code points between the slashes behind the
  scheme and the path: the credentials in front of the last \<open>@\<close>, the host up to the first
  \<open>:\<close> behind it, and the port.
\<close>

record Authority =
  auth_username :: jsstring
  auth_password :: jsstring
  auth_host :: jsstring
  auth_port :: "nat option"

definition authority_state :: "bool \<Rightarrow> jsstring \<Rightarrow> nat list \<Rightarrow> (js_thrown + Authority) option" where
  "authority_state special sch input =
     (let hostport = rev (takeWhile (\<lambda>c. c \<noteq> 64) (rev input));
          atSignSeen = (64 \<in> set input);
          userinfo = (if atSignSeen then take (length input - length hostport - 1) input else []);
          user = takeWhile (\<lambda>c. c \<noteq> 58) userinfo;
          pass = drop (Suc (length user)) userinfo;
          hostname = takeWhile (\<lambda>c. c \<noteq> 58) hostport;
          colon = (length hostname < length hostport);
          portString = drop (Suc (length hostname)) hostport
      in if (atSignSeen \<and> hostport = []) \<or> (colon \<and> hostname = []) \<or> (special \<and> hostname = [])
         then Some (Inl invalid_URL)
         else
           (case host_parse special hostname of
              None \<Rightarrow> None
            | Some (Inl error) \<Rightarrow> Some (Inl error)
            | Some (Inr h) \<Rightarrow>
                Some (if \<not> list_all isDigit portString \<or> 65535 < number_of 10 portString 0
                      then Inl invalid_URL
                      else Inr \<lparr>auth_username = utf8_percent_encode userinfo_set user,
                                auth_password = utf8_percent_encode userinfo_set pass,
                                auth_host = h,
                                auth_port =
                                  (if portString = []
                                      \<or> default_port sch = Some (number_of 10 portString 0)
                                   then None else Some (number_of 10 portString 0))\<rparr>)))"

text \<open>
  The parser. The input loses its leading and trailing C0 controls and spaces and all its
  tabs and newlines. A scheme is required, as there is no base URL. The first \<open>?\<close> or \<open>#\<close>
  ends the authority and the path, and the first \<open>#\<close> ends the query. In a special URL
  all slashes and backslashes behind the scheme are skipped; another URL has an authority
  behind two slashes, a path behind a single slash, and an opaque path otherwise. \<open>None\<close>
  stands for an input outside the range of this development: the scheme \<open>file\<close>, or a
  host that \<open>host_parse\<close> does not cover.
\<close>

definition basic_URL_parse :: "jsstring \<Rightarrow> (js_thrown + URL) option" where
  "basic_URL_parse url =
     (let input = filter (\<lambda>c. c \<noteq> 9 \<and> c \<noteq> 10 \<and> c \<noteq> 13)
                    (rev (dropWhile (\<lambda>c. c \<le> 32) (rev (dropWhile (\<lambda>c. c \<le> 32) (USVString url)))));
          sch = lower_ascii (takeWhile isSchemeUnit input);
          after = drop (length sch) input
      in if input = [] \<or> \<not> isAlpha (hd input) \<or> \<not> startsWith after [58] then Some (Inl invalid_URL)
         else if sch = js ''file'' then None
         else
           (let special = is_special sch;
                rest = tl after;
                body = takeWhile (\<lambda>c. c \<noteq> 63 \<and> c \<noteq> 35) rest;
                r1 = drop (length body) rest;
                q = (if startsWith r1 [63] then Some (takeWhile (\<lambda>c. c \<noteq> 35) (tl r1)) else None);
                r2 = (case q of None \<Rightarrow> r1 | Some s \<Rightarrow> drop (Suc (length s)) r1);
                f = (if startsWith r2 [35] then Some (tl r2) else None);
                q' = map_option (utf8_percent_encode (if special then special_query_set else query_set)) q;
                f' = map_option (utf8_percent_encode fragment_set) f
            in if special \<or> startsWith body (js ''//'') then
                 (let b = (if special then dropWhile (\<lambda>c. c = 47 \<or> c = 92) body else drop 2 body);
                      authority = takeWhile (\<lambda>c. c \<noteq> 47 \<and> \<not> (special \<and> c = 92)) b;
                      p = drop (length authority) b
                  in case authority_state special sch authority of
                       None \<Rightarrow> None
                     | Some (Inl error) \<Rightarrow> Some (Inl error)
                     | Some (Inr a) \<Rightarrow>
                         Some (Inr \<lparr>scheme = sch, username = auth_username a,
                                    password = auth_password a, host = Some (auth_host a),
                                    port = auth_port a,
                                    path = Segments (if p = [] \<and> \<not> special then []
                                                     else path_state special (tl p)),
                                    query = q', fragment = f'\<rparr>))
               else if startsWith body (js ''/'') then
                 Some (Inr \<lparr>scheme = sch, username = [], password = [], host = None, port = None,
                            path = Segments (path_state False (tl body)),
                            query = q', fragment = f'\<rparr>)
               else
                 Some (Inr \<lparr>scheme = sch, username = [], password = [], host = None, port = None,
                            path = Opaque (utf8_percent_encode C0_control_set body),
                            query = q', fragment = f'\<rparr>)))"

text \<open>
  \<^verbatim>\<open>new URL(url)\<close> as a parser for the concrete inputs of this development. Outside the
  range of \<open>basic_URL_parse\<close> it throws, although the runtime may accept the input; the
  general statements below hold for every parser.
\<close>

definition URL_new :: URL_parser where
  "URL_new url = (case basic_URL_parse url of None \<Rightarrow> Inl invalid_URL | Some r \<Rightarrow> r)"
subsection \<open>Articles and the deduplication service\<close>

datatype ArticleSource = qiita | zenn | hackernews | devto

record Article =
  id' :: jsstring
  title :: jsstring
  url :: jsstring
  author :: jsstring
  publishedAt :: int
  source :: ArticleSource
  tags :: "jsstring list"
  excerpt :: "jsstring option"
  score :: "real option"
  relevanceScore :: real

record ArticleHash =
  hash_url :: jsstring
  hash_title :: jsstring
  normalizedTitle :: jsstring

record DeduplicationService =
  seenUrls :: "jsstring set"
  seenTitles :: "jsstring set"

definition new_DeduplicationService :: DeduplicationService where
  "new_DeduplicationService = \<lparr>seenUrls = {}, seenTitles = {}\<rparr>"

definition createArticleHash :: "URL_parser \<Rightarrow> Article \<Rightarrow> ArticleHash" where
  "createArticleHash parse article =
     \<lparr>hash_url = normalizeUrl parse (url article),
      hash_title = title article,
      normalizedTitle = normalizeTitle (title article)\<rparr>"

text \<open>
  The loop of \<open>deduplicateArticles\<close>: the articles still to come, the service with its
  two sets, the articles kept so far and the two counters of \<open>duplicateCount\<close> (URL
  duplicates, title duplicates), which the function writes to the log.
\<close>

fun deduplicate_loop ::
  "URL_parser \<Rightarrow> Article list \<Rightarrow> DeduplicationService \<Rightarrow> Article list \<Rightarrow> nat \<times> nat
     \<Rightarrow> Article list \<times> (nat \<times> nat) \<times> DeduplicationService" where
  "deduplicate_loop parse [] svc uniqueArticles duplicateCount =
     (uniqueArticles, duplicateCount, svc)"
| "deduplicate_loop parse (article # rest) svc uniqueArticles duplicateCount =
     (let hash = createArticleHash parse article in
      if hash_url hash \<in> seenUrls svc then
        deduplicate_loop parse rest svc uniqueArticles (fst duplicateCount + 1, snd duplicateCount)
      else if normalizedTitle hash \<in> seenTitles svc then
        deduplicate_loop parse rest svc uniqueArticles (fst duplicateCount, snd duplicateCount + 1)
      else
        deduplicate_loop parse rest
          (svc\<lparr>seenUrls := insert (hash_url hash) (seenUrls svc),
               seenTitles := insert (normalizedTitle hash) (seenTitles svc)\<rparr>)
          (uniqueArticles @ [article]) duplicateCount)"

definition deduplicateArticles ::
  "URL_parser \<Rightarrow> DeduplicationService \<Rightarrow> Article list
     \<Rightarrow> Article list \<times> (nat \<times> nat) \<times> DeduplicationService" where
  "deduplicateArticles parse svc articles = deduplicate_loop parse articles svc [] (0, 0)"

definition clearCache :: "DeduplicationService \<Rightarrow> DeduplicationService" where
  "clearCache svc = svc\<lparr>seenUrls := {}, seenTitles := {}\<rparr>"

text \<open>The two keys of an article.\<close>

abbreviation nurl :: "URL_parser \<Rightarrow> Article \<Rightarrow> jsstring" where
  "nurl parse a \<equiv> normalizeUrl parse (url a)"

abbreviation ntitle :: "Article \<Rightarrow> jsstring" where
  "ntitle a \<equiv> normalizeTitle (title a)"


text \<open>What the loop keeps, counts and records, without the accumulators.\<close>

definition admits :: "URL_parser \<Rightarrow> DeduplicationService \<Rightarrow> Article \<Rightarrow> bool" where
  "admits parse svc a = (nurl parse a \<notin> seenUrls svc \<and> ntitle a \<notin> seenTitles svc)"

definition record_article :: "URL_parser \<Rightarrow> DeduplicationService \<Rightarrow> Article \<Rightarrow> DeduplicationService" where
  "record_article parse svc a =
     svc\<lparr>seenUrls := insert (nurl parse a) (seenUrls svc),
          seenTitles := insert (ntitle a) (seenTitles svc)\<rparr>"

fun kept :: "URL_parser \<Rightarrow> DeduplicationService \<Rightarrow> Article list \<Rightarrow> Article list" where
  "kept parse svc [] = []"
| "kept parse svc (a # xs) =
     (if admits parse svc a then a # kept parse (record_article parse svc a) xs
      else kept parse svc xs)"

fun seen_after :: "URL_parser \<Rightarrow> DeduplicationService \<Rightarrow> Article list \<Rightarrow> DeduplicationService" where
  "seen_after parse svc [] = svc"
| "seen_after parse svc (a # xs) =
     (if admits parse svc a then seen_after parse (record_article parse svc a) xs
      else seen_after parse svc xs)"

fun url_duplicates :: "URL_parser \<Rightarrow> DeduplicationService \<Rightarrow> Article list \<Rightarrow> nat" where
  "url_duplicates parse svc [] = 0"
| "url_duplicates parse svc (a # xs) =
     (if admits parse svc a then url_duplicates parse (record_article parse svc a) xs
      else if nurl parse a \<in> seenUrls svc then Suc (url_duplicates parse svc xs)
      else url_duplicates parse svc xs)"

fun title_duplicates :: "URL_parser \<Rightarrow> DeduplicationService \<Rightarrow> Article list \<Rightarrow> nat" where
  "title_duplicates parse svc [] = 0"
| "title_duplicates parse svc (a # xs) =
     (if admits parse svc a then title_duplicates parse (record_article parse svc a) xs
      else if nurl parse a \<in> seenUrls svc then title_duplicates parse svc xs
      else Suc (title_duplicates parse svc xs))"

section \<open>Filtering (src/utils/filtering.ts)\<close>

text \<open>
  A JavaScript number is modelled as a real number: the rounding of the double-precision
  arithmetic is not reproduced. \<open>maxArticlesPerDay\<close> is an integer, which may be negative.
\<close>

record FilteringCriteria =
  keywords' :: "jsstring list"
  excludeKeywords :: "jsstring list"
  minRelevanceScore :: real
  maxArticlesPerDay :: int

record KeywordWeight =
  keyword :: jsstring
  weight :: real

text \<open>
  The table \<open>AI_KEYWORDS\<close>, in the order of the source; the Japanese keywords are given by
  their code units.
\<close>

definition AI_KEYWORDS :: "KeywordWeight list" where
  "AI_KEYWORDS =
     [\<lparr>keyword = js ''chatgpt'', weight = 1\<rparr>,
      \<lparr>keyword = js ''gpt'', weight = 1\<rparr>,
      \<lparr>keyword = js ''openai'', weight = 1\<rparr>,
      \<lparr>keyword = js ''claude'', weight = 1\<rparr>,
      \<lparr>keyword = js ''llm'', weight = 1\<rparr>,
      \<lparr>keyword = [22823, 35215, 27169, 35328, 35486, 12514, 12487, 12523], weight = 1\<rparr>,
      \<lparr>keyword = js ''transformer'', weight = 9/10\<rparr>,
      \<lparr>keyword = js ''bert'', weight = 9/10\<rparr>,
      \<lparr>keyword = js ''ai'', weight = 8/10\<rparr>,
      \<lparr>keyword = [20154, 24037, 30693, 33021], weight = 8/10\<rparr>,
      \<lparr>keyword = js ''machine learning'', weight = 8/10\<rparr>,
      \<lparr>keyword = [27231, 26800, 23398, 32722], weight = 8/10\<rparr>,
      \<lparr>keyword = js ''deep learning'', weight = 8/10\<rparr>,
      \<lparr>keyword = [12487, 12451, 12540, 12503, 12521, 12540, 12491, 12531, 12464], weight = 8/10\<rparr>,
      \<lparr>keyword = js ''neural network'', weight = 7/10\<rparr>,
      \<lparr>keyword = [12491, 12517, 12540, 12521, 12523, 12493, 12483, 12488, 12527, 12540, 12463], weight = 7/10\<rparr>,
      \<lparr>keyword = js ''nlp'', weight = 6/10\<rparr>,
      \<lparr>keyword = [33258, 28982, 35328, 35486, 20966, 29702], weight = 6/10\<rparr>,
      \<lparr>keyword = js ''computer vision'', weight = 6/10\<rparr>,
      \<lparr>keyword = [30011, 20687, 35469, 35672], weight = 6/10\<rparr>,
      \<lparr>keyword = [30011, 20687, 29983, 25104], weight = 6/10\<rparr>,
      \<lparr>keyword = js ''stable diffusion'', weight = 7/10\<rparr>,
      \<lparr>keyword = js ''midjourney'', weight = 7/10\<rparr>,
      \<lparr>keyword = js ''dalle'', weight = 7/10\<rparr>,
      \<lparr>keyword = js ''pytorch'', weight = 5/10\<rparr>,
      \<lparr>keyword = js ''tensorflow'', weight = 5/10\<rparr>,
      \<lparr>keyword = js ''huggingface'', weight = 5/10\<rparr>,
      \<lparr>keyword = js ''rag'', weight = 6/10\<rparr>,
      \<lparr>keyword = js ''fine-tuning'', weight = 5/10\<rparr>,
      \<lparr>keyword = js ''embedding'', weight = 5/10\<rparr>]"

text \<open>\<open>Array.prototype.join(' ')\<close>\<close>

fun join_space :: "jsstring list \<Rightarrow> jsstring" where
  "join_space [] = []"
| "join_space [t] = t"
| "join_space (t # ts) = t @ 32 # join_space ts"

text \<open>
  \<^verbatim>\<open>`${article.title} ${article.excerpt || ''} ${article.tags.join(' ')}`.toLowerCase()\<close>,
  the text both \<open>calculateRelevanceScore\<close> and \<open>containsExcludeKeywords\<close> search.
\<close>

definition article_text :: "Article \<Rightarrow> jsstring" where
  "article_text article =
     toLowerCase (title article @ 32 # (case excerpt article of None \<Rightarrow> [] | Some e \<Rightarrow> e)
                    @ 32 # join_space (tags article))"

text \<open>
  \<open>calculateRelevanceScore\<close>: each \<^verbatim>\<open>for\<close> loop is a fold over its array. The guard
  \<^verbatim>\<open>if (article.score)\<close> is false for a missing score and for 0.
\<close>

definition calculateRelevanceScore :: "Article \<Rightarrow> jsstring list \<Rightarrow> real" where
  "calculateRelevanceScore article customKeywords =
     (let text = article_text article;
          score0 = fold (\<lambda>item s. if includes_js text (toLowerCase (keyword item))
                                     then s + weight item else s) AI_KEYWORDS 0;
          score1 = fold (\<lambda>k s. if includes_js text (toLowerCase k) then s + 5 / 10 else s)
                     customKeywords score0;
          titleText = toLowerCase (title article);
          titleBonus = fold (\<lambda>item b. if includes_js titleText (toLowerCase (keyword item))
                                         then b + weight item * (3 / 10) else b) AI_KEYWORDS 0;
          tagBonus = fold (\<lambda>tag b.
                       fold (\<lambda>item b'. if includes_js (toLowerCase tag) (toLowerCase (keyword item))
                                          then b' + weight item * (2 / 10) else b') AI_KEYWORDS b)
                       (tags article) 0;
          popularityBonus =
            (case score article of
               None \<Rightarrow> 0
             | Some p \<Rightarrow>
                 if p = 0 then 0
                 else if p > 100 then 2 / 10
                 else if p > 50 then 1 / 10
                 else if p > 20 then 5 / 100
                 else 0)
      in min 1 ((score1 + titleBonus + tagBonus + popularityBonus) / 3))"

fun exclude_loop :: "jsstring \<Rightarrow> jsstring list \<Rightarrow> bool" where
  "exclude_loop text [] = False"
| "exclude_loop text (k # ks) =
     (if includes_js text (toLowerCase k) then True else exclude_loop text ks)"

definition containsExcludeKeywords :: "Article \<Rightarrow> jsstring list \<Rightarrow> bool" where
  "containsExcludeKeywords article excludeKws =
     (if length excludeKws = 0 then False else exclude_loop (article_text article) excludeKws)"

text \<open>
  \<open>Array.prototype.sort\<close> with a comparator is stable (ECMAScript 2019): for a comparator
  that orders the elements by a key its result is the one of the stable insertion sort.
  An element goes in front of the first element it does not have to follow.
\<close>

fun insert_by :: "('a \<Rightarrow> 'a \<Rightarrow> real) \<Rightarrow> 'a \<Rightarrow> 'a list \<Rightarrow> 'a list" where
  "insert_by cmp x [] = [x]"
| "insert_by cmp x (y # ys) = (if cmp x y \<le> 0 then x # y # ys else y # insert_by cmp x ys)"

definition sort_by :: "('a \<Rightarrow> 'a \<Rightarrow> real) \<Rightarrow> 'a list \<Rightarrow> 'a list" where
  "sort_by cmp xs = foldr (insert_by cmp) xs []"

text \<open>
  \<open>Array.prototype.slice(0, end)\<close> for an integer \<open>end\<close>: a negative \<open>end\<close> counts from
  the end of the array.
\<close>

definition slice_0 :: "int \<Rightarrow> 'a list \<Rightarrow> 'a list" where
  "slice_0 e xs =
     (let len = int (length xs);
          final = (if e < 0 then max (len + e) 0 else min e len)
      in take (nat final) xs)"

definition filterArticles :: "Article list \<Rightarrow> FilteringCriteria \<Rightarrow> Article list" where
  "filterArticles articles criteria =
     (let articlesWithScore =
            map (\<lambda>article. article\<lparr>relevanceScore :=
                   calculateRelevanceScore article (keywords' criteria)\<rparr>) articles;
          notExcluded =
            filter (\<lambda>article. \<not> containsExcludeKeywords article (excludeKeywords criteria))
              articlesWithScore;
          relevant =
            filter (\<lambda>article. relevanceScore article \<ge> minRelevanceScore criteria) notExcluded;
          sorted = sort_by (\<lambda>a b. relevanceScore b - relevanceScore a) relevant;
          limited = slice_0 (maxArticlesPerDay criteria) sorted
      in limited)"

subsection \<open>The scoring formula in the words of the specification\<close>

text \<open>
  The four components of the score as the specification describes them: sums over the
  keywords that occur (in their lower-case form) in the lower-case text, title or tag.
\<close>

definition rawScore :: "Article \<Rightarrow> jsstring list \<Rightarrow> real" where
  "rawScore article customKeywords =
     (\<Sum>item\<leftarrow>AI_KEYWORDS.
         if includes_js (article_text article) (toLowerCase (keyword item)) then weight item else 0)
     + (\<Sum>k\<leftarrow>customKeywords.
         if includes_js (article_text article) (toLowerCase k) then 5 / 10 else 0)"

definition titleBonus :: "Article \<Rightarrow> real" where
  "titleBonus article =
     (\<Sum>item\<leftarrow>AI_KEYWORDS.
         if includes_js (toLowerCase (title article)) (toLowerCase (keyword item))
         then weight item * (3 / 10) else 0)"

definition tagBonus :: "Article \<Rightarrow> real" where
  "tagBonus article =
     (\<Sum>tag\<leftarrow>tags article. \<Sum>item\<leftarrow>AI_KEYWORDS.
         if includes_js (toLowerCase tag) (toLowerCase (keyword item))
         then weight item * (2 / 10) else 0)"

definition popularityBonus :: "Article \<Rightarrow> real" where
  "popularityBonus article =
     (case score article of
        None \<Rightarrow> 0
      | Some p \<Rightarrow> if p > 100 then 2 / 10 else if p > 50 then 1 / 10 else if p > 20 then 5 / 100 else 0)"

subsection \<open>The stages of the filter\<close>

text \<open>An article with its score, and the articles that pass the exclusion and the threshold.\<close>

definition with_score :: "FilteringCriteria \<Rightarrow> Article \<Rightarrow> Article" where
  "with_score criteria article =
     article\<lparr>relevanceScore := calculateRelevanceScore article (keywords' criteria)\<rparr>"

definition relevant :: "Article list \<Rightarrow> FilteringCriteria \<Rightarrow> Article list" where
  "relevant articles criteria =
     filter (\<lambda>article. relevanceScore article \<ge> minRelevanceScore criteria)
       (filter (\<lambda>article. \<not> containsExcludeKeywords article (excludeKeywords criteria))
          (map (with_score criteria) articles))"

section \<open>The collection orchestrator (ArticleCollectorService)\<close>

text \<open>
  The configuration, as far as the orchestrator reads it. TypeScript's types are not checked
  at run time: \<open>updateConfig\<close> takes any object, and one without the \<open>filtering\<close> property
  (a malformed criteria object) makes the property access in \<open>filterArticles\<close> throw a
  \<open>TypeError\<close>; \<open>filtering = None\<close> is such an object. What a source needs besides its
  \<open>enabled\<close> flag (tags, topics, tokens) goes to its adapter only.
\<close>

record Filtering =
  filtering_excludeKeywords :: "jsstring list"
  filtering_minRelevanceScore :: real
  filtering_maxArticlesPerDay :: int

record Sources =
  qiita_enabled :: bool
  zenn_enabled :: bool
  hackernews_enabled :: bool
  devto_enabled :: bool

record Config =
  config_keywords :: "jsstring list"
  sources :: Sources
  filtering :: "Filtering option"

record CollectionError =
  error_source :: jsstring
  error_message :: jsstring
  error_timestamp :: nat

record CollectionResult =
  articles :: "Article list"
  errors :: "CollectionError list"
  timestamp :: nat

record 'w CollectorInstance =
  name :: jsstring
  collect :: "(Article list, 'w) operation"
  enabled :: bool

text \<open>
  The four source adapters (\<open>collectArticles\<close> of the collector classes) are external:
  each gives, for a configuration, the operation the collector instance runs.
\<close>

record 'w Adapters =
  qiita_adapter :: "Config \<Rightarrow> (Article list, 'w) operation"
  zenn_adapter :: "Config \<Rightarrow> (Article list, 'w) operation"
  hackernews_adapter :: "Config \<Rightarrow> (Article list, 'w) operation"
  devto_adapter :: "Config \<Rightarrow> (Article list, 'w) operation"

record 'w ArticleCollectorService =
  config :: Config
  deduplicationService :: DeduplicationService
  collectors :: "'w CollectorInstance list"

definition initializeCollectors :: "'w Adapters \<Rightarrow> Config \<Rightarrow> 'w CollectorInstance list" where
  "initializeCollectors adapters cfg =
     (if qiita_enabled (sources cfg)
      then [\<lparr>name = js ''Qiita'', collect = qiita_adapter adapters cfg, enabled = True\<rparr>] else [])
     @ (if zenn_enabled (sources cfg)
        then [\<lparr>name = js ''Zenn'', collect = zenn_adapter adapters cfg, enabled = True\<rparr>] else [])
     @ (if hackernews_enabled (sources cfg)
        then [\<lparr>name = js ''HackerNews'', collect = hackernews_adapter adapters cfg, enabled = True\<rparr>]
        else [])
     @ (if devto_enabled (sources cfg)
        then [\<lparr>name = js ''Dev.to'', collect = devto_adapter adapters cfg, enabled = True\<rparr>] else [])"

text \<open>The constructor: one \<open>DeduplicationService\<close> for the life of the instance.\<close>

definition new_ArticleCollectorService :: "'w Adapters \<Rightarrow> Config \<Rightarrow> 'w ArticleCollectorService" where
  "new_ArticleCollectorService adapters cfg =
     \<lparr>config = cfg, deduplicationService = new_DeduplicationService,
      collectors = initializeCollectors adapters cfg\<rparr>"

definition getEnabledSources :: "'w ArticleCollectorService \<Rightarrow> jsstring list" where
  "getEnabledSources svc = map name (filter enabled (collectors svc))"

text \<open>
  \<open>collectFromAllSources\<close>: every enabled collector runs under \<open>withRetry\<close> with
  \<^verbatim>\<open>{ maxRetries: 2, baseDelay: 3000 }\<close>, and \<open>Promise.allSettled\<close> gives the outcomes in
  the order of the collectors (\<open>Inl\<close> a rejection with its reason, \<open>Inr\<close> a fulfilment with
  its value). The collectors run concurrently in the source; they share no state, and the
  embedding runs them one after the other.
\<close>

definition collector_retry :: PartialRetryConfig where
  "collector_retry = \<lparr>maxRetries_opt = Some 2, baseDelay_opt = Some 3000, backoffMultiplier_opt = None\<rparr>"

fun settle_all :: "'w CollectorInstance list \<Rightarrow> 'w \<Rightarrow> (js_error + Article list) list \<times> 'w" where
  "settle_all [] w = ([], w)"
| "settle_all (collector # rest) w =
     (case withRetry (collect collector) collector_retry w of
        (settled, calls, w') \<Rightarrow>
          (case settle_all rest w' of (results, w'') \<Rightarrow> (settled # results, w'')))"

definition collectFromAllSources ::
  "'w ArticleCollectorService \<Rightarrow> 'w \<Rightarrow> (js_error + Article list) list \<times> 'w" where
  "collectFromAllSources svc w = settle_all (filter enabled (collectors svc)) w"

text \<open>
  \<open>mergeCollectionResults\<close>: the result at index \<open>i\<close> belongs to the enabled source at
  index \<open>i\<close>; the two lists have the same length. The clock is read once per run.
\<close>

fun merge_loop ::
  "(jsstring \<times> (js_error + Article list)) list \<Rightarrow> nat \<Rightarrow> Article list \<times> CollectionError list" where
  "merge_loop [] now = ([], [])"
| "merge_loop ((collectorName, Inr val) # rest) now =
     (case merge_loop rest now of (as, es) \<Rightarrow> (val @ as, es))"
| "merge_loop ((collectorName, Inl reason) # rest) now =
     (case merge_loop rest now of
        (as, es) \<Rightarrow>
          (as, \<lparr>error_source = collectorName, error_message = message reason,
                 error_timestamp = now\<rparr> # es))"

definition mergeCollectionResults ::
  "'w ArticleCollectorService \<Rightarrow> (js_error + Article list) list \<Rightarrow> nat
     \<Rightarrow> Article list \<times> CollectionError list" where
  "mergeCollectionResults svc results now = merge_loop (zip (getEnabledSources svc) results) now"

text \<open>
  The private \<open>filterArticles\<close> of the service builds the criteria from the configuration;
  reading a property of the missing \<open>filtering\<close> object throws.
\<close>

definition missing_filtering :: js_thrown where
  "missing_filtering =
     ErrorObj (Error (js ''Cannot read properties of undefined (reading 'excludeKeywords')''))"

definition service_filterArticles ::
  "'w ArticleCollectorService \<Rightarrow> Article list \<Rightarrow> js_thrown + Article list" where
  "service_filterArticles svc as =
     (case filtering (config svc) of
        None \<Rightarrow> Inl missing_filtering
      | Some f \<Rightarrow>
          Inr (filterArticles as
                 \<lparr>keywords' = config_keywords (config svc),
                  excludeKeywords = filtering_excludeKeywords f,
                  minRelevanceScore = filtering_minRelevanceScore f,
                  maxArticlesPerDay = filtering_maxArticlesPerDay f\<rparr>))"

text \<open>\<^verbatim>\<open>error instanceof Error ? error.message : String(error)\<close>\<close>

fun thrown_message :: "js_thrown \<Rightarrow> jsstring" where
  "thrown_message (ErrorObj e) = message e"
| "thrown_message (NonError s) = s"

text \<open>
  The \<^verbatim>\<open>try\<close> block of \<open>collectAllArticles\<close> calls three methods behind the collection:
  \<open>mergeCollectionResults\<close>, \<open>deduplicateArticles\<close> and \<open>filterArticles\<close> (which scores
  and filters). Each of them may throw, so the block is given for arbitrary methods first:
  a method returns \<open>Inl\<close> what it throws or \<open>Inr\<close> its value, and the deduplication also
  returns the state it leaves its service in.
\<close>

record 'w Methods =
  mergeCollectionResults_method ::
    "'w ArticleCollectorService \<Rightarrow> (js_error + Article list) list \<Rightarrow> nat
       \<Rightarrow> js_thrown + Article list \<times> CollectionError list"
  deduplicateArticles_method ::
    "DeduplicationService \<Rightarrow> Article list \<Rightarrow> (js_thrown + Article list) \<times> DeduplicationService"
  filterArticles_method :: "'w ArticleCollectorService \<Rightarrow> Article list \<Rightarrow> js_thrown + Article list"

text \<open>
  How the block ends (\<open>Inl\<close> what it throws, \<open>Inr\<close> what it returns), the \<open>result\<close> object
  as it leaves it, the service and the world. \<open>result.errors\<close> is assigned when the merge
  has returned, not before.
\<close>

definition collectAllArticles_try_with ::
  "'w Methods \<Rightarrow> 'w ArticleCollectorService \<Rightarrow> nat \<Rightarrow> 'w
     \<Rightarrow> (js_thrown + CollectionResult) \<times> CollectionResult \<times> 'w ArticleCollectorService \<times> 'w" where
  "collectAllArticles_try_with methods svc now w =
     (let result = \<lparr>articles = [], errors = [], timestamp = now\<rparr> in
      case collectFromAllSources svc w of
        (collectionResults, w') \<Rightarrow>
          (case mergeCollectionResults_method methods svc collectionResults now of
             Inl error \<Rightarrow> (Inl error, result, svc, w')
           | Inr (as, es) \<Rightarrow>
               (let result1 = result\<lparr>errors := es\<rparr> in
                if length as = 0 then (Inr result1, result1, svc, w')
                else
                  (case deduplicateArticles_method methods (deduplicationService svc) as of
                     (deduplicated, dedup') \<Rightarrow>
                       (let svc' = svc\<lparr>deduplicationService := dedup'\<rparr> in
                        case deduplicated of
                          Inl error \<Rightarrow> (Inl error, result1, svc', w')
                        | Inr uniqueArticles \<Rightarrow>
                            (case filterArticles_method methods svc' uniqueArticles of
                               Inl error \<Rightarrow> (Inl error, result1, svc', w')
                             | Inr filteredArticles \<Rightarrow>
                                 (let result2 = result1\<lparr>articles := filteredArticles\<rparr>
                                  in (Inr result2, result2, svc', w'))))))))"

text \<open>
  \<open>collectAllArticles\<close>: the \<^verbatim>\<open>catch\<close> block pushes an error of the source
  \<open>ArticleCollectorService\<close> onto \<open>result.errors\<close> and returns the result. \<open>Inl\<close> would be
  a rejection of the promise \<open>collectAllArticles\<close> returns.
\<close>

definition collectAllArticles_with ::
  "'w Methods \<Rightarrow> 'w ArticleCollectorService \<Rightarrow> nat \<Rightarrow> 'w
     \<Rightarrow> (js_thrown + CollectionResult) \<times> 'w ArticleCollectorService \<times> 'w" where
  "collectAllArticles_with methods svc now w =
     (case collectAllArticles_try_with methods svc now w of
        (Inr returned, result, svc', w') \<Rightarrow> (Inr returned, svc', w')
      | (Inl error, result, svc', w') \<Rightarrow>
          (Inr (result\<lparr>errors := errors result
                   @ [\<lparr>error_source = js ''ArticleCollectorService'',
                       error_message = thrown_message error, error_timestamp = now\<rparr>]\<rparr>),
           svc', w'))"

text \<open>
  The methods of the class as the repository has them: the merge and the deduplication
  return, and \<open>filterArticles\<close> throws when the configuration has no \<open>filtering\<close> object.
\<close>

definition service_methods :: "URL_parser \<Rightarrow> 'w Methods" where
  "service_methods parse =
     \<lparr>mergeCollectionResults_method =
        (\<lambda>svc results now. Inr (mergeCollectionResults svc results now)),
      deduplicateArticles_method =
        (\<lambda>dedup as. case deduplicateArticles parse dedup as of
                       (uniqueArticles, duplicateCount, dedup') \<Rightarrow> (Inr uniqueArticles, dedup')),
      filterArticles_method = service_filterArticles\<rparr>"

definition collectAllArticles_try ::
  "URL_parser \<Rightarrow> 'w ArticleCollectorService \<Rightarrow> nat \<Rightarrow> 'w
     \<Rightarrow> (js_thrown + CollectionResult) \<times> CollectionResult \<times> 'w ArticleCollectorService \<times> 'w" where
  "collectAllArticles_try parse svc now w =
     collectAllArticles_try_with (service_methods parse) svc now w"

definition collectAllArticles ::
  "URL_parser \<Rightarrow> 'w ArticleCollectorService \<Rightarrow> nat \<Rightarrow> 'w
     \<Rightarrow> (js_thrown + CollectionResult) \<times> 'w ArticleCollectorService \<times> 'w" where
  "collectAllArticles parse svc now w = collectAllArticles_with (service_methods parse) svc now w"

text \<open>\<open>clearCache\<close> and \<open>updateConfig\<close> of the service.\<close>

definition service_clearCache :: "'w ArticleCollectorService \<Rightarrow> 'w ArticleCollectorService" where
  "service_clearCache svc = svc\<lparr>deduplicationService := clearCache (deduplicationService svc)\<rparr>"

definition updateConfig ::
  "'w Adapters \<Rightarrow> Config \<Rightarrow> 'w ArticleCollectorService \<Rightarrow> 'w ArticleCollectorService" where
  "updateConfig adapters newConfig svc =
     svc\<lparr>config := newConfig, collectors := initializeCollectors adapters newConfig,
         deduplicationService := clearCache (deduplicationService svc)\<rparr>"

text \<open>The criteria the service builds, and the error entry of the \<^verbatim>\<open>catch\<close> block.\<close>

definition criteria_of :: "Config \<Rightarrow> Filtering \<Rightarrow> FilteringCriteria" where
  "criteria_of cfg f =
     \<lparr>keywords' = config_keywords cfg, excludeKeywords = filtering_excludeKeywords f,
      minRelevanceScore = filtering_minRelevanceScore f,
      maxArticlesPerDay = filtering_maxArticlesPerDay f\<rparr>"

definition service_error :: "js_thrown \<Rightarrow> nat \<Rightarrow> CollectionError" where
  "service_error e now =
     \<lparr>error_source = js ''ArticleCollectorService'', error_message = thrown_message e,
      error_timestamp = now\<rparr>"

section \<open>Concrete inputs\<close>

text \<open>
  Two operations on a counter: one succeeds from its third invocation on, the other one
  always fails with the number of the invocation.
\<close>

definition flaky :: "(nat, nat) operation" where
  "flaky w = (if w < 2 then Inl (NonError (digits w)) else Inr (w * 21), Suc w)"

definition broken :: "(nat, nat) operation" where
  "broken w = (Inl (NonError (digits w)), Suc w)"

definition two_retries :: PartialRetryConfig where
  "two_retries = \<lparr>maxRetries_opt = Some 2, baseDelay_opt = Some 3000, backoffMultiplier_opt = None\<rparr>"

text \<open>An operation that is always rejected with \<open>new Error('404')\<close>.\<close>

definition always_404 :: "(nat, nat) operation" where
  "always_404 w = (Inl (ErrorObj (Error (js ''404''))), Suc w)"


text \<open>The title of the example: \<^verbatim>\<open>2024\u5E741\u670815\u65E5 v1.2.3 \u30EA\u30EA\u30FC\u30B9\<close>.\<close>

definition release_title :: jsstring where
  "release_title = js ''2024'' @ [24180] @ js ''1'' @ [26376] @ js ''15'' @ [26085]
                     @ js '' v1.2.3 '' @ [12522, 12522, 12540, 12473]"

text \<open>An article with the given identifier, title and URL, and nothing else.\<close>

definition mk_article :: "jsstring \<Rightarrow> jsstring \<Rightarrow> jsstring \<Rightarrow> Article" where
  "mk_article i t u =
     \<lparr>id' = i, title = t, url = u, author = [], publishedAt = 0, source = qiita, tags = [],
      excerpt = None, score = None, relevanceScore = 0\<rparr>"

text \<open>Two articles that normalize identically.\<close>

definition article_A :: Article where
  "article_A = mk_article (js ''1'') (js ''ChatGPT  Tips!'') (js ''https://a.com/x/?utm_source=y&ref=z'')"

definition article_A' :: Article where
  "article_A' = mk_article (js ''2'') (js ''chatgpt tips'') (js ''https://a.com/x'')"

text \<open>An article with the title of \<open>article_A\<close> under another URL.\<close>

definition article_X :: Article where
  "article_X = mk_article (js ''0'') (js ''ChatGPT Tips'') (js ''https://a.com/other'')"

text \<open>Two articles whose URLs do not parse.\<close>

definition article_M :: Article where
  "article_M = mk_article (js ''3'') (js ''first'') (js ''not a url'')"

definition article_M' :: Article where
  "article_M' = mk_article (js ''4'') (js ''second'') (js ''not a url'')"

text \<open>A URL with tracking parameters, another parameter, a trailing slash and a fragment.\<close>

definition tracked_url :: jsstring where
  "tracked_url = js ''http://b.org/p/q/?ref=1&id=7&utm_medium=mail#top''"

text \<open>A URL with an opaque path that ends with a slash.\<close>

definition mailto_url :: jsstring where
  "mailto_url = js ''mailto:a@b.com/''"

text \<open>
  Three articles for the filter: about ChatGPT with the tag \<open>ai\<close> and 120 points, about
  cooking, and about PyTorch; and an advertisement.
\<close>

definition article_gpt :: Article where
  "article_gpt = (mk_article (js ''g'') (js ''ChatGPT tips'') (js ''https://a.com/g''))
                   \<lparr>tags := [js ''ai''], score := Some 120\<rparr>"

definition article_cook :: Article where
  "article_cook = mk_article (js ''c'') (js ''Cooking pasta'') (js ''https://a.com/c'')"

definition article_torch :: Article where
  "article_torch = (mk_article (js ''t'') (js ''PyTorch notes'') (js ''https://a.com/t''))
                     \<lparr>excerpt := Some (js ''Embedding layers'')\<rparr>"

definition article_ad :: Article where
  "article_ad = (mk_article (js ''s'') (js ''LLM course'') (js ''https://a.com/s''))
                  \<lparr>excerpt := Some (js ''Sponsored post'')\<rparr>"

text \<open>Criteria with a cap of one article, and criteria with a negative cap.\<close>

definition one_per_day :: FilteringCriteria where
  "one_per_day = \<lparr>keywords' = [js ''Tips''], excludeKeywords = [js ''sponsored''],
                   minRelevanceScore = 1 / 10, maxArticlesPerDay = 1\<rparr>"

definition negative_cap :: FilteringCriteria where
  "negative_cap = \<lparr>keywords' = [], excludeKeywords = [],
                    minRelevanceScore = 0, maxArticlesPerDay = - 1\<rparr>"

text \<open>
  A service on a world that counts invocations: the Qiita adapter returns two articles,
  the Zenn adapter always fails with \<open>new Error('503')\<close>, the other sources are disabled.
  One configuration filters nothing out, the other one has lost its \<open>filtering\<close> object.
\<close>

definition test_adapters :: "nat Adapters" where
  "test_adapters =
     \<lparr>qiita_adapter = (\<lambda>cfg w. (Inr [article_A, article_M], Suc w)),
      zenn_adapter = (\<lambda>cfg w. (Inl (ErrorObj (Error (js ''503''))), Suc w)),
      hackernews_adapter = (\<lambda>cfg w. (Inr [], Suc w)),
      devto_adapter = (\<lambda>cfg w. (Inr [], Suc w))\<rparr>"

definition two_sources :: Sources where
  "two_sources = \<lparr>qiita_enabled = True, zenn_enabled = True, hackernews_enabled = False,
                   devto_enabled = False\<rparr>"

definition good_config :: Config where
  "good_config =
     \<lparr>config_keywords = [], sources = two_sources,
      filtering = Some \<lparr>filtering_excludeKeywords = [], filtering_minRelevanceScore = 0,
                        filtering_maxArticlesPerDay = 10\<rparr>\<rparr>"

definition malformed_config :: Config where
  "malformed_config = \<lparr>config_keywords = [], sources = two_sources, filtering = None\<rparr>"

definition zenn_error :: CollectionError where
  "zenn_error =
     \<lparr>error_source = js ''Zenn'',
      error_message = js ''All retry attempts failed after 3 tries. Last error: 503'',
      error_timestamp = 0\<rparr>"

definition good_service :: "nat ArticleCollectorService" where
  "good_service = new_ArticleCollectorService test_adapters good_config"

definition malformed_service :: "nat ArticleCollectorService" where
  "malformed_service = new_ArticleCollectorService test_adapters malformed_config"

text \<open>
  Methods that throw: a merge that meets an adapter value that is no array, and a
  deduplication that meets an article without a title (having recorded nothing).
\<close>

definition failing_merge :: "nat Methods" where
  "failing_merge =
     (service_methods URL_new)
       \<lparr>mergeCollectionResults_method :=
          (\<lambda>svc results now. Inl (ErrorObj (Error (js ''result.value is not iterable''))))\<rparr>"

definition failing_deduplication :: "nat Methods" where
  "failing_deduplication =
     (service_methods URL_new)
       \<lparr>deduplicateArticles_method :=
          (\<lambda>dedup as.
             (Inl (ErrorObj (Error (js ''Cannot read properties of undefined (reading 'toLowerCase')''))),
              dedup))\<rparr>"

text \<open>The test service after a run that has kept both articles of the Qiita adapter.\<close>

definition seen_service :: "nat ArticleCollectorService" where
  "seen_service =
     good_service\<lparr>deduplicationService :=
       \<lparr>seenUrls = {js ''not a url'', js ''https://a.com/x''},
        seenTitles = {js ''first'', js ''chatgpt tips''}\<rparr>\<rparr>"
section \<open>Properties of the string operations\<close>

lemma startsWith_iff: "startsWith s k \<longleftrightarrow> (\<exists>q. s = k @ q)"
  by (induction s k rule: startsWith.induct) auto

lemma includes_js_iff: "includes_js s k \<longleftrightarrow> (\<exists>p q. s = p @ k @ q)"
proof (induction s)
  case Nil
  then show ?case by auto
next
  case (Cons c cs)
  show ?case
  proof
    assume "includes_js (c # cs) k"
    then consider "startsWith (c # cs) k" | "includes_js cs k" by auto
    then show "\<exists>p q. c # cs = p @ k @ q"
    proof cases
      case 1
      then obtain q where "c # cs = k @ q" by (auto simp: startsWith_iff)
      then have "c # cs = [] @ k @ q" by simp
      then show ?thesis by blast
    next
      case 2
      then obtain p q where "cs = p @ k @ q" using Cons.IH by blast
      then have "c # cs = (c # p) @ k @ q" by simp
      then show ?thesis by blast
    qed
  next
    assume "\<exists>p q. c # cs = p @ k @ q"
    then obtain p q where e: "c # cs = p @ k @ q" by blast
    show "includes_js (c # cs) k"
    proof (cases p)
      case Nil
      with e have "startsWith (c # cs) k" by (auto simp: startsWith_iff)
      then show ?thesis by simp
    next
      case (Cons d p')
      with e have "cs = p' @ k @ q" by simp
      then have "includes_js cs k" using Cons.IH by blast
      then show ?thesis by simp
    qed
  qed
qed

lemma toLowerCase_unit_idem: "toLowerCase_unit (toLowerCase_unit c) = toLowerCase_unit c"
  by (simp add: toLowerCase_unit_def)

lemma toLowerCase_idem: "toLowerCase (toLowerCase s) = toLowerCase s"
  by (simp add: toLowerCase_def toLowerCase_unit_idem)

lemma includes_lower_fixed:
  assumes "includes_js (toLowerCase s) k"
  shows "toLowerCase k = k"
proof -
  from assms obtain p q where e: "toLowerCase s = p @ k @ q" by (auto simp: includes_js_iff)
  have "toLowerCase (p @ k @ q) = p @ k @ q"
    using toLowerCase_idem [of s] e by simp
  then show ?thesis by (simp add: toLowerCase_def)
qed

section \<open>Evaluation of the concrete inputs\<close>

lemmas title_eval = normalizeTitle_def js_def toLowerCase_def toLowerCase_unit_def
  trim_def isSpace_def halfwidth_def isFullwidthAlnum_def strip_special_def isKept_def isWord_def
  isDigit_def match_date_def match_version_def digits_1_2_def Let_def

lemmas url_eval = normalizeUrl_def normalizeUrl_try_def URL_new_def basic_URL_parse_def js_def
  lower_ascii_def isSchemeUnit_def isAlpha_def isDigit_def isWord_def is_special_def default_port_def
  authority_state_def host_parse_def forbidden_domain_def forbidden_host_def ends_in_number_def
  ipv4_parts_def ipv4_number_def isRadixDigit_def path_state_def is_single_dot_def is_double_dot_def
  utf8_percent_encode_def path_set_def query_set_def special_query_set_def fragment_set_def
  userinfo_set_def C0_control_set_def percent_encode_byte_def utf8_encode_def utf8_encode_cp_def
  parse_path_def Let_def delete_params_def
  searchParams_def urlencoded_parse_def parse_pair_def plus_to_space_def paramsToRemove_def
  params_delete_def update_query_def pathname_def strip_slash_def endsWith_def slice_0_minus1_def
  set_pathname_def URL_toString_def invalid_URL_def urlencoded_string_def urlencoded_byte_def
  hex_digit_def isHex_def hex_value_def

lemma A_keys:
  "nurl URL_new article_A = js ''https://a.com/x''" "nurl URL_new article_A' = js ''https://a.com/x''"
  "ntitle article_A = js ''chatgpt tips''" "ntitle article_A' = js ''chatgpt tips''"
  by (simp_all add: article_A_def article_A'_def mk_article_def url_eval title_eval)

lemma X_keys:
  "nurl URL_new article_X = js ''https://a.com/other''" "ntitle article_X = js ''chatgpt tips''"
  by (simp_all add: article_X_def mk_article_def url_eval title_eval)

lemma M_keys:
  "URL_new (url article_M) = Inl invalid_URL" "URL_new (url article_M') = Inl invalid_URL"
  "ntitle article_M = js ''first''" "ntitle article_M' = js ''second''"
  "url article_M = js ''not a url''" "url article_M' = js ''not a url''"
  by (simp_all add: article_M_def article_M'_def mk_article_def url_eval title_eval)

lemma M_nurl: "nurl URL_new article_M = js ''not a url''"
  by (simp add: normalizeUrl_def normalizeUrl_try_def M_keys(1)) (simp add: M_keys(5))

subsection \<open>Properties of the retry executor\<close>

declare withRetry_loop.simps [simp del]
declare withRetryCondition_loop.simps [simp del]

lemma outcome_Suc: "outcome operation w (Suc i) = outcome operation (snd (operation w)) i"
  by (simp add: outcome_def)

lemma outcome_0: "outcome operation w 0 = fst (operation w)"
  by (simp add: outcome_def)

lemma withRetry_loop_success:
  "int k + attempt \<le> maxRetries cfg + 1 \<Longrightarrow> \<forall>i<k. isl (outcome operation w i) \<Longrightarrow>
   outcome operation w k = Inr v \<Longrightarrow>
   withRetry_loop operation cfg attempt lastErr calls w
     = (Inr v, calls + Suc k, world_after operation w (Suc k))"
proof (induction k arbitrary: attempt lastErr calls w)
  case 0
  then obtain w' where "operation w = (Inr v, w')"
    by (cases "operation w") (simp add: outcome_0)
  with 0 show ?case
    by (subst withRetry_loop.simps) simp
next
  case (Suc k)
  from Suc.prems(2) have "isl (outcome operation w 0)" by blast
  then obtain e w' where ow: "operation w = (Inl e, w')"
    by (cases "operation w"; cases "fst (operation w)") (auto simp: outcome_0)
  have rest: "\<forall>i<k. isl (outcome operation w' i)"
    using Suc.prems(2) ow by (auto simp: outcome_Suc dest: spec [where x = "Suc i" for i])
  have last: "outcome operation w' k = Inr v"
    using Suc.prems(3) ow by (simp add: outcome_Suc)
  have "withRetry_loop operation cfg (attempt + 1) (toError e) (Suc calls) w'
          = (Inr v, Suc calls + Suc k, world_after operation w' (Suc k))"
    using Suc.prems(1) by (intro Suc.IH rest last) simp
  with Suc.prems(1) ow show ?case
    by (subst withRetry_loop.simps) simp
qed

lemma withRetry_loop_exhausted:
  "int r = maxRetries cfg + 2 - attempt \<Longrightarrow> \<forall>i<r. isl (outcome operation w i) \<Longrightarrow>
   withRetry_loop operation cfg attempt lastErr calls w
     = (Inl (RetryError (maxRetries cfg + 1)
          (if r = 0 then lastErr else toError (projl (outcome operation w (r - 1))))),
        calls + r, world_after operation w r)"
proof (induction r arbitrary: attempt lastErr calls w)
  case 0
  then show ?case by (subst withRetry_loop.simps) simp
next
  case (Suc r)
  from Suc.prems(2) have "isl (outcome operation w 0)" by blast
  then obtain e w' where ow: "operation w = (Inl e, w')"
    by (cases "operation w"; cases "fst (operation w)") (auto simp: outcome_0)
  have rest: "\<forall>i<r. isl (outcome operation w' i)"
    using Suc.prems(2) ow by (auto simp: outcome_Suc dest: spec [where x = "Suc i" for i])
  have step: "withRetry_loop operation cfg (attempt + 1) (toError e) (Suc calls) w'
          = (Inl (RetryError (maxRetries cfg + 1)
               (if r = 0 then toError e else toError (projl (outcome operation w' (r - 1))))),
             Suc calls + r, world_after operation w' r)"
    using Suc.prems(1) by (intro Suc.IH rest) simp
  have fin: "(if r = 0 then toError e else toError (projl (outcome operation w' (r - 1))))
      = toError (projl (outcome operation w (Suc r - 1)))"
    using ow by (cases r) (simp_all add: outcome_0 outcome_Suc)
  from Suc.prems(1) ow step fin show ?case
    by (subst withRetry_loop.simps) simp
qed

text \<open>
  Claim C2. With \<open>maxRetries = m\<close>: an operation that fails on its first \<open>k \<le> m\<close>
  invocations and succeeds on the next one makes \<open>withRetry\<close> return that value after
  exactly \<open>k + 1\<close> invocations; an operation that fails on all \<open>m + 1\<close> invocations
  makes it throw a \<open>RetryError\<close> with \<open>attemptCount = m + 1\<close> whose \<open>lastError\<close> is the
  error of the last invocation (wrapped in an \<open>Error\<close> when the thrown value is none).
\<close>

theorem withRetry_contract:
  assumes "maxRetries_opt partial = Some m"
  shows "(int k \<le> m \<and> (\<forall>i<k. isl (outcome operation w i)) \<and> outcome operation w k = Inr v
            \<longrightarrow> withRetry operation partial w = (Inr v, Suc k, world_after operation w (Suc k)))
       \<and> (0 \<le> m \<and> (\<forall>i<nat (m + 1). isl (outcome operation w i)) \<and> outcome operation w (nat m) = Inl e
            \<longrightarrow> withRetry operation partial w
                  = (Inl (RetryError (m + 1) (toError e)), nat (m + 1),
                     world_after operation w (nat (m + 1))))"
proof (intro conjI impI)
  assume h: "int k \<le> m \<and> (\<forall>i<k. isl (outcome operation w i)) \<and> outcome operation w k = Inr v"
  have m: "maxRetries (finalConfig partial) = m"
    using assms by (simp add: finalConfig_def)
  show "withRetry operation partial w = (Inr v, Suc k, world_after operation w (Suc k))"
    unfolding withRetry_def
    using withRetry_loop_success [of k 1 "finalConfig partial" operation w v _ 0] h m by simp
next
  assume h: "0 \<le> m \<and> (\<forall>i<nat (m + 1). isl (outcome operation w i)) \<and> outcome operation w (nat m) = Inl e"
  have m: "maxRetries (finalConfig partial) = m"
    using assms by (simp add: finalConfig_def)
  have r: "nat (m + 1) - 1 = nat m" using h by simp
  show "withRetry operation partial w
                  = (Inl (RetryError (m + 1) (toError e)), nat (m + 1),
                     world_after operation w (nat (m + 1)))"
    unfolding withRetry_def
    using withRetry_loop_exhausted [of "nat (m + 1)" "finalConfig partial" 1 operation w _ 0] h m r
    by simp
qed

lemma all_less_2: "(\<forall>i<2::nat. P i) \<longleftrightarrow> P 0 \<and> P 1"
  by (auto simp: less_Suc_eq numeral_2_eq_2)
lemma all_less_3: "(\<forall>i<3::nat. P i) \<longleftrightarrow> P 0 \<and> P 1 \<and> P 2"
  by (auto simp: less_Suc_eq numeral_3_eq_3 numeral_2_eq_2)

theorem withRetry_contract_witness:
  "withRetry flaky two_retries 0 = (Inr 42, 3, 3)
   \<and> withRetry broken two_retries 0 = (Inl (RetryError 3 (Error (js ''2''))), 3, 3)"
proof
  have c: "maxRetries_opt two_retries = Some 2" by (simp add: two_retries_def)
  have o: "\<forall>i<2. isl (outcome flaky 0 i)" "outcome flaky 0 2 = Inr 42"
    unfolding all_less_2 by (simp_all add: outcome_def flaky_def eval_nat_numeral)
  show "withRetry flaky two_retries 0 = (Inr 42, 3, 3)"
    using withRetry_contract [OF c, of 2 flaky 0 42] o
    by (simp add: eval_nat_numeral flaky_def)
  have b: "\<forall>i<3. isl (outcome broken 0 i)" "outcome broken 0 2 = Inl (NonError (js ''2''))"
    unfolding all_less_3 by (simp_all add: outcome_def broken_def eval_nat_numeral js_def)
  show "withRetry broken two_retries 0 = (Inl (RetryError 3 (Error (js ''2''))), 3, 3)"
    using withRetry_contract [OF c, of _ broken 0 _ "NonError (js ''2'')"] b
    by (simp add: eval_nat_numeral broken_def)
qed

text \<open>
  Claim C6. After a failure on which the retry predicate answers \<open>false\<close>,
  \<open>withRetryCondition\<close> makes no further attempt and throws a \<open>RetryError\<close> with the last
  error, but its \<open>attemptCount\<close> is \<open>maxRetries + 1\<close>, not the number of attempts made:
  with \<open>maxRetries = 3\<close> and a predicate that always refuses, one invocation is made and
  the error says 4.
\<close>

theorem withRetryCondition_attemptCount_after_break:
  "withRetryCondition always_404 (\<lambda>error attempt. False)
     \<lparr>maxRetries_opt = Some 3, baseDelay_opt = None, backoffMultiplier_opt = None\<rparr> 0
   = (Inl (RetryError 4 (Error (js ''404''))), 1, 1)"
  by (simp add: withRetryCondition_def withRetryCondition_loop.simps finalConfig_def always_404_def)

section \<open>Properties of the deduplication\<close>

lemma deduplicate_loop_eq:
  "deduplicate_loop parse xs svc acc dc =
     (acc @ kept parse svc xs,
      (fst dc + url_duplicates parse svc xs, snd dc + title_duplicates parse svc xs),
      seen_after parse svc xs)"
  by (induction xs arbitrary: svc acc dc)
     (simp_all add: Let_def createArticleHash_def admits_def record_article_def)

lemma deduplicateArticles_eq:
  "deduplicateArticles parse svc xs =
     (kept parse svc xs, (url_duplicates parse svc xs, title_duplicates parse svc xs),
      seen_after parse svc xs)"
  by (simp add: deduplicateArticles_def deduplicate_loop_eq)

lemma seenUrls_record: "seenUrls (record_article parse svc a) = insert (nurl parse a) (seenUrls svc)"
  by (simp add: record_article_def)

lemma seenTitles_record: "seenTitles (record_article parse svc a) = insert (ntitle a) (seenTitles svc)"
  by (simp add: record_article_def)

lemma seen_after_urls:
  "seenUrls (seen_after parse svc xs) = seenUrls svc \<union> nurl parse ` set (kept parse svc xs)"
  by (induction xs arbitrary: svc) (auto simp: seenUrls_record)

lemma seen_after_titles:
  "seenTitles (seen_after parse svc xs) = seenTitles svc \<union> ntitle ` set (kept parse svc xs)"
  by (induction xs arbitrary: svc) (auto simp: seenTitles_record)

lemma kept_fresh_urls: "a \<in> set (kept parse svc xs) \<Longrightarrow> nurl parse a \<notin> seenUrls svc"
proof (induction xs arbitrary: svc)
  case Nil
  then show ?case by simp
next
  case (Cons x xs)
  show ?case
  proof (cases "admits parse svc x")
    case True
    with Cons.prems have "a = x \<or> a \<in> set (kept parse (record_article parse svc x) xs)"
      by simp
    then show ?thesis
    proof
      assume "a = x"
      with True show ?thesis by (simp add: admits_def)
    next
      assume "a \<in> set (kept parse (record_article parse svc x) xs)"
      then have "nurl parse a \<notin> seenUrls (record_article parse svc x)" by (rule Cons.IH)
      then show ?thesis by (simp add: seenUrls_record)
    qed
  next
    case False
    with Cons.prems have "a \<in> set (kept parse svc xs)" by simp
    then show ?thesis by (rule Cons.IH)
  qed
qed

lemma kept_fresh_titles: "a \<in> set (kept parse svc xs) \<Longrightarrow> ntitle a \<notin> seenTitles svc"
proof (induction xs arbitrary: svc)
  case Nil
  then show ?case by simp
next
  case (Cons x xs)
  show ?case
  proof (cases "admits parse svc x")
    case True
    with Cons.prems have "a = x \<or> a \<in> set (kept parse (record_article parse svc x) xs)"
      by simp
    then show ?thesis
    proof
      assume "a = x"
      with True show ?thesis by (simp add: admits_def)
    next
      assume "a \<in> set (kept parse (record_article parse svc x) xs)"
      then have "ntitle a \<notin> seenTitles (record_article parse svc x)" by (rule Cons.IH)
      then show ?thesis by (simp add: seenTitles_record)
    qed
  next
    case False
    with Cons.prems have "a \<in> set (kept parse svc xs)" by simp
    then show ?thesis by (rule Cons.IH)
  qed
qed

lemma kept_distinct_urls: "distinct (map (nurl parse) (kept parse svc xs))"
proof (induction xs arbitrary: svc)
  case Nil
  then show ?case by simp
next
  case (Cons x xs)
  have "nurl parse x \<notin> nurl parse ` set (kept parse (record_article parse svc x) xs)"
  proof
    assume "nurl parse x \<in> nurl parse ` set (kept parse (record_article parse svc x) xs)"
    then obtain b where b: "b \<in> set (kept parse (record_article parse svc x) xs)"
      and e: "nurl parse x = nurl parse b" by blast
    from kept_fresh_urls [OF b] e show False by (simp add: seenUrls_record)
  qed
  with Cons.IH show ?case by simp
qed

lemma kept_distinct_titles: "distinct (map ntitle (kept parse svc xs))"
proof (induction xs arbitrary: svc)
  case Nil
  then show ?case by simp
next
  case (Cons x xs)
  have "ntitle x \<notin> ntitle ` set (kept parse (record_article parse svc x) xs)"
  proof
    assume "ntitle x \<in> ntitle ` set (kept parse (record_article parse svc x) xs)"
    then obtain b where b: "b \<in> set (kept parse (record_article parse svc x) xs)"
      and e: "ntitle x = ntitle b" by blast
    from kept_fresh_titles [OF b] e show False by (simp add: seenTitles_record)
  qed
  with Cons.IH show ?case by simp
qed

lemma kept_subseq: "subseq (kept parse svc xs) xs"
  by (induction xs arbitrary: svc) auto

lemma counts_total:
  "length (kept parse svc xs) + url_duplicates parse svc xs + title_duplicates parse svc xs = length xs"
  by (induction xs arbitrary: svc) auto

text \<open>An article that is refused leaves the service as it is.\<close>

lemma not_admits_after:
  "\<not> admits parse svc b \<Longrightarrow> \<not> admits parse (seen_after parse svc xs) b"
  by (auto simp: admits_def seen_after_urls seen_after_titles)

lemma later_twin_refused:
  assumes "nurl parse a = nurl parse b" "ntitle a = ntitle b"
  shows "\<not> admits parse (seen_after parse svc (a # mid)) b"
proof (cases "admits parse svc a")
  case True
  have "\<not> admits parse (record_article parse svc a) b"
    using assms by (simp add: admits_def record_article_def)
  then show ?thesis using True by (simp add: not_admits_after)
next
  case False
  then have "\<not> admits parse svc b" using assms by (simp add: admits_def)
  then show ?thesis using False by (simp add: not_admits_after)
qed

lemma kept_append:
  "kept parse svc (xs @ ys) = kept parse svc xs @ kept parse (seen_after parse svc xs) ys"
  by (induction xs arbitrary: svc) auto

lemma seen_after_append:
  "seen_after parse svc (xs @ ys) = seen_after parse (seen_after parse svc xs) ys"
  by (induction xs arbitrary: svc) auto

lemma url_duplicates_append:
  "url_duplicates parse svc (xs @ ys)
     = url_duplicates parse svc xs + url_duplicates parse (seen_after parse svc xs) ys"
  by (induction xs arbitrary: svc) auto

lemma title_duplicates_append:
  "title_duplicates parse svc (xs @ ys)
     = title_duplicates parse svc xs + title_duplicates parse (seen_after parse svc xs) ys"
  by (induction xs arbitrary: svc) auto

lemma deduplicate_single:
  "deduplicateArticles parse svc [b] =
     (if nurl parse b \<in> seenUrls svc then ([], (1, 0), svc)
      else if ntitle b \<in> seenTitles svc then ([], (0, 1), svc)
      else ([b], (0, 0), svc\<lparr>seenUrls := insert (nurl parse b) (seenUrls svc),
                              seenTitles := insert (ntitle b) (seenTitles svc)\<rparr>))"
  by (simp add: deduplicateArticles_def Let_def createArticleHash_def)

lemma twin_dropped:
  assumes "nurl parse a = nurl parse a'" "ntitle a = ntitle a'"
  shows "kept parse svc (pre @ a # mid @ a' # post) = kept parse svc (pre @ a # mid @ post)"
    and "seen_after parse svc (pre @ a # mid @ a' # post) = seen_after parse svc (pre @ a # mid @ post)"
proof -
  let ?s = "seen_after parse svc pre"
  have r: "\<not> admits parse (seen_after parse ?s (a # mid)) a'"
    using assms by (rule later_twin_refused)
  have split: "pre @ a # mid @ a' # post = pre @ ((a # mid) @ (a' # post))"
    "pre @ a # mid @ post = pre @ ((a # mid) @ post)" by simp_all
  show "kept parse svc (pre @ a # mid @ a' # post) = kept parse svc (pre @ a # mid @ post)"
    unfolding split kept_append using r by simp
  show "seen_after parse svc (pre @ a # mid @ a' # post) = seen_after parse svc (pre @ a # mid @ post)"
    unfolding split seen_after_append using r by simp
qed

lemma fresh_admits: "admits parse new_DeduplicationService a"
  by (simp add: admits_def new_DeduplicationService_def)

lemma fresh_pair:
  assumes "nurl parse a = nurl parse a' \<or> ntitle a = ntitle a'"
  shows "kept parse new_DeduplicationService [a, a'] = [a]"
proof -
  have "\<not> admits parse (record_article parse new_DeduplicationService a) a'"
    using assms by (auto simp: admits_def record_article_def)
  then show ?thesis by (simp add: fresh_admits)
qed

lemma kept_subset: "set (kept parse svc xs) \<subseteq> set xs"
  by (induction xs arbitrary: svc) auto

lemma first_occurrence_admitted:
  assumes "nurl parse a \<notin> seenUrls svc" "ntitle a \<notin> seenTitles svc"
    and "list_all (\<lambda>x. nurl parse x \<noteq> nurl parse a \<and> ntitle x \<noteq> ntitle a) pre"
  shows "admits parse (seen_after parse svc pre) a"
proof -
  from assms(3) have "\<forall>x\<in>set pre. nurl parse x \<noteq> nurl parse a \<and> ntitle x \<noteq> ntitle a"
    by (simp add: list_all_iff)
  with kept_subset [of parse svc pre] have "nurl parse a \<notin> nurl parse ` set (kept parse svc pre)"
    "ntitle a \<notin> ntitle ` set (kept parse svc pre)" by force+
  with assms(1,2) show ?thesis
    by (simp add: admits_def seen_after_urls seen_after_titles)
qed

lemma first_occurrence_kept:
  assumes "nurl parse a \<notin> seenUrls svc" "ntitle a \<notin> seenTitles svc"
    and "list_all (\<lambda>x. nurl parse x \<noteq> nurl parse a \<and> ntitle x \<noteq> ntitle a) pre"
  shows "a \<in> set (kept parse svc (pre @ a # rest))"
  using first_occurrence_admitted [OF assms] by (simp add: kept_append)

lemma kept_position:
  "kept parse svc (pre @ a # post)
     = kept parse svc pre
       @ (if nurl parse a \<in> seenUrls svc \<union> nurl parse ` set (kept parse svc pre)
             \<or> ntitle a \<in> seenTitles svc \<union> ntitle ` set (kept parse svc pre)
          then [] else [a])
       @ kept parse (seen_after parse svc (pre @ [a])) post"
proof -
  have "kept parse svc (pre @ a # post) = kept parse svc ((pre @ [a]) @ post)" by simp
  also have "\<dots> = kept parse svc (pre @ [a]) @ kept parse (seen_after parse svc (pre @ [a])) post"
    by (rule kept_append)
  also have "kept parse svc (pre @ [a])
               = kept parse svc pre
                 @ (if nurl parse a \<in> seenUrls svc \<union> nurl parse ` set (kept parse svc pre)
                       \<or> ntitle a \<in> seenTitles svc \<union> ntitle ` set (kept parse svc pre)
                    then [] else [a])"
    by (simp add: kept_append admits_def seen_after_urls seen_after_titles)
  finally show ?thesis by simp
qed

text \<open>
  Claim C3, amended. \<open>deduplicateArticles\<close>, from any state of the two sets: the articles
  kept are a subsequence of the input (arrival order); no two of them have the same
  normalized URL and no two the same normalized title; an article is refused for its URL
  before its title is looked at. An article is kept exactly when neither its normalized
  URL nor its normalized title has been recorded, by an earlier call on the instance or by
  an article kept in front of it. So of the articles that normalize identically at most
  the first one is kept: it is kept when its normalized URL and title occur neither in
  the sets nor in front of it in the input, and a later one never is (the result and the
  sets are as if it were not there). On a fresh service \<open>[A, A']\<close> with a common
  normalized URL or title gives \<open>[A]\<close>.
\<close>

theorem deduplicateArticles_first_wins:
  "subseq (fst (deduplicateArticles parse svc xs)) xs
   \<and> distinct (map (nurl parse) (fst (deduplicateArticles parse svc xs)))
   \<and> distinct (map ntitle (fst (deduplicateArticles parse svc xs)))
   \<and> deduplicateArticles parse svc [b] =
       (if nurl parse b \<in> seenUrls svc then ([], (1, 0), svc)
        else if ntitle b \<in> seenTitles svc then ([], (0, 1), svc)
        else ([b], (0, 0), svc\<lparr>seenUrls := insert (nurl parse b) (seenUrls svc),
                                seenTitles := insert (ntitle b) (seenTitles svc)\<rparr>))
   \<and> fst (deduplicateArticles parse svc (pre @ a # rest))
       = fst (deduplicateArticles parse svc pre)
         @ (if nurl parse a \<in> seenUrls svc
                  \<union> nurl parse ` set (fst (deduplicateArticles parse svc pre))
               \<or> ntitle a \<in> seenTitles svc
                  \<union> ntitle ` set (fst (deduplicateArticles parse svc pre))
            then [] else [a])
         @ fst (deduplicateArticles parse
                  (snd (snd (deduplicateArticles parse svc (pre @ [a])))) rest)
   \<and> (nurl parse a \<notin> seenUrls svc \<and> ntitle a \<notin> seenTitles svc
        \<and> list_all (\<lambda>x. nurl parse x \<noteq> nurl parse a \<and> ntitle x \<noteq> ntitle a) pre \<longrightarrow>
        a \<in> set (fst (deduplicateArticles parse svc (pre @ a # rest))))
   \<and> (nurl parse a = nurl parse a' \<and> ntitle a = ntitle a' \<longrightarrow>
        fst (deduplicateArticles parse svc (pre @ a # mid @ a' # post))
          = fst (deduplicateArticles parse svc (pre @ a # mid @ post))
        \<and> snd (snd (deduplicateArticles parse svc (pre @ a # mid @ a' # post)))
          = snd (snd (deduplicateArticles parse svc (pre @ a # mid @ post))))
   \<and> (nurl parse a = nurl parse a' \<or> ntitle a = ntitle a' \<longrightarrow>
        fst (deduplicateArticles parse new_DeduplicationService [a, a']) = [a])"
proof (intro conjI impI)
  show "subseq (fst (deduplicateArticles parse svc xs)) xs"
    by (simp add: deduplicateArticles_eq kept_subseq)
  show "distinct (map (nurl parse) (fst (deduplicateArticles parse svc xs)))"
    by (simp add: deduplicateArticles_eq kept_distinct_urls)
  show "distinct (map ntitle (fst (deduplicateArticles parse svc xs)))"
    by (simp add: deduplicateArticles_eq kept_distinct_titles)
  show "deduplicateArticles parse svc [b] =
       (if nurl parse b \<in> seenUrls svc then ([], (1, 0), svc)
        else if ntitle b \<in> seenTitles svc then ([], (0, 1), svc)
        else ([b], (0, 0), svc\<lparr>seenUrls := insert (nurl parse b) (seenUrls svc),
                                seenTitles := insert (ntitle b) (seenTitles svc)\<rparr>))"
    by (rule deduplicate_single)
  show "fst (deduplicateArticles parse svc (pre @ a # rest))
       = fst (deduplicateArticles parse svc pre)
         @ (if nurl parse a \<in> seenUrls svc
                  \<union> nurl parse ` set (fst (deduplicateArticles parse svc pre))
               \<or> ntitle a \<in> seenTitles svc
                  \<union> ntitle ` set (fst (deduplicateArticles parse svc pre))
            then [] else [a])
         @ fst (deduplicateArticles parse
                  (snd (snd (deduplicateArticles parse svc (pre @ [a])))) rest)"
    unfolding deduplicateArticles_eq fst_conv snd_conv by (rule kept_position)
next
  assume "nurl parse a \<notin> seenUrls svc \<and> ntitle a \<notin> seenTitles svc
        \<and> list_all (\<lambda>x. nurl parse x \<noteq> nurl parse a \<and> ntitle x \<noteq> ntitle a) pre"
  then show "a \<in> set (fst (deduplicateArticles parse svc (pre @ a # rest)))"
    by (simp add: deduplicateArticles_eq first_occurrence_kept del: kept.simps)
next
  assume "nurl parse a = nurl parse a' \<and> ntitle a = ntitle a'"
  then have e: "nurl parse a = nurl parse a'" "ntitle a = ntitle a'" by simp_all
  show "fst (deduplicateArticles parse svc (pre @ a # mid @ a' # post))
          = fst (deduplicateArticles parse svc (pre @ a # mid @ post))"
    by (simp add: deduplicateArticles_eq twin_dropped(1) [OF e])
  show "snd (snd (deduplicateArticles parse svc (pre @ a # mid @ a' # post)))
          = snd (snd (deduplicateArticles parse svc (pre @ a # mid @ post)))"
    by (simp add: deduplicateArticles_eq twin_dropped(2) [OF e])
next
  assume "nurl parse a = nurl parse a' \<or> ntitle a = ntitle a'"
  then show "fst (deduplicateArticles parse new_DeduplicationService [a, a']) = [a]"
    by (simp add: deduplicateArticles_eq fresh_pair del: kept.simps)
qed

theorem deduplicateArticles_first_wins_witness:
  "nurl URL_new article_A = nurl URL_new article_A' \<and> ntitle article_A = ntitle article_A'
   \<and> nurl URL_new article_M \<noteq> nurl URL_new article_A \<and> ntitle article_M \<noteq> ntitle article_A
   \<and> fst (deduplicateArticles URL_new new_DeduplicationService [article_A, article_A']) = [article_A]
   \<and> article_A \<in> set (fst (deduplicateArticles URL_new new_DeduplicationService
                              [article_M, article_A, article_A']))
   \<and> fst (deduplicateArticles URL_new new_DeduplicationService [article_M, article_A, article_A'])
       = fst (deduplicateArticles URL_new new_DeduplicationService [article_M, article_A])"
proof -
  have k: "nurl URL_new article_A = nurl URL_new article_A' \<and> ntitle article_A = ntitle article_A'"
    by (simp add: A_keys)
  have d: "nurl URL_new article_M \<noteq> nurl URL_new article_A \<and> ntitle article_M \<noteq> ntitle article_A"
    by (simp add: A_keys M_nurl M_keys(3) js_def)
  have f: "nurl URL_new article_A \<notin> seenUrls new_DeduplicationService
     \<and> ntitle article_A \<notin> seenTitles new_DeduplicationService
     \<and> list_all (\<lambda>x. nurl URL_new x \<noteq> nurl URL_new article_A \<and> ntitle x \<noteq> ntitle article_A)
          [article_M]"
    using d by (simp add: new_DeduplicationService_def)
  note t = deduplicateArticles_first_wins
         [where parse = URL_new and svc = new_DeduplicationService and a = article_A
            and a' = article_A' and pre = "[article_M]" and rest = "[article_A']"
            and mid = "[]" and post = "[]"]
  from t f have "article_A \<in> set (fst (deduplicateArticles URL_new new_DeduplicationService
                              ([article_M] @ article_A # [article_A'])))"
    by blast
  moreover from t k have "fst (deduplicateArticles URL_new new_DeduplicationService
                                 ([article_M] @ article_A # [] @ article_A' # []))
       = fst (deduplicateArticles URL_new new_DeduplicationService ([article_M] @ article_A # [] @ []))"
    by blast
  moreover from t k have "fst (deduplicateArticles URL_new new_DeduplicationService [article_A, article_A'])
       = [article_A]"
    by blast
  ultimately show ?thesis using k d by simp
qed

text \<open>
  Not always exactly the first: behind an article that has the title of \<open>A\<close> under another
  URL neither \<open>A\<close> nor its twin \<open>A'\<close> is kept, and a second call on the instance that has
  kept \<open>A\<close> keeps neither of them.
\<close>

theorem deduplicateArticles_twins_both_dropped:
  "nurl URL_new article_A = nurl URL_new article_A' \<and> ntitle article_A = ntitle article_A'
   \<and> deduplicateArticles URL_new new_DeduplicationService [article_X, article_A, article_A']
       = ([article_X], (0, 2),
          \<lparr>seenUrls = {js ''https://a.com/other''}, seenTitles = {js ''chatgpt tips''}\<rparr>)
   \<and> article_A \<notin> set (fst (deduplicateArticles URL_new new_DeduplicationService
                              [article_X, article_A, article_A']))
   \<and> fst (deduplicateArticles URL_new
            (snd (snd (deduplicateArticles URL_new new_DeduplicationService [article_A])))
            [article_A, article_A']) = []"
proof -
  have x: "article_A \<noteq> article_X" by (simp add: article_A_def article_X_def mk_article_def js_def)
  have 1: "deduplicateArticles URL_new new_DeduplicationService [article_X, article_A, article_A']
       = ([article_X], (0, 2),
          \<lparr>seenUrls = {js ''https://a.com/other''}, seenTitles = {js ''chatgpt tips''}\<rparr>)"
    by (simp add: deduplicateArticles_eq admits_def record_article_def new_DeduplicationService_def
          A_keys X_keys) (simp add: js_def)
  have 2: "fst (deduplicateArticles URL_new
            (snd (snd (deduplicateArticles URL_new new_DeduplicationService [article_A])))
            [article_A, article_A']) = []"
    by (simp add: deduplicateArticles_eq admits_def record_article_def new_DeduplicationService_def
          A_keys)
  from 1 2 x show ?thesis by (simp add: A_keys)
qed
section \<open>Properties of the title normalization\<close>

lemma release_title_normalized:
  "normalizeTitle release_title = js ''YYYY-MM-DD v123 '' @ [12522, 12522, 12540, 12473]"
  by (simp add: title_eval release_title_def)

text \<open>The version pattern needs a dot, and no dot is left when it is tried.\<close>

lemma no_dot_case:
  "46 \<notin> set s \<Longrightarrow>
     (case drop n s of [] \<Rightarrow> 0 | dot # rest \<Rightarrow> if dot = 46 then f rest else 0) = (0::nat)"
proof (cases "drop n s")
  case Nil
  then show ?thesis by simp
next
  case (Cons dot rest)
  assume "46 \<notin> set s"
  moreover from Cons have "dot \<in> set (drop n s)" by simp
  then have "dot \<in> set s" by (rule in_set_dropD)
  ultimately have "dot \<noteq> 46" by auto
  with Cons show ?thesis by simp
qed

lemma match_version_needs_dot: "46 \<notin> set s \<Longrightarrow> match_version s = 0"
  by (simp add: match_version_def Let_def no_dot_case)

lemma replace_all_no_match:
  "(\<And>t. 46 \<notin> set t \<Longrightarrow> m t = 0) \<Longrightarrow> 46 \<notin> set s \<Longrightarrow> replace_all m rep s = s"
  by (induction s) simp_all

lemma set_replace_all: "set (replace_all m rep s) \<subseteq> set rep \<union> set s"
proof (induction m rep s rule: replace_all.induct)
  case (1 m rep)
  then show ?case by simp
next
  case (2 m rep c cs)
  show ?case
  proof (cases "m (c # cs) = 0")
    case True
    with 2 show ?thesis by auto
  next
    case False
    with 2 have "set (replace_all m rep (drop (m (c # cs) - 1) cs))
                   \<subseteq> set rep \<union> set (drop (m (c # cs) - 1) cs)" by simp
    also have "\<dots> \<subseteq> set rep \<union> set (c # cs)"
      using set_drop_subset [of "m (c # cs) - 1" cs] by auto
    finally show ?thesis using False by auto
  qed
qed

lemma normalizeTitle_no_dot: "46 \<notin> set (normalizeTitle t)"
proof -
  let ?s = "strip_special (collapse_spaces (halfwidth (trim (toLowerCase t))))"
  let ?d = "replace_all match_date (js ''YYYY-MM-DD'') ?s"
  have "46 \<notin> set ?s" by (simp add: strip_special_def isKept_def isWord_def isSpace_def isDigit_def)
  moreover have "46 \<notin> set (js ''YYYY-MM-DD'')" by (simp add: js_def)
  ultimately have d: "46 \<notin> set ?d" using set_replace_all [of match_date "js ''YYYY-MM-DD''" ?s] by auto
  then have "replace_all match_version (js ''vX.X.X'') ?d = ?d"
    by (intro replace_all_no_match match_version_needs_dot)
  with d show ?thesis by (simp add: normalizeTitle_def)
qed

text \<open>
  Claim C7. \<open>normalizeTitle\<close> of the example title holds the date placeholder but not the
  version placeholder: the dots of \<open>v1.2.3\<close> are removed with the other special
  characters before the version pattern, which needs them, is tried. For the same reason
  no title at all is mapped to a string that contains \<open>vX.X.X\<close>.
\<close>

theorem normalizeTitle_release_title:
  "normalizeTitle release_title = js ''YYYY-MM-DD v123 '' @ [12522, 12522, 12540, 12473]
   \<and> includes_js (normalizeTitle release_title) (js ''YYYY-MM-DD'')
   \<and> \<not> includes_js (normalizeTitle release_title) (js ''vX.X.X'')
   \<and> \<not> includes_js (normalizeTitle t) (js ''vX.X.X'')"
proof -
  have "\<not> includes_js (normalizeTitle t) (js ''vX.X.X'')"
  proof
    assume "includes_js (normalizeTitle t) (js ''vX.X.X'')"
    then obtain p q where "normalizeTitle t = p @ js ''vX.X.X'' @ q"
      by (auto simp: includes_js_iff)
    then have "46 \<in> set (normalizeTitle t)" by (simp add: js_def)
    with normalizeTitle_no_dot show False by blast
  qed
  moreover have "includes_js (normalizeTitle release_title) (js ''YYYY-MM-DD'')
     \<and> \<not> includes_js (normalizeTitle release_title) (js ''vX.X.X'')"
    unfolding release_title_normalized by (simp add: js_def)
  ultimately show ?thesis using release_title_normalized by simp
qed

section \<open>Properties of the URL normalization\<close>

lemma fold_params_delete:
  "fold params_delete names l = filter (\<lambda>p. fst p \<notin> set names) l"
proof (induction names arbitrary: l)
  case Nil
  then show ?case by simp
next
  case (Cons n names)
  have "filter (\<lambda>p. fst p \<notin> set names) (filter (\<lambda>p. fst p \<noteq> n) l)
          = filter (\<lambda>p. fst p \<notin> set (n # names)) l"
    by (induction l) auto
  with Cons show ?case by (simp add: params_delete_def)
qed

lemma split_at_nonempty: "split_at sep s \<noteq> []"
  by (induction s) (auto split: list.splits)

lemma join_split_at: "concat (map (\<lambda>seg. sep # seg) (split_at sep s)) = sep # s"
proof (induction s)
  case Nil
  then show ?case by simp
next
  case (Cons c s)
  show ?case
  proof (cases "c = sep")
    case True
    with Cons show ?thesis by simp
  next
    case False
    obtain seg segs where sp: "split_at sep s = seg # segs"
      using split_at_nonempty [of sep s] by (cases "split_at sep s") auto
    with Cons False show ?thesis by simp
  qed
qed

lemma path_serialize_parse_path:
  "v = [] \<or> hd v = 47 \<Longrightarrow> path_serialize (Segments (parse_path v)) = v"
  by (cases v) (auto simp: parse_path_def join_split_at)

lemma js_slash: "js ''/'' = [47]"
  by (simp add: js_def)

lemma endsWith_slash: "endsWith p [47] \<longleftrightarrow> p \<noteq> [] \<and> last p = 47"
  by (cases p rule: rev_cases) (auto simp: endsWith_def)

lemma serialized_segments_start: "path_serialize (Segments segs) = [] \<or> hd (path_serialize (Segments segs)) = 47"
  by (cases segs) auto

lemma strip_slash_start:
  assumes "p = [] \<or> hd p = 47"
  shows "strip_slash p = [] \<or> hd (strip_slash p) = 47"
proof (cases "p \<noteq> js ''/'' \<and> endsWith p (js ''/'')")
  case True
  then have e: "p \<noteq> [] \<and> last p = 47" and n: "p \<noteq> [47]"
    by (simp_all add: endsWith_slash js_slash)
  then obtain q where q: "p = q @ [47]"
    by (cases p rule: rev_cases) auto
  with n have "q \<noteq> []" by auto
  with assms True q show ?thesis
    by (cases q) (auto simp: strip_slash_def slice_0_minus1_def js_slash)
next
  case False
  with assms show ?thesis by (auto simp: strip_slash_def)
qed

lemma pathname_set_pathname:
  assumes "path u = Segments segs"
  shows "pathname (set_pathname (strip_slash (pathname u)) u) = strip_slash (pathname u)"
proof -
  have "strip_slash (pathname u) = [] \<or> hd (strip_slash (pathname u)) = 47"
    using assms serialized_segments_start [of segs] by (intro strip_slash_start) (simp add: pathname_def)
  then show ?thesis
    using assms by (simp add: set_pathname_def pathname_def path_serialize_parse_path del: path_serialize.simps)
qed

text \<open>The UTF-8 decoder inverts the encoder, and it gives scalar values only.\<close>

lemma div_bounds:
  fixes c :: nat
  assumes "0 < k"
  shows "lo * k \<le> c \<Longrightarrow> lo \<le> c div k" and "c < hi * k \<Longrightarrow> c div k < hi"
  using assms by (simp_all add: less_eq_div_iff_mult_less_eq div_less_iff_less_mult)

lemma split3: "c div 4096 * 4096 + c div 64 mod 64 * 64 + c mod 64 = (c::nat)"
proof -
  have "c div 64 div 64 = c div 4096" by (simp add: div_mult2_eq)
  then have "c div 4096 * 64 + c div 64 mod 64 = c div 64"
    using div_mult_mod_eq [of "c div 64" 64] by simp
  then have "(c div 4096 * 64 + c div 64 mod 64) * 64 + c mod 64 = c" by simp
  then show ?thesis by (simp add: algebra_simps)
qed

lemma split4: "c div 262144 * 262144 + c div 4096 mod 64 * 4096 + c div 64 mod 64 * 64 + c mod 64 = (c::nat)"
proof -
  have "c div 4096 div 64 = c div 262144" by (simp add: div_mult2_eq)
  then have "c div 262144 * 64 + c div 4096 mod 64 = c div 4096"
    using div_mult_mod_eq [of "c div 4096" 64] by simp
  then have "(c div 262144 * 64 + c div 4096 mod 64) * 4096 = c div 4096 * 4096" by simp
  then have "c div 262144 * 262144 + c div 4096 mod 64 * 4096 = c div 4096 * 4096"
    by (simp add: algebra_simps)
  with split3 [of c] show ?thesis by simp
qed


lemma utf8_decode_encode_cp1:
  assumes "c < 128"
  shows "utf8_decode (utf8_encode_cp c @ rest) = c # utf8_decode rest"
  using assms by (simp add: utf8_encode_cp_def)

lemma utf8_decode_encode_cp2:
  assumes "128 \<le> c" "c < 2048"
  shows "utf8_decode (utf8_encode_cp c @ rest) = c # utf8_decode rest"
proof -
  define a where "a = c div 64"
  define d where "d = c mod 64"
  have enc: "utf8_encode_cp c = [192 + a, 128 + d]"
    using assms by (simp add: utf8_encode_cp_def a_def d_def)
  have e: "a * 64 + d = c" by (simp add: a_def d_def)
  have m: "d \<le> 63" by (simp add: d_def)
  from e m assms have b: "2 \<le> a" "a \<le> 31" by linarith+
  show ?thesis unfolding enc using b m e by simp
qed

lemma utf8_decode_encode_cp3:
  assumes "2048 \<le> c" "c < 65536" "\<not> (55296 \<le> c \<and> c \<le> 57343)"
  shows "utf8_decode (utf8_encode_cp c @ rest) = c # utf8_decode rest"
proof -
  define a where "a = c div 4096"
  define b where "b = c div 64 mod 64"
  define d where "d = c mod 64"
  have enc: "utf8_encode_cp c = [224 + a, 128 + b, 128 + d]"
    using assms by (simp add: utf8_encode_cp_def a_def b_def d_def)
  have e: "a * 4096 + b * 64 + d = c" unfolding a_def b_def d_def by (rule split3)
  have m: "b \<le> 63" "d \<le> 63" by (simp_all add: b_def d_def)
  from e m assms have r: "a \<le> 15" "a = 0 \<longrightarrow> 32 \<le> b" "a = 13 \<longrightarrow> b \<le> 31" by linarith+
  show ?thesis unfolding enc using r m e by simp
qed

lemma utf8_decode_encode_cp4:
  assumes "65536 \<le> c" "c < 1114112"
  shows "utf8_decode (utf8_encode_cp c @ rest) = c # utf8_decode rest"
proof -
  define a where "a = c div 262144"
  define b where "b = c div 4096 mod 64"
  define d where "d = c div 64 mod 64"
  define f where "f = c mod 64"
  have enc: "utf8_encode_cp c = [240 + a, 128 + b, 128 + d, 128 + f]"
    using assms by (simp add: utf8_encode_cp_def a_def b_def d_def f_def)
  have e: "a * 262144 + b * 4096 + d * 64 + f = c" unfolding a_def b_def d_def f_def by (rule split4)
  have m: "b \<le> 63" "d \<le> 63" "f \<le> 63" by (simp_all add: b_def d_def f_def)
  from e m assms have r: "a \<le> 4" "a = 0 \<longrightarrow> 16 \<le> b" "a = 4 \<longrightarrow> b \<le> 15" by linarith+
  show ?thesis unfolding enc using r m e by simp
qed

lemma utf8_decode_encode_cp:
  assumes "scalar c"
  shows "utf8_decode (utf8_encode_cp c @ rest) = c # utf8_decode rest"
proof -
  consider "c < 128" | "128 \<le> c" "c < 2048" | "2048 \<le> c" "c < 65536" | "65536 \<le> c"
    by linarith
  then show ?thesis
  proof cases
    case 1 then show ?thesis by (rule utf8_decode_encode_cp1)
  next
    case 2 then show ?thesis by (rule utf8_decode_encode_cp2)
  next
    case 3 with assms show ?thesis by (intro utf8_decode_encode_cp3) (simp_all add: scalar_def)
  next
    case 4 with assms show ?thesis by (intro utf8_decode_encode_cp4) (simp_all add: scalar_def)
  qed
qed

lemma utf8_roundtrip: "list_all scalar cs \<Longrightarrow> utf8_decode (utf8_encode cs) = cs"
  by (induction cs) (simp_all add: utf8_encode_def utf8_decode_encode_cp)

lemma scalar_utf8_decode: "list_all scalar (utf8_decode bs)"
proof (induction bs rule: length_induct)
  case (1 bs)
  then have ih: "length r < length bs \<Longrightarrow> list_all scalar (utf8_decode r)" for r by simp
  have fffd: "scalar 65533" by (simp add: scalar_def)
  show ?case
  proof (cases bs)
    case Nil
    then show ?thesis by simp
  next
    case (Cons b r)
    note bs = Cons
    have r: "list_all scalar (utf8_decode r)" using ih [of r] bs by simp
    consider "b < 128" | "194 \<le> b" "b \<le> 223" | "224 \<le> b" "b \<le> 239" | "240 \<le> b" "b \<le> 244"
      | "128 \<le> b" "b < 194" | "244 < b" by linarith
    then show ?thesis
    proof cases
      case 1
      then have "scalar b" by (simp add: scalar_def)
      with 1 r bs show ?thesis by simp
    next
      case 2
      show ?thesis
      proof (cases r)
        case Nil
        with 2 bs fffd show ?thesis by simp
      next
        case (Cons b1 r1)
        have "list_all scalar (utf8_decode r1)" using ih [of r1] bs Cons by simp
        moreover have "128 \<le> b1 \<and> b1 \<le> 191 \<longrightarrow> scalar ((b - 192) * 64 + (b1 - 128))"
          using 2 by (auto simp: scalar_def)
        ultimately show ?thesis using 2 bs Cons r fffd by simp
      qed
    next
      case 3
      show ?thesis
      proof (cases r)
        case Nil
        with 3 bs fffd show ?thesis by simp
      next
        case r1: (Cons b1 r1)
        have i1: "list_all scalar (utf8_decode r1)" using ih [of r1] bs r1 by simp
        show ?thesis
        proof (cases r1)
          case Nil
          with 3 bs r1 r fffd show ?thesis by simp
        next
          case r2: (Cons b2 r2)
          have i2: "list_all scalar (utf8_decode r2)" using ih [of r2] bs r1 r2 by simp
          have "(if b = 224 then 160 else 128) \<le> b1 \<and> b1 \<le> (if b = 237 then 159 else 191)
                  \<and> 128 \<le> b2 \<and> b2 \<le> 191
                \<longrightarrow> scalar ((b - 224) * 4096 + (b1 - 128) * 64 + (b2 - 128))"
            using 3 by (auto simp: scalar_def split: if_splits)
          then show ?thesis using 3 bs r1 r2 r i1 i2 fffd by simp
        qed
      qed
    next
      case 4
      show ?thesis
      proof (cases r)
        case Nil
        with 4 bs fffd show ?thesis by simp
      next
        case r1: (Cons b1 r1)
        have i1: "list_all scalar (utf8_decode r1)" using ih [of r1] bs r1 by simp
        show ?thesis
        proof (cases r1)
          case Nil
          with 4 bs r1 r fffd show ?thesis by simp
        next
          case r2: (Cons b2 r2)
          have i2: "list_all scalar (utf8_decode r2)" using ih [of r2] bs r1 r2 by simp
          show ?thesis
          proof (cases r2)
            case Nil
            with 4 bs r1 r2 r i1 fffd show ?thesis by simp
          next
            case r3: (Cons b3 r3)
            have i3: "list_all scalar (utf8_decode r3)" using ih [of r3] bs r1 r2 r3 by simp
            have "(if b = 240 then 144 else 128) \<le> b1 \<and> b1 \<le> (if b = 244 then 143 else 191)
                    \<and> 128 \<le> b2 \<and> b2 \<le> 191 \<and> 128 \<le> b3 \<and> b3 \<le> 191
                  \<longrightarrow> scalar ((b - 240) * 262144 + (b1 - 128) * 4096 + (b2 - 128) * 64 + (b3 - 128))"
              using 4 by (auto simp: scalar_def split: if_splits)
            then show ?thesis using 4 bs r1 r2 r3 r i1 i2 i3 fffd by simp
          qed
        qed
      qed
    next
      case 5
      with r bs fffd show ?thesis by simp
    next
      case 6
      with r bs fffd show ?thesis by simp
    qed
  qed
qed

lemma utf8_encode_cp_bytes:
  assumes "scalar c"
  shows "list_all (\<lambda>b. b < 256) (utf8_encode_cp c)"
proof -
  have m: "c mod 64 \<le> 63" "c div 64 mod 64 \<le> 63" "c div 4096 mod 64 \<le> 63" by simp_all
  have a: "c div 262144 < 5" using assms div_bounds(2) [of 262144 c 5] by (simp add: scalar_def)
  have b: "c div 4096 < 16" if "c < 65536" using that div_bounds(2) [of 4096 c 16] by simp
  have d: "c div 64 < 32" if "c < 2048" using that div_bounds(2) [of 64 c 32] by simp
  show ?thesis
  proof (cases "c < 2048")
    case True
    with d m show ?thesis by (simp add: utf8_encode_cp_def)
  next
    case False
    show ?thesis
    proof (cases "c < 65536")
      case True
      with False b m show ?thesis by (simp add: utf8_encode_cp_def)
    next
      case f: False
      with False a m show ?thesis by (simp add: utf8_encode_cp_def)
    qed
  qed
qed

lemma utf8_encode_bytes: "list_all scalar cs \<Longrightarrow> list_all (\<lambda>b. b < 256) (utf8_encode cs)"
  by (induction cs) (simp_all add: utf8_encode_def utf8_encode_cp_bytes)

lemma USVString_ascii: "list_all (\<lambda>c. c < 128) s \<Longrightarrow> USVString s = s"
  by (induction s rule: USVString.induct) simp_all

lemma utf8_encode_ascii: "list_all (\<lambda>c. c < 128) s \<Longrightarrow> utf8_encode s = s"
  by (induction s) (simp_all add: utf8_encode_def utf8_encode_cp_def)

text \<open>Parsing a serialized parameter list gives the list back.\<close>

lemma hex_digit_roundtrip: "d < 16 \<Longrightarrow> isHex (hex_digit d) \<and> hex_value (hex_digit d) = d"
  by (auto simp: hex_digit_def isHex_def hex_value_def isDigit_def)

lemma percent_decode_plain: "c \<noteq> 37 \<Longrightarrow> percent_decode (c # rest) = c # percent_decode rest"
proof (cases rest)
  case Nil
  then show ?thesis by simp
next
  case (Cons h t)
  assume "c \<noteq> 37"
  then show ?thesis using Cons by (cases t) simp_all
qed

lemma percent_decode_escape:
  "d1 < 16 \<Longrightarrow> d2 < 16 \<Longrightarrow>
     percent_decode (37 # hex_digit d1 # hex_digit d2 # rest) = (16 * d1 + d2) # percent_decode rest"
  by (simp add: hex_digit_roundtrip)

lemma safe_unit: "isWord c \<or> c = 42 \<or> c = 45 \<or> c = 46 \<Longrightarrow> c \<notin> {32, 37, 38, 43, 61} \<and> c < 128"
  by (auto simp: isWord_def isDigit_def)

lemma hex_digit_range: "d < 16 \<Longrightarrow> hex_digit d \<notin> {37, 38, 43, 61} \<and> hex_digit d < 128"
  by (auto simp: hex_digit_def)

lemma byte_split: "c < 256 \<Longrightarrow> 16 * (c div 16 mod 16) + c mod 16 = (c::nat)"
proof -
  assume "c < 256"
  then have "c div 16 < 16" by (simp add: less_mult_imp_div_less)
  then have "c div 16 mod 16 = c div 16" by simp
  then show ?thesis by simp
qed

lemma decode_byte:
  assumes "c < 256"
  shows "percent_decode (plus_to_space (urlencoded_byte c) @ rest) = c # percent_decode rest"
proof (cases "isWord c \<or> c = 42 \<or> c = 45 \<or> c = 46")
  case True
  from safe_unit [OF True] have n: "c \<noteq> 37" "c \<noteq> 43" by auto
  from True have "urlencoded_byte c = [c]" by (simp add: urlencoded_byte_def)
  with n show ?thesis by (simp add: plus_to_space_def percent_decode_plain)
next
  case False
  show ?thesis
  proof (cases "c = 32")
    case True
    with False have "urlencoded_byte c = [43]" by (simp add: urlencoded_byte_def)
    with True show ?thesis by (simp add: plus_to_space_def percent_decode_plain)
  next
    case c: False
    have d: "c div 16 mod 16 < 16" "c mod 16 < 16" by simp_all
    from False c have e: "urlencoded_byte c = [37, hex_digit (c div 16 mod 16), hex_digit (c mod 16)]"
      by (simp add: urlencoded_byte_def)
    have p: "plus_to_space [37, hex_digit (c div 16 mod 16), hex_digit (c mod 16)]
               = [37, hex_digit (c div 16 mod 16), hex_digit (c mod 16)]"
      using hex_digit_range [OF d(1)] hex_digit_range [OF d(2)] by (simp add: plus_to_space_def)
    show ?thesis
      unfolding e p using percent_decode_escape [OF d, of rest] byte_split [OF assms] by simp
  qed
qed

lemma plus_to_space_append: "plus_to_space (a @ b) = plus_to_space a @ plus_to_space b"
  by (simp add: plus_to_space_def)

lemma decode_bytes:
  "list_all (\<lambda>c. c < 256) bs \<Longrightarrow>
     percent_decode (plus_to_space (concat (map urlencoded_byte bs)) @ rest) = bs @ percent_decode rest"
proof (induction bs)
  case Nil
  then show ?case by (simp add: plus_to_space_def)
next
  case (Cons c bs)
  then have c: "c < 256" and s: "list_all (\<lambda>c. c < 256) bs" by simp_all
  have "percent_decode (plus_to_space (concat (map urlencoded_byte (c # bs))) @ rest)
          = percent_decode (plus_to_space (urlencoded_byte c)
              @ (plus_to_space (concat (map urlencoded_byte bs)) @ rest))"
    by (simp add: plus_to_space_append)
  also have "\<dots> = c # percent_decode (plus_to_space (concat (map urlencoded_byte bs)) @ rest)"
    using c by (rule decode_byte)
  finally show ?case using Cons.IH [OF s] by simp
qed

lemma decode_encoded:
  assumes "list_all scalar s"
  shows "utf8_decode (percent_decode (plus_to_space (urlencoded_string s))) = s"
proof -
  have "percent_decode (plus_to_space (urlencoded_string s)) = utf8_encode s"
    using decode_bytes [OF utf8_encode_bytes [OF assms], of "[]"] by (simp add: urlencoded_string_def)
  then show ?thesis using assms by (simp add: utf8_roundtrip)
qed

lemma encoded_byte_units:
  assumes "x \<in> set (urlencoded_byte c)"
  shows "x \<noteq> 38 \<and> x \<noteq> 61 \<and> x < 128"
proof (cases "isWord c \<or> c = 42 \<or> c = 45 \<or> c = 46")
  case True
  with assms have "x = c" by (simp add: urlencoded_byte_def)
  with safe_unit [OF True] show ?thesis by auto
next
  case False
  have d: "c div 16 mod 16 < 16" "c mod 16 < 16" by simp_all
  from False assms have "x = 43 \<or> x = 37 \<or> x = hex_digit (c div 16 mod 16) \<or> x = hex_digit (c mod 16)"
    by (auto simp: urlencoded_byte_def split: if_splits)
  with hex_digit_range [OF d(1)] hex_digit_range [OF d(2)] show ?thesis by auto
qed

lemma encoded_units: "x \<in> set (urlencoded_string s) \<Longrightarrow> x \<noteq> 38 \<and> x \<noteq> 61 \<and> x < 128"
  by (auto simp: urlencoded_string_def dest: encoded_byte_units)

lemma split_at_no_sep: "sep \<notin> set a \<Longrightarrow> split_at sep a = [a]"
  by (induction a) simp_all

lemma split_at_append_sep: "sep \<notin> set a \<Longrightarrow> split_at sep (a @ sep # b) = a # split_at sep b"
  by (induction a) simp_all

lemma pair_string_no_amp: "38 \<notin> set (pair_string p)"
  using encoded_units by (auto simp: pair_string_def)

lemma pair_string_nonempty: "pair_string p \<noteq> []"
  by (simp add: pair_string_def)

lemma pair_string_ascii: "list_all (\<lambda>c. c < 128) (pair_string p)"
  using encoded_units by (auto simp: pair_string_def list_all_iff)

lemma serialized_ascii: "list_all (\<lambda>c. c < 128) (urlencoded_serialize l)"
  by (induction l rule: urlencoded_serialize.induct) (auto simp: list_all_iff dest: encoded_units)

lemma split_serialized:
  "l \<noteq> [] \<Longrightarrow> split_at 38 (urlencoded_serialize l) = map pair_string l"
proof (induction l rule: urlencoded_serialize.induct)
  case 1
  then show ?case by simp
next
  case (2 n v)
  have "urlencoded_serialize [(n, v)] = pair_string (n, v)" by (simp add: pair_string_def)
  then show ?case using split_at_no_sep [OF pair_string_no_amp] by simp
next
  case (3 n v p ps)
  have e: "urlencoded_serialize ((n, v) # p # ps)
          = pair_string (n, v) @ 38 # urlencoded_serialize (p # ps)"
    by (simp add: pair_string_def)
  have "split_at 38 (urlencoded_serialize ((n, v) # p # ps))
          = pair_string (n, v) # split_at 38 (urlencoded_serialize (p # ps))"
    unfolding e by (rule split_at_append_sep [OF pair_string_no_amp])
  also have "split_at 38 (urlencoded_serialize (p # ps)) = map pair_string (p # ps)"
    using 3 by simp
  finally show ?case by simp
qed

lemma parse_pair_string:
  assumes "list_all scalar (fst p)" "list_all scalar (snd p)"
  shows "parse_pair (pair_string p) = p"
proof -
  have n: "\<forall>x\<in>set (urlencoded_string (fst p)). x \<noteq> 61" using encoded_units by blast
  have t: "takeWhile (\<lambda>c. c \<noteq> 61) (pair_string p) = urlencoded_string (fst p)"
    unfolding pair_string_def using n by (simp add: takeWhile_append2)
  show ?thesis
    unfolding parse_pair_def Let_def t
    using assms by (simp add: pair_string_def decode_encoded)
qed

lemma parse_serialized:
  assumes "scalar_pairs l"
  shows "urlencoded_parse (urlencoded_serialize l) = l"
proof (cases "l = []")
  case True
  then show ?thesis by (simp add: urlencoded_parse_def utf8_encode_def)
next
  case False
  have a: "utf8_encode (USVString (urlencoded_serialize l)) = urlencoded_serialize l"
    using serialized_ascii [of l] by (simp add: USVString_ascii utf8_encode_ascii)
  have "filter (\<lambda>s. s \<noteq> []) (map pair_string l) = map pair_string l"
    by (simp add: filter_id_conv pair_string_nonempty)
  moreover have "map parse_pair (map pair_string l) = l"
    using assms unfolding scalar_pairs_def by (induction l) (simp_all add: parse_pair_string)
  ultimately show ?thesis
    using False by (simp add: urlencoded_parse_def a split_serialized)
qed

lemma scalar_urlencoded_parse: "scalar_pairs (urlencoded_parse q)"
  by (simp add: scalar_pairs_def urlencoded_parse_def parse_pair_def Let_def list_all_iff
        scalar_utf8_decode [unfolded list_all_iff])

lemma searchParams_update_query:
  assumes "scalar_pairs l"
  shows "searchParams (update_query l u) = l"
  using assms by (simp add: searchParams_def update_query_def parse_serialized)

lemma searchParams_scalar: "scalar_pairs (searchParams u)"
  using scalar_urlencoded_parse by (auto simp: searchParams_def scalar_pairs_def split: option.splits)

lemma searchParams_delete_params:
  "searchParams (delete_params u) = filter (\<lambda>p. fst p \<notin> set paramsToRemove) (searchParams u)"
proof -
  have "scalar_pairs (filter (\<lambda>p. fst p \<notin> set paramsToRemove) (searchParams u))"
    using searchParams_scalar [of u] by (auto simp: scalar_pairs_def list_all_iff)
  then show ?thesis
    unfolding delete_params_def fold_params_delete by (rule searchParams_update_query)
qed

lemma normalizeUrl_parsed:
  "parse u = Inr urlObj \<Longrightarrow>
     normalizeUrl parse u
       = URL_toString (set_pathname (strip_slash (pathname (delete_params urlObj))) (delete_params urlObj))"
  by (simp add: normalizeUrl_def normalizeUrl_try_def Let_def)

lemma normalizeUrl_failed: "parse u = Inl e \<Longrightarrow> normalizeUrl parse u = u"
  by (simp add: normalizeUrl_def normalizeUrl_try_def)

text \<open>
  Claim C8, amended. \<open>normalizeUrl\<close> maps \<^verbatim>\<open>https://a.com/x/?utm_source=y&ref=z\<close> to
  \<^verbatim>\<open>https://a.com/x\<close>. For every parser and every string it parses, the result is the
  serialization of the parsed URL with two changes. The query is the serialization of
  the parameters of the URL without the pairs named \<open>utm_source\<close>, \<open>utm_medium\<close>,
  \<open>utm_campaign\<close>, \<open>ref\<close> or \<open>source\<close> (no query at all when nothing is left), and the
  parameters read from the result are exactly those. A path of segments (as every
  http(s) URL has) has lost its last slash unless it is exactly \<^verbatim>\<open>/\<close>; an opaque path
  (as in \<^verbatim>\<open>mailto:\<close> URLs) is left as it is, since the \<open>pathname\<close> setter ignores it.
\<close>

theorem normalizeUrl_tracking_and_trailing_slash:
  "normalizeUrl URL_new (js ''https://a.com/x/?utm_source=y&ref=z'') = js ''https://a.com/x''
   \<and> (parse u = Inr urlObj \<longrightarrow>
        (\<exists>v. normalizeUrl parse u = URL_toString v
           \<and> searchParams v = filter (\<lambda>p. fst p \<notin> set paramsToRemove) (searchParams urlObj)
           \<and> query v =
               (if filter (\<lambda>p. fst p \<notin> set paramsToRemove) (searchParams urlObj) = [] then None
                else Some (urlencoded_serialize
                       (filter (\<lambda>p. fst p \<notin> set paramsToRemove) (searchParams urlObj))))
           \<and> (case path urlObj of
                 Opaque s \<Rightarrow> path v = Opaque s
               | Segments segs \<Rightarrow>
                   pathname v =
                     (if pathname urlObj \<noteq> js ''/'' \<and> endsWith (pathname urlObj) (js ''/'')
                      then butlast (pathname urlObj) else pathname urlObj))
           \<and> scheme v = scheme urlObj \<and> username v = username urlObj
           \<and> password v = password urlObj \<and> host v = host urlObj \<and> port v = port urlObj
           \<and> fragment v = fragment urlObj))"
proof (intro conjI impI)
  show "normalizeUrl URL_new (js ''https://a.com/x/?utm_source=y&ref=z'') = js ''https://a.com/x''"
    by (simp add: url_eval)
next
  assume h: "parse u = Inr urlObj"
  let ?u1 = "delete_params urlObj"
  let ?v = "set_pathname (strip_slash (pathname ?u1)) ?u1"
  have p1: "path ?u1 = path urlObj" "pathname ?u1 = pathname urlObj"
    by (simp_all add: delete_params_def update_query_def pathname_def)
  have q1: "query ?v = query ?u1"
    by (simp add: set_pathname_def split: url_path.splits)
  have "normalizeUrl parse u = URL_toString ?v"
    using h by (simp add: normalizeUrl_parsed)
  moreover have "searchParams ?v = filter (\<lambda>p. fst p \<notin> set paramsToRemove) (searchParams urlObj)"
    using searchParams_delete_params [of urlObj] q1 by (simp add: searchParams_def)
  moreover have "query ?v =
               (if filter (\<lambda>p. fst p \<notin> set paramsToRemove) (searchParams urlObj) = [] then None
                else Some (urlencoded_serialize
                       (filter (\<lambda>p. fst p \<notin> set paramsToRemove) (searchParams urlObj))))"
    unfolding q1 by (simp add: delete_params_def update_query_def fold_params_delete)
  moreover have "case path urlObj of
                 Opaque s \<Rightarrow> path ?v = Opaque s
               | Segments segs \<Rightarrow>
                   pathname ?v =
                     (if pathname urlObj \<noteq> js ''/'' \<and> endsWith (pathname urlObj) (js ''/'')
                      then butlast (pathname urlObj) else pathname urlObj)"
  proof (cases "path urlObj")
    case (Opaque s)
    with p1 show ?thesis by (simp add: set_pathname_def)
  next
    case (Segments segs)
    with p1 have "path ?u1 = Segments segs" by simp
    from pathname_set_pathname [OF this] p1(2) Segments show ?thesis
      by (simp add: strip_slash_def slice_0_minus1_def)
  qed
  moreover have "scheme ?v = scheme urlObj \<and> username ?v = username urlObj
           \<and> password ?v = password urlObj \<and> host ?v = host urlObj \<and> port ?v = port urlObj
           \<and> fragment ?v = fragment urlObj"
    by (simp add: set_pathname_def delete_params_def update_query_def split: url_path.splits)
  ultimately show "\<exists>v. normalizeUrl parse u = URL_toString v
           \<and> searchParams v = filter (\<lambda>p. fst p \<notin> set paramsToRemove) (searchParams urlObj)
           \<and> query v =
               (if filter (\<lambda>p. fst p \<notin> set paramsToRemove) (searchParams urlObj) = [] then None
                else Some (urlencoded_serialize
                       (filter (\<lambda>p. fst p \<notin> set paramsToRemove) (searchParams urlObj))))
           \<and> (case path urlObj of
                 Opaque s \<Rightarrow> path v = Opaque s
               | Segments segs \<Rightarrow>
                   pathname v =
                     (if pathname urlObj \<noteq> js ''/'' \<and> endsWith (pathname urlObj) (js ''/'')
                      then butlast (pathname urlObj) else pathname urlObj))
           \<and> scheme v = scheme urlObj \<and> username v = username urlObj
           \<and> password v = password urlObj \<and> host v = host urlObj \<and> port v = port urlObj
           \<and> fragment v = fragment urlObj"
    by blast
qed

lemma tracked_url_parsed:
  "URL_new tracked_url =
     Inr \<lparr>scheme = js ''http'', username = [], password = [], host = Some (js ''b.org''),
          port = None, path = Segments [js ''p'', js ''q'', []],
          query = Some (js ''ref=1&id=7&utm_medium=mail''), fragment = Some (js ''top'')\<rparr>"
  by (simp add: url_eval tracked_url_def)

lemma mailto_url_parsed:
  "URL_new mailto_url =
     Inr \<lparr>scheme = js ''mailto'', username = [], password = [], host = None, port = None,
          path = Opaque (js ''a@b.com/''), query = None, fragment = None\<rparr>"
  by (simp add: url_eval mailto_url_def)

theorem normalizeUrl_tracking_and_trailing_slash_witness:
  "(\<exists>v. normalizeUrl URL_new tracked_url = URL_toString v
       \<and> query v = Some (js ''id=7'') \<and> pathname v = js ''/p/q''
       \<and> host v = Some (js ''b.org'') \<and> fragment v = Some (js ''top'')
       \<and> searchParams v = [(js ''id'', js ''7'')])
   \<and> (\<exists>v. normalizeUrl URL_new mailto_url = URL_toString v \<and> path v = Opaque (js ''a@b.com/''))"
proof -
  let ?obj = "\<lparr>scheme = js ''http'', username = [], password = [], host = Some (js ''b.org''),
          port = None, path = Segments [js ''p'', js ''q'', []],
          query = Some (js ''ref=1&id=7&utm_medium=mail''), fragment = Some (js ''top'')\<rparr>"
  let ?m = "\<lparr>scheme = js ''mailto'', username = [], password = [], host = None, port = None,
          path = Opaque (js ''a@b.com/''), query = None, fragment = None\<rparr>"
  have q: "filter (\<lambda>p. fst p \<notin> set paramsToRemove) (searchParams ?obj) = [(js ''id'', js ''7'')]"
    by (simp add: url_eval)
  have s: "urlencoded_serialize [(js ''id'', js ''7'')] = js ''id=7''"
    by (simp add: url_eval)
  have p: "pathname ?obj = js ''/p/q/''"
    by (simp add: url_eval)
  from normalizeUrl_tracking_and_trailing_slash [of URL_new tracked_url ?obj] tracked_url_parsed
  obtain v where v: "normalizeUrl URL_new tracked_url = URL_toString v"
      "searchParams v = filter (\<lambda>p. fst p \<notin> set paramsToRemove) (searchParams ?obj)"
      "query v =
               (if filter (\<lambda>p. fst p \<notin> set paramsToRemove) (searchParams ?obj) = [] then None
                else Some (urlencoded_serialize
                       (filter (\<lambda>p. fst p \<notin> set paramsToRemove) (searchParams ?obj))))"
      "case path ?obj of
                 Opaque s \<Rightarrow> path v = Opaque s
               | Segments segs \<Rightarrow>
                   pathname v =
                     (if pathname ?obj \<noteq> js ''/'' \<and> endsWith (pathname ?obj) (js ''/'')
                      then butlast (pathname ?obj) else pathname ?obj)"
      "host v = host ?obj" "fragment v = fragment ?obj"
    by blast
  have "query v = Some (js ''id=7'')" using v(3) unfolding q s by simp
  moreover have "pathname v = js ''/p/q''" using v(4) unfolding p by (simp add: js_def endsWith_def)
  moreover have "searchParams v = [(js ''id'', js ''7'')]" using v(2) unfolding q by simp
  ultimately have 1: "\<exists>v. normalizeUrl URL_new tracked_url = URL_toString v
       \<and> query v = Some (js ''id=7'') \<and> pathname v = js ''/p/q''
       \<and> host v = Some (js ''b.org'') \<and> fragment v = Some (js ''top'')
       \<and> searchParams v = [(js ''id'', js ''7'')]"
    using v(1,5,6) by auto
  from normalizeUrl_tracking_and_trailing_slash [of URL_new mailto_url ?m] mailto_url_parsed
  obtain v' where "normalizeUrl URL_new mailto_url = URL_toString v'"
      "case path ?m of Opaque s \<Rightarrow> path v' = Opaque s
               | Segments segs \<Rightarrow>
                   pathname v' =
                     (if pathname ?m \<noteq> js ''/'' \<and> endsWith (pathname ?m) (js ''/'')
                      then butlast (pathname ?m) else pathname ?m)"
    by blast
  then have 2: "\<exists>v. normalizeUrl URL_new mailto_url = URL_toString v \<and> path v = Opaque (js ''a@b.com/'')"
    by auto
  from 1 2 show ?thesis by blast
qed

text \<open>
  The trailing slash of an opaque path stays: \<^verbatim>\<open>mailto:a@b.com/\<close> has the path
  \<^verbatim>\<open>a@b.com/\<close>, which is not \<^verbatim>\<open>/\<close> and ends with a slash, and \<open>normalizeUrl\<close> returns the
  URL as it is.
\<close>

theorem normalizeUrl_keeps_opaque_trailing_slash:
  "URL_new mailto_url =
     Inr \<lparr>scheme = js ''mailto'', username = [], password = [], host = None, port = None,
          path = Opaque (js ''a@b.com/''), query = None, fragment = None\<rparr>
   \<and> pathname \<lparr>scheme = js ''mailto'', username = [], password = [], host = None, port = None,
          path = Opaque (js ''a@b.com/''), query = None, fragment = None\<rparr> = js ''a@b.com/''
   \<and> endsWith (js ''a@b.com/'') (js ''/'')
   \<and> normalizeUrl URL_new mailto_url = js ''mailto:a@b.com/''"
  by (simp add: url_eval mailto_url_def)

text \<open>
  Claim C10. Whatever the parser: \<open>normalizeUrl\<close> returns a string for every input, the
  input itself when parsing fails and a serialized URL otherwise. An article whose URL
  does not parse is therefore admitted or refused by its raw URL, every article of the
  input is either kept or counted as a duplicate, and of two such articles with different
  normalized titles the second one is dropped exactly when the raw URLs are equal.
\<close>

theorem normalizeUrl_never_raises:
  "(case parse u of Inl e \<Rightarrow> normalizeUrl parse u = u
                   | Inr urlObj \<Rightarrow> \<exists>v. normalizeUrl parse u = URL_toString v)
   \<and> (parse (url a) = Inl e \<longrightarrow>
        deduplicateArticles parse svc [a] =
          (if url a \<in> seenUrls svc then ([], (1, 0), svc)
           else if ntitle a \<in> seenTitles svc then ([], (0, 1), svc)
           else ([a], (0, 0), svc\<lparr>seenUrls := insert (url a) (seenUrls svc),
                                   seenTitles := insert (ntitle a) (seenTitles svc)\<rparr>)))
   \<and> (parse (url a) = Inl e \<and> parse (url b) = Inl e' \<and> ntitle a \<noteq> ntitle b \<longrightarrow>
        fst (deduplicateArticles parse new_DeduplicationService [a, b])
          = (if url a = url b then [a] else [a, b]))
   \<and> length (fst (deduplicateArticles parse svc xs))
       + fst (fst (snd (deduplicateArticles parse svc xs)))
       + snd (fst (snd (deduplicateArticles parse svc xs))) = length xs"
proof (intro conjI impI)
  show "case parse u of Inl e \<Rightarrow> normalizeUrl parse u = u
                   | Inr urlObj \<Rightarrow> \<exists>v. normalizeUrl parse u = URL_toString v"
    by (auto simp: normalizeUrl_failed normalizeUrl_parsed split: sum.splits)
next
  assume "parse (url a) = Inl e"
  then have "nurl parse a = url a" by (rule normalizeUrl_failed)
  then show "deduplicateArticles parse svc [a] =
          (if url a \<in> seenUrls svc then ([], (1, 0), svc)
           else if ntitle a \<in> seenTitles svc then ([], (0, 1), svc)
           else ([a], (0, 0), svc\<lparr>seenUrls := insert (url a) (seenUrls svc),
                                   seenTitles := insert (ntitle a) (seenTitles svc)\<rparr>))"
    by (simp add: deduplicate_single)
next
  assume h: "parse (url a) = Inl e \<and> parse (url b) = Inl e' \<and> ntitle a \<noteq> ntitle b"
  then have k: "nurl parse a = url a" "nurl parse b = url b"
    by (simp_all add: normalizeUrl_failed)
  show "fst (deduplicateArticles parse new_DeduplicationService [a, b])
          = (if url a = url b then [a] else [a, b])"
    using h k
    by (auto simp: deduplicateArticles_eq fresh_admits admits_def record_article_def
          new_DeduplicationService_def)
next
  show "length (fst (deduplicateArticles parse svc xs))
       + fst (fst (snd (deduplicateArticles parse svc xs)))
       + snd (fst (snd (deduplicateArticles parse svc xs))) = length xs"
    by (simp add: deduplicateArticles_eq counts_total)
qed

theorem normalizeUrl_never_raises_witness:
  "URL_new (url article_M) = Inl invalid_URL \<and> URL_new (url article_M') = Inl invalid_URL
   \<and> ntitle article_M \<noteq> ntitle article_M'
   \<and> normalizeUrl URL_new (url article_M) = js ''not a url''
   \<and> fst (deduplicateArticles URL_new new_DeduplicationService [article_M, article_M']) = [article_M]"
proof -
  have h: "URL_new (url article_M) = Inl invalid_URL \<and> URL_new (url article_M') = Inl invalid_URL
     \<and> ntitle article_M \<noteq> ntitle article_M'"
    by (simp add: M_keys(1-4) js_def)
  from normalizeUrl_never_raises
         [of URL_new "url article_M" article_M invalid_URL new_DeduplicationService article_M' invalid_URL "[]"] h
  show ?thesis by (simp add: M_keys(1-4)) (simp add: M_keys(5,6))
qed

section \<open>Properties of the scoring and the filter\<close>

lemma fold_cond_sum:
  "fold (\<lambda>x s. if P x then s + f x else s) xs (a::real)
     = a + (\<Sum>x\<leftarrow>xs. if P x then f x else 0)"
  by (induction xs arbitrary: a) simp_all

lemma fold_tags_sum:
  "fold (\<lambda>tag b. fold (\<lambda>item b'. if P tag item then b' + f item else b') ks b) ts (a::real)
     = a + (\<Sum>tag\<leftarrow>ts. \<Sum>item\<leftarrow>ks. if P tag item then f item else 0)"
  by (induction ts arbitrary: a) (simp_all add: fold_cond_sum)

lemma weights_nonneg: "list_all (\<lambda>item. 0 \<le> weight item) AI_KEYWORDS"
  by (simp add: AI_KEYWORDS_def)

lemma cond_sum_nonneg:
  "list_all (\<lambda>x. 0 \<le> f x) xs \<Longrightarrow> 0 \<le> (\<Sum>x\<leftarrow>xs. if P x then (f x :: real) else 0)"
  by (induction xs) simp_all

lemma keyword_sum_nonneg:
  "0 \<le> c \<Longrightarrow> 0 \<le> (\<Sum>item\<leftarrow>AI_KEYWORDS. if P item then weight item * (c::real) else 0)"
  using weights_nonneg by (intro cond_sum_nonneg) (simp add: list_all_iff)

lemma rawScore_nonneg: "0 \<le> rawScore article customKeywords"
proof -
  have "0 \<le> (\<Sum>item\<leftarrow>AI_KEYWORDS.
         if includes_js (article_text article) (toLowerCase (keyword item)) then weight item else 0)"
    using weights_nonneg by (intro cond_sum_nonneg) simp
  moreover have "0 \<le> (\<Sum>k\<leftarrow>customKeywords.
         if includes_js (article_text article) (toLowerCase k) then 5 / 10 else (0::real))"
    by (intro cond_sum_nonneg) (simp add: list_all_iff)
  ultimately show ?thesis by (simp add: rawScore_def)
qed

lemma titleBonus_nonneg: "0 \<le> titleBonus article"
  unfolding titleBonus_def by (rule keyword_sum_nonneg) simp

lemma tagBonus_nonneg: "0 \<le> tagBonus article"
  unfolding tagBonus_def by (intro sum_list_nonneg) (auto intro!: keyword_sum_nonneg)

lemma popularityBonus_nonneg: "0 \<le> popularityBonus article"
  by (simp add: popularityBonus_def split: option.splits)

lemma popularity_guard:
  "(case score article of
               None \<Rightarrow> 0
             | Some p \<Rightarrow>
                 if p = 0 then 0
                 else if p > 100 then 2 / 10
                 else if p > 50 then 1 / 10
                 else if p > 20 then 5 / 100
                 else (0::real)) = popularityBonus article"
  by (simp add: popularityBonus_def split: option.splits)

lemma score_components:
  "calculateRelevanceScore article customKeywords
     = min 1 ((rawScore article customKeywords + titleBonus article + tagBonus article
                + popularityBonus article) / 3)"
  unfolding calculateRelevanceScore_def Let_def popularity_guard
  by (simp add: fold_cond_sum fold_tags_sum rawScore_def titleBonus_def tagBonus_def)

lemma score_bounds:
  "0 \<le> calculateRelevanceScore article customKeywords"
  "calculateRelevanceScore article customKeywords \<le> 1"
proof -
  have "0 \<le> rawScore article customKeywords + titleBonus article + tagBonus article
                + popularityBonus article"
    using rawScore_nonneg [of article customKeywords] titleBonus_nonneg [of article]
      tagBonus_nonneg [of article] popularityBonus_nonneg [of article] by simp
  then show "0 \<le> calculateRelevanceScore article customKeywords"
    and "calculateRelevanceScore article customKeywords \<le> 1"
    unfolding score_components by simp_all
qed


lemma exclude_loop_iff:
  "exclude_loop text ks \<longleftrightarrow> (\<exists>k\<in>set ks. includes_js text (toLowerCase k))"
  by (induction ks) auto

lemma containsExcludeKeywords_iff:
  "containsExcludeKeywords article ks
     \<longleftrightarrow> (\<exists>k\<in>set ks. includes_js (article_text article) (toLowerCase k))"
  by (cases ks) (simp_all add: containsExcludeKeywords_def exclude_loop_iff del: exclude_loop.simps)

lemma article_text_relevanceScore [simp]:
  "article_text (article\<lparr>relevanceScore := r\<rparr>) = article_text article"
  by (simp add: article_text_def)

lemma insert_by_insort:
  "insert_by (\<lambda>a b. f b - f a) x ys = insort_key (\<lambda>a. - f a) x ys"
  by (induction ys) simp_all

lemma sort_by_sort_key: "sort_by (\<lambda>a b. f b - f a) xs = sort_key (\<lambda>a. - f a) xs"
proof -
  have "insert_by (\<lambda>a b. f b - f a) = insort_key (\<lambda>a. - f a)"
    by (intro ext) (rule insert_by_insort)
  then show ?thesis by (simp add: sort_by_def sort_key_def)
qed

lemma slice_0_take: "slice_0 e xs = take (nat (if e < 0 then max (int (length xs) + e) 0 else min e (int (length xs)))) xs"
  by (simp add: slice_0_def Let_def)

lemma slice_0_length: "0 \<le> e \<Longrightarrow> int (length (slice_0 e xs)) \<le> e"
  by (simp add: slice_0_def Let_def)

lemma sorted_desc_sort_by:
  "sorted_wrt (\<lambda>a b. f a \<ge> f b) (sort_by (\<lambda>a b. f b - f a) xs)"
proof -
  have "sorted (map (\<lambda>a. - f a) (sort_key (\<lambda>a. - f a) xs))" by (rule sorted_sort_key)
  then show ?thesis
    by (simp add: sort_by_sort_key sorted_wrt_map)
qed

lemma sorted_wrt_slice_0: "sorted_wrt R xs \<Longrightarrow> sorted_wrt R (slice_0 e xs)"
  unfolding slice_0_take by (rule sorted_wrt_take)

lemma stable_sort_by:
  "filter (\<lambda>a. f a = v) (sort_by (\<lambda>a b. f b - f a) xs) = filter (\<lambda>a. f a = (v::real)) xs"
  using sort_key_stable [of "\<lambda>a. - f a" "- v" xs] by (simp add: sort_by_sort_key)

lemma subseq_take: "subseq (take n xs) xs"
proof (induction xs arbitrary: n)
  case Nil
  then show ?case by simp
next
  case (Cons x xs)
  then show ?case by (cases n) simp_all
qed

lemma length_insert_by: "length (insert_by cmp x ys) = Suc (length ys)"
  by (induction ys) simp_all

lemma length_sort_by: "length (sort_by cmp xs) = length xs"
  by (induction xs) (simp_all add: sort_by_def length_insert_by)

lemma set_sort_by: "set (sort_by (\<lambda>a b. f b - f a) xs) = set xs"
  by (simp add: sort_by_sort_key)

lemma set_slice_0: "set (slice_0 e xs) \<subseteq> set xs"
  unfolding slice_0_take by (rule set_take_subset)

lemma filterArticles_eq:
  "filterArticles arts criteria
     = slice_0 (maxArticlesPerDay criteria)
         (sort_by (\<lambda>a b. relevanceScore b - relevanceScore a) (relevant arts criteria))"
  by (simp add: filterArticles_def relevant_def with_score_def Let_def cong: map_cong)

lemma filterArticles_subset: "set (filterArticles arts criteria) \<subseteq> set (relevant arts criteria)"
  unfolding filterArticles_eq using set_slice_0 set_sort_by by fast

lemma relevant_not_excluded:
  assumes "a \<in> set (relevant arts criteria)" "k \<in> set (excludeKeywords criteria)"
  shows "\<not> includes_js (article_text a) (toLowerCase k)" "\<not> includes_js (article_text a) k"
proof -
  from assms(1) have "\<not> containsExcludeKeywords a (excludeKeywords criteria)"
    by (simp add: relevant_def)
  with assms(2) show n: "\<not> includes_js (article_text a) (toLowerCase k)"
    by (auto simp: containsExcludeKeywords_iff)
  show "\<not> includes_js (article_text a) k"
  proof
    assume i: "includes_js (article_text a) k"
    then have "toLowerCase k = k"
      unfolding article_text_def by (rule includes_lower_fixed)
    with i n show False by simp
  qed
qed

lemma relevant_threshold:
  "a \<in> set (relevant arts criteria) \<Longrightarrow> minRelevanceScore criteria \<le> relevanceScore a"
  by (simp add: relevant_def)

lemma filterArticles_stable:
  "subseq (filter (\<lambda>a. relevanceScore a = v) (filterArticles arts criteria))
          (map (with_score criteria) arts)"
proof -
  let ?s = "sort_by (\<lambda>a b. relevanceScore b - relevanceScore a) (relevant arts criteria)"
  have "subseq (filterArticles arts criteria) ?s"
    unfolding filterArticles_eq slice_0_take by (rule subseq_take)
  then have "subseq (filter (\<lambda>a. relevanceScore a = v) (filterArticles arts criteria))
                    (filter (\<lambda>a. relevanceScore a = v) ?s)"
    by (rule subseq_filter)
  also have "filter (\<lambda>a. relevanceScore a = v) ?s
               = filter (\<lambda>a. relevanceScore a = v) (relevant arts criteria)"
    by (rule stable_sort_by)
  finally have "subseq (filter (\<lambda>a. relevanceScore a = v) (filterArticles arts criteria))
                       (relevant arts criteria)"
    using subseq_filter_left subseq_order.trans by blast
  moreover have "subseq (relevant arts criteria) (map (with_score criteria) arts)"
    unfolding relevant_def using subseq_filter_left subseq_order.trans by blast
  ultimately show ?thesis by (rule subseq_order.trans)
qed

lemma relevant_all_pass:
  "excludeKeywords criteria = [] \<Longrightarrow> minRelevanceScore criteria \<le> 0 \<Longrightarrow>
     relevant arts criteria = map (with_score criteria) arts"
  using score_bounds(1) order_trans
  by (fastforce simp: relevant_def containsExcludeKeywords_def with_score_def filter_id_conv)

lemma filterArticles_all_pass:
  assumes "excludeKeywords criteria = []" "minRelevanceScore criteria \<le> 0"
    "int (length arts) \<le> maxArticlesPerDay criteria"
  shows "length (filterArticles arts criteria) = length arts"
  unfolding filterArticles_eq relevant_all_pass [OF assms(1,2)]
  using assms(3) by (simp add: slice_0_def length_sort_by)

subsection \<open>The filter on the concrete articles\<close>

lemma cond_sum_filter: "(\<Sum>x\<leftarrow>xs. if P x then f x else (0::real)) = (\<Sum>x\<leftarrow>filter P xs. f x)"
  by (induction xs) simp_all

lemma texts:
  "article_text article_torch = js ''pytorch notes embedding layers ''"
  "article_text article_gpt = js ''chatgpt tips  ai''"
  "article_text article_cook = js ''cooking pasta  ''"
  "article_text article_ad = js ''llm course sponsored post ''"
  by (simp_all add: article_text_def article_torch_def article_gpt_def article_cook_def
        article_ad_def mk_article_def toLowerCase_def toLowerCase_unit_def js_def)

lemma titles:
  "toLowerCase (title article_torch) = js ''pytorch notes''"
  "toLowerCase (title article_gpt) = js ''chatgpt tips''"
  "toLowerCase (title article_cook) = js ''cooking pasta''"
  "toLowerCase (title article_ad) = js ''llm course''"
  by (simp_all add: article_torch_def article_gpt_def article_cook_def
        article_ad_def mk_article_def toLowerCase_def toLowerCase_unit_def js_def)

lemma tags_scores:
  "tags article_torch = []" "tags article_gpt = [js ''ai'']" "tags article_cook = []" "tags article_ad = []"
  "score article_torch = None" "score article_gpt = Some 120" "score article_cook = None"
  "score article_ad = None"
  by (simp_all add: article_torch_def article_gpt_def article_cook_def article_ad_def mk_article_def)

lemma lowered: "toLowerCase (js ''Tips'') = js ''tips''" "toLowerCase (js ''ai'') = js ''ai''"
  "toLowerCase (js ''sponsored'') = js ''sponsored''"
  by (simp_all add: toLowerCase_def toLowerCase_unit_def js_def)

lemmas match_eval = AI_KEYWORDS_def toLowerCase_def toLowerCase_unit_def js_def

lemma matches:
  "filter (\<lambda>item. includes_js (js ''pytorch notes embedding layers '') (toLowerCase (keyword item))) AI_KEYWORDS
     = [\<lparr>keyword = js ''pytorch'', weight = 5 / 10\<rparr>, \<lparr>keyword = js ''embedding'', weight = 5 / 10\<rparr>]"
  "filter (\<lambda>item. includes_js (js ''pytorch notes'') (toLowerCase (keyword item))) AI_KEYWORDS
     = [\<lparr>keyword = js ''pytorch'', weight = 5 / 10\<rparr>]"
  "filter (\<lambda>item. includes_js (js ''chatgpt tips  ai'') (toLowerCase (keyword item))) AI_KEYWORDS
     = [\<lparr>keyword = js ''chatgpt'', weight = 1\<rparr>, \<lparr>keyword = js ''gpt'', weight = 1\<rparr>,
        \<lparr>keyword = js ''ai'', weight = 8 / 10\<rparr>]"
  "filter (\<lambda>item. includes_js (js ''chatgpt tips'') (toLowerCase (keyword item))) AI_KEYWORDS
     = [\<lparr>keyword = js ''chatgpt'', weight = 1\<rparr>, \<lparr>keyword = js ''gpt'', weight = 1\<rparr>]"
  "filter (\<lambda>item. includes_js (js ''ai'') (toLowerCase (keyword item))) AI_KEYWORDS
     = [\<lparr>keyword = js ''ai'', weight = 8 / 10\<rparr>]"
  "filter (\<lambda>item. includes_js (js ''cooking pasta  '') (toLowerCase (keyword item))) AI_KEYWORDS = []"
  "filter (\<lambda>item. includes_js (js ''cooking pasta'') (toLowerCase (keyword item))) AI_KEYWORDS = []"
  "filter (\<lambda>item. includes_js (js ''llm course sponsored post '') (toLowerCase (keyword item))) AI_KEYWORDS
     = [\<lparr>keyword = js ''llm'', weight = 1\<rparr>]"
  "filter (\<lambda>item. includes_js (js ''llm course'') (toLowerCase (keyword item))) AI_KEYWORDS
     = [\<lparr>keyword = js ''llm'', weight = 1\<rparr>]"
  by (simp_all add: match_eval)

lemma scores:
  "calculateRelevanceScore article_gpt (keywords' one_per_day) = 1"
  "calculateRelevanceScore article_torch (keywords' one_per_day) = 23 / 60"
  "calculateRelevanceScore article_cook (keywords' one_per_day) = 0"
  "calculateRelevanceScore article_ad (keywords' one_per_day) = 13 / 30"
  unfolding score_components rawScore_def titleBonus_def tagBonus_def popularityBonus_def
    cond_sum_filter texts titles tags_scores
  by (simp_all add: one_per_day_def lowered matches) (simp_all add: js_def)

lemma excluded:
  "\<not> containsExcludeKeywords (article_gpt\<lparr>relevanceScore := r\<rparr>) (excludeKeywords one_per_day)"
  "\<not> containsExcludeKeywords (article_torch\<lparr>relevanceScore := r\<rparr>) (excludeKeywords one_per_day)"
  "\<not> containsExcludeKeywords (article_cook\<lparr>relevanceScore := r\<rparr>) (excludeKeywords one_per_day)"
  "containsExcludeKeywords (article_ad\<lparr>relevanceScore := r\<rparr>) (excludeKeywords one_per_day)"
  by (simp_all add: containsExcludeKeywords_iff one_per_day_def lowered texts) (simp_all add: js_def)

lemma filtered:
  "filterArticles [article_cook, article_torch, article_ad, article_gpt] one_per_day
     = [article_gpt\<lparr>relevanceScore := 1\<rparr>]"
  unfolding filterArticles_def Let_def
  by (simp add: scores excluded) (simp add: one_per_day_def sort_by_def slice_0_def)

subsection \<open>The contract of the filter\<close>

text \<open>
  Claim C4. For every list of articles and criteria: no article of the result has a text
  (lower-case title, excerpt and tags) that contains an exclude keyword, lowered as the
  code compares it or as it is given; every article of the result has a score of at least
  \<open>minRelevanceScore\<close>; the result is sorted by descending score, and the articles of one
  score stand in their input order; and the result has at most \<open>maxArticlesPerDay\<close>
  articles. The cap of a configuration is at least 1 (\<open>ConfigLoader.validateConfig\<close>
  refuses a smaller one); the bound is shown for every cap from 0 on.
\<close>

theorem filterArticles_contract:
  "(\<forall>a\<in>set (filterArticles arts criteria). \<forall>k\<in>set (excludeKeywords criteria).
       \<not> includes_js (article_text a) (toLowerCase k) \<and> \<not> includes_js (article_text a) k)
   \<and> (\<forall>a\<in>set (filterArticles arts criteria). minRelevanceScore criteria \<le> relevanceScore a)
   \<and> (0 \<le> maxArticlesPerDay criteria \<longrightarrow>
        int (length (filterArticles arts criteria)) \<le> maxArticlesPerDay criteria)
   \<and> sorted_wrt (\<lambda>a b. relevanceScore a \<ge> relevanceScore b) (filterArticles arts criteria)
   \<and> (\<forall>v. subseq (filter (\<lambda>a. relevanceScore a = v) (filterArticles arts criteria))
          (map (\<lambda>a. a\<lparr>relevanceScore := calculateRelevanceScore a (keywords' criteria)\<rparr>) arts))"
proof (intro conjI ballI allI impI)
  fix a k
  assume "a \<in> set (filterArticles arts criteria)" "k \<in> set (excludeKeywords criteria)"
  then have "a \<in> set (relevant arts criteria)" "k \<in> set (excludeKeywords criteria)"
    using filterArticles_subset by auto
  then show "\<not> includes_js (article_text a) (toLowerCase k)" "\<not> includes_js (article_text a) k"
    by (rule relevant_not_excluded)+
next
  fix a
  assume "a \<in> set (filterArticles arts criteria)"
  then have "a \<in> set (relevant arts criteria)" using filterArticles_subset by auto
  then show "minRelevanceScore criteria \<le> relevanceScore a" by (rule relevant_threshold)
next
  assume "0 \<le> maxArticlesPerDay criteria"
  then show "int (length (filterArticles arts criteria)) \<le> maxArticlesPerDay criteria"
    unfolding filterArticles_eq by (rule slice_0_length)
next
  show "sorted_wrt (\<lambda>a b. relevanceScore a \<ge> relevanceScore b) (filterArticles arts criteria)"
    unfolding filterArticles_eq by (intro sorted_wrt_slice_0 sorted_desc_sort_by)
next
  fix v
  show "subseq (filter (\<lambda>a. relevanceScore a = v) (filterArticles arts criteria))
          (map (\<lambda>a. a\<lparr>relevanceScore := calculateRelevanceScore a (keywords' criteria)\<rparr>) arts)"
    using filterArticles_stable [of v arts criteria] by (simp add: with_score_def [abs_def])
qed

theorem filterArticles_contract_witness:
  "0 \<le> maxArticlesPerDay one_per_day
   \<and> filterArticles [article_cook, article_torch, article_ad, article_gpt] one_per_day
       = [article_gpt\<lparr>relevanceScore := 1\<rparr>]
   \<and> int (length (filterArticles [article_cook, article_torch, article_ad, article_gpt] one_per_day))
       \<le> maxArticlesPerDay one_per_day
   \<and> minRelevanceScore one_per_day \<le> relevanceScore (article_gpt\<lparr>relevanceScore := 1\<rparr>)
   \<and> \<not> includes_js (article_text (article_gpt\<lparr>relevanceScore := 1\<rparr>)) (js ''sponsored'')"
proof -
  have c: "0 \<le> maxArticlesPerDay one_per_day" "js ''sponsored'' \<in> set (excludeKeywords one_per_day)"
    by (simp_all add: one_per_day_def)
  have m: "article_gpt\<lparr>relevanceScore := 1\<rparr>
             \<in> set (filterArticles [article_cook, article_torch, article_ad, article_gpt] one_per_day)"
    by (simp add: filtered)
  from filterArticles_contract [of "[article_cook, article_torch, article_ad, article_gpt]" one_per_day]
    c m filtered
  show ?thesis by blast
qed

text \<open>
  Below 0, which no validated configuration reaches, \<open>slice\<close> counts the cap from the
  end of the array.
\<close>

lemma relevant_all:
  "relevant arts negative_cap = map (with_score negative_cap) arts"
  by (rule relevant_all_pass) (simp_all add: negative_cap_def)

lemma filterArticles_negative_cap:
  "length (filterArticles [article_cook, article_torch, article_gpt] negative_cap) = 2
   \<and> maxArticlesPerDay negative_cap = - 1
   \<and> \<not> int (length (filterArticles [article_cook, article_torch, article_gpt] negative_cap))
         \<le> maxArticlesPerDay negative_cap"
proof -
  have "length (filterArticles [article_cook, article_torch, article_gpt] negative_cap) = 2"
    unfolding filterArticles_eq relevant_all
    by (simp add: slice_0_def length_sort_by) (simp add: negative_cap_def)
  then show ?thesis by (simp add: negative_cap_def)
qed

section \<open>Properties of the orchestrator\<close>

subsection \<open>Shape of a run\<close>

lemma length_settle_all: "length (fst (settle_all cs w)) = length cs"
  by (induction cs arbitrary: w) (simp_all add: case_prod_beta)

lemma length_collectFromAllSources:
  "length (fst (collectFromAllSources svc w)) = length (getEnabledSources svc)"
  by (simp add: collectFromAllSources_def getEnabledSources_def length_settle_all)

lemma merge_loop_articles:
  "fst (merge_loop ps now) = concat (map (\<lambda>p. projr (snd p)) (filter (\<lambda>p. \<not> isl (snd p)) ps))"
  by (induction ps now rule: merge_loop.induct) (simp_all add: case_prod_beta)

lemma merge_loop_sources:
  "map error_source (snd (merge_loop ps now)) = map fst (filter (\<lambda>p. isl (snd p)) ps)"
  by (induction ps now rule: merge_loop.induct) (simp_all add: case_prod_beta)

lemma merge_loop_messages:
  "map error_message (snd (merge_loop ps now))
     = map (\<lambda>p. message (projl (snd p))) (filter (\<lambda>p. isl (snd p)) ps)"
  by (induction ps now rule: merge_loop.induct) (simp_all add: case_prod_beta)

lemma filterArticles_Nil: "filterArticles [] criteria = []"
  by (simp add: filterArticles_def sort_by_def slice_0_def)

lemma collectAllArticles_try_eq:
  "collectAllArticles_try parse svc now w =
     (let results = fst (collectFromAllSources svc w);
          w' = snd (collectFromAllSources svc w);
          as = fst (mergeCollectionResults svc results now);
          es = snd (mergeCollectionResults svc results now);
          svc' = svc\<lparr>deduplicationService := seen_after parse (deduplicationService svc) as\<rparr>;
          result1 = \<lparr>articles = [], errors = es, timestamp = now\<rparr>
      in if as = [] then (Inr result1, result1, svc, w')
         else
           (case filtering (config svc) of
              None \<Rightarrow> (Inl missing_filtering, result1, svc', w')
            | Some f \<Rightarrow>
                (Inr (result1\<lparr>articles :=
                        filterArticles (kept parse (deduplicationService svc) as)
                          (criteria_of (config svc) f)\<rparr>),
                 result1\<lparr>articles :=
                        filterArticles (kept parse (deduplicationService svc) as)
                          (criteria_of (config svc) f)\<rparr>, svc', w')))"
  by (simp add: collectAllArticles_try_def collectAllArticles_try_with_def service_methods_def
        Let_def deduplicateArticles_eq service_filterArticles_def criteria_of_def case_prod_beta
        split: option.splits)

lemma collectAllArticles_eq:
  "collectAllArticles parse svc now w =
     (let results = fst (collectFromAllSources svc w);
          w' = snd (collectFromAllSources svc w);
          as = fst (mergeCollectionResults svc results now);
          es = snd (mergeCollectionResults svc results now)
      in (Inr \<lparr>articles =
                 (case filtering (config svc) of
                    None \<Rightarrow> []
                  | Some f \<Rightarrow> filterArticles (kept parse (deduplicationService svc) as)
                               (criteria_of (config svc) f)),
               errors = es @ (if as \<noteq> [] \<and> filtering (config svc) = None
                              then [service_error missing_filtering now] else []),
               timestamp = now\<rparr>,
          svc\<lparr>deduplicationService := seen_after parse (deduplicationService svc) as\<rparr>,
          w'))"
  unfolding collectAllArticles_def collectAllArticles_with_def collectAllArticles_try_def [symmetric]
    collectAllArticles_try_eq
  by (simp add: Let_def filterArticles_Nil service_error_def split: option.splits)

lemma filterArticles_origin:
  assumes "a \<in> set (filterArticles arts criteria)"
  shows "\<exists>x\<in>set arts. url a = url x \<and> title a = title x"
proof -
  from assms have "a \<in> set (relevant arts criteria)" using filterArticles_subset by auto
  then have "a \<in> set (map (with_score criteria) arts)" by (simp add: relevant_def)
  then show ?thesis by (auto simp: with_score_def)
qed

lemma run_service:
  assumes "collectAllArticles parse svc now w = (Inr r, svc', w')"
  shows "deduplicationService svc'
           = seen_after parse (deduplicationService svc)
               (fst (mergeCollectionResults svc (fst (collectFromAllSources svc w)) now))"
  using assms by (auto simp: collectAllArticles_eq Let_def)

lemma run_articles:
  assumes "collectAllArticles parse svc now w = (Inr r, svc', w')" "a \<in> set (articles r)"
  shows "\<exists>x\<in>set (kept parse (deduplicationService svc)
                    (fst (mergeCollectionResults svc (fst (collectFromAllSources svc w)) now))).
           url a = url x \<and> title a = title x"
proof (cases "filtering (config svc)")
  case None
  with assms show ?thesis by (auto simp: collectAllArticles_eq Let_def)
next
  case (Some f)
  with assms have "a \<in> set (filterArticles (kept parse (deduplicationService svc)
                    (fst (mergeCollectionResults svc (fst (collectFromAllSources svc w)) now)))
                    (criteria_of (config svc) f))"
    by (auto simp: collectAllArticles_eq Let_def)
  then show ?thesis by (rule filterArticles_origin)
qed

lemma collectAllArticles_with_eq:
  "fst (collectAllArticles_with methods svc now w) =
     Inr (case mergeCollectionResults_method methods svc (fst (collectFromAllSources svc w)) now of
            Inl e \<Rightarrow> \<lparr>articles = [], errors = [service_error e now], timestamp = now\<rparr>
          | Inr (as, es) \<Rightarrow>
              if as = [] then \<lparr>articles = [], errors = es, timestamp = now\<rparr>
              else
                (case deduplicateArticles_method methods (deduplicationService svc) as of
                   (Inl e, dedup') \<Rightarrow>
                     \<lparr>articles = [], errors = es @ [service_error e now], timestamp = now\<rparr>
                 | (Inr uniqueArticles, dedup') \<Rightarrow>
                     (case filterArticles_method methods (svc\<lparr>deduplicationService := dedup'\<rparr>)
                             uniqueArticles of
                        Inl e \<Rightarrow>
                          \<lparr>articles = [], errors = es @ [service_error e now], timestamp = now\<rparr>
                      | Inr filteredArticles \<Rightarrow>
                          \<lparr>articles = filteredArticles, errors = es, timestamp = now\<rparr>)))"
  by (simp add: collectAllArticles_with_def collectAllArticles_try_with_def Let_def
        service_error_def split: sum.splits prod.splits)

text \<open>
  Claim C1, amended. \<open>collectAllArticles\<close> never rejects, whatever its methods do. An
  exception of the merge is caught before \<open>result.errors\<close> has been assigned: the result
  holds no article and the one error of the source \<open>ArticleCollectorService\<close>. An exception
  of the deduplication or of \<open>filterArticles\<close> (scoring and filtering) is caught behind
  the assignment: the result holds no article and the adapters' errors followed by that
  error. Without an exception the result holds the filtered articles and the adapters'
  errors. Adapter failures are rejections settled by \<open>Promise.allSettled\<close>: with the methods
  of the repository each gives one error entry with the name of its source, the articles
  of the adapters that succeeded are merged, and with a configuration that has its
  \<open>filtering\<close> object they go through deduplication and filtering whatever the other
  adapters did; without that object \<open>filterArticles\<close> throws and the run still returns.
\<close>

theorem collectAllArticles_never_rejects:
  "fst (collectAllArticles_with methods svc now w) =
     Inr (case mergeCollectionResults_method methods svc (fst (collectFromAllSources svc w)) now of
            Inl e \<Rightarrow> \<lparr>articles = [], errors = [service_error e now], timestamp = now\<rparr>
          | Inr (as, es) \<Rightarrow>
              if as = [] then \<lparr>articles = [], errors = es, timestamp = now\<rparr>
              else
                (case deduplicateArticles_method methods (deduplicationService svc) as of
                   (Inl e, dedup') \<Rightarrow>
                     \<lparr>articles = [], errors = es @ [service_error e now], timestamp = now\<rparr>
                 | (Inr uniqueArticles, dedup') \<Rightarrow>
                     (case filterArticles_method methods (svc\<lparr>deduplicationService := dedup'\<rparr>)
                             uniqueArticles of
                        Inl e \<Rightarrow>
                          \<lparr>articles = [], errors = es @ [service_error e now], timestamp = now\<rparr>
                      | Inr filteredArticles \<Rightarrow>
                          \<lparr>articles = filteredArticles, errors = es, timestamp = now\<rparr>)))
   \<and> (\<forall>f. filtering (config svc) = Some f \<longrightarrow>
          fst (collectAllArticles parse svc now w) =
            Inr \<lparr>articles =
                   filterArticles
                     (fst (deduplicateArticles parse (deduplicationService svc)
                        (fst (mergeCollectionResults svc (fst (collectFromAllSources svc w)) now))))
                     \<lparr>keywords' = config_keywords (config svc),
                      excludeKeywords = filtering_excludeKeywords f,
                      minRelevanceScore = filtering_minRelevanceScore f,
                      maxArticlesPerDay = filtering_maxArticlesPerDay f\<rparr>,
                 errors = snd (mergeCollectionResults svc (fst (collectFromAllSources svc w)) now),
                 timestamp = now\<rparr>)
   \<and> (filtering (config svc) = None
        \<and> fst (mergeCollectionResults svc (fst (collectFromAllSources svc w)) now) \<noteq> [] \<longrightarrow>
          fst (collectAllArticles_try parse svc now w) = Inl missing_filtering
          \<and> fst (collectAllArticles parse svc now w) =
              Inr \<lparr>articles = [],
                   errors = snd (mergeCollectionResults svc (fst (collectFromAllSources svc w)) now)
                              @ [service_error missing_filtering now],
                   timestamp = now\<rparr>)
   \<and> length (fst (collectFromAllSources svc w)) = length (getEnabledSources svc)
   \<and> map error_source (snd (mergeCollectionResults svc (fst (collectFromAllSources svc w)) now))
       = map fst (filter (\<lambda>p. isl (snd p))
                    (zip (getEnabledSources svc) (fst (collectFromAllSources svc w))))
   \<and> fst (mergeCollectionResults svc (fst (collectFromAllSources svc w)) now)
       = concat (map (\<lambda>p. projr (snd p))
                   (filter (\<lambda>p. \<not> isl (snd p))
                      (zip (getEnabledSources svc) (fst (collectFromAllSources svc w)))))"
proof (intro conjI allI impI)
  show "fst (collectAllArticles_with methods svc now w) =
     Inr (case mergeCollectionResults_method methods svc (fst (collectFromAllSources svc w)) now of
            Inl e \<Rightarrow> \<lparr>articles = [], errors = [service_error e now], timestamp = now\<rparr>
          | Inr (as, es) \<Rightarrow>
              if as = [] then \<lparr>articles = [], errors = es, timestamp = now\<rparr>
              else
                (case deduplicateArticles_method methods (deduplicationService svc) as of
                   (Inl e, dedup') \<Rightarrow>
                     \<lparr>articles = [], errors = es @ [service_error e now], timestamp = now\<rparr>
                 | (Inr uniqueArticles, dedup') \<Rightarrow>
                     (case filterArticles_method methods (svc\<lparr>deduplicationService := dedup'\<rparr>)
                             uniqueArticles of
                        Inl e \<Rightarrow>
                          \<lparr>articles = [], errors = es @ [service_error e now], timestamp = now\<rparr>
                      | Inr filteredArticles \<Rightarrow>
                          \<lparr>articles = filteredArticles, errors = es, timestamp = now\<rparr>)))"
    by (rule collectAllArticles_with_eq)
next
  fix f
  assume "filtering (config svc) = Some f"
  then show "fst (collectAllArticles parse svc now w) =
            Inr \<lparr>articles =
                   filterArticles
                     (fst (deduplicateArticles parse (deduplicationService svc)
                        (fst (mergeCollectionResults svc (fst (collectFromAllSources svc w)) now))))
                     \<lparr>keywords' = config_keywords (config svc),
                      excludeKeywords = filtering_excludeKeywords f,
                      minRelevanceScore = filtering_minRelevanceScore f,
                      maxArticlesPerDay = filtering_maxArticlesPerDay f\<rparr>,
                 errors = snd (mergeCollectionResults svc (fst (collectFromAllSources svc w)) now),
                 timestamp = now\<rparr>"
    by (simp add: collectAllArticles_eq Let_def deduplicateArticles_eq criteria_of_def)
next
  assume a: "filtering (config svc) = None
        \<and> fst (mergeCollectionResults svc (fst (collectFromAllSources svc w)) now) \<noteq> []"
  then show "fst (collectAllArticles_try parse svc now w) = Inl missing_filtering"
    by (simp add: collectAllArticles_try_eq Let_def)
  from a show "fst (collectAllArticles parse svc now w) =
              Inr \<lparr>articles = [],
                   errors = snd (mergeCollectionResults svc (fst (collectFromAllSources svc w)) now)
                              @ [service_error missing_filtering now],
                   timestamp = now\<rparr>"
    by (simp add: collectAllArticles_eq Let_def)
next
  show "length (fst (collectFromAllSources svc w)) = length (getEnabledSources svc)"
    by (rule length_collectFromAllSources)
  show "map error_source (snd (mergeCollectionResults svc (fst (collectFromAllSources svc w)) now))
       = map fst (filter (\<lambda>p. isl (snd p))
                    (zip (getEnabledSources svc) (fst (collectFromAllSources svc w))))"
    by (simp add: mergeCollectionResults_def merge_loop_sources)
  show "fst (mergeCollectionResults svc (fst (collectFromAllSources svc w)) now)
       = concat (map (\<lambda>p. projr (snd p))
                   (filter (\<lambda>p. \<not> isl (snd p))
                      (zip (getEnabledSources svc) (fst (collectFromAllSources svc w)))))"
    by (simp add: mergeCollectionResults_def merge_loop_articles)
qed

subsection \<open>The runs of the test service\<close>

lemmas service_eval = good_service_def malformed_service_def new_ArticleCollectorService_def
  initializeCollectors_def test_adapters_def good_config_def malformed_config_def two_sources_def

lemma test_settled:
  "collectFromAllSources good_service w
     = ([Inr [article_A, article_M], Inl (RetryError 3 (Error (js ''503'')))], w + 4)"
  "collectFromAllSources malformed_service w
     = ([Inr [article_A, article_M], Inl (RetryError 3 (Error (js ''503'')))], w + 4)"
  by (simp_all add: collectFromAllSources_def service_eval withRetry_def withRetry_loop.simps
        finalConfig_def collector_retry_def)

lemma test_sources:
  "getEnabledSources good_service = [js ''Qiita'', js ''Zenn'']"
  "getEnabledSources malformed_service = [js ''Qiita'', js ''Zenn'']"
  by (simp_all add: getEnabledSources_def service_eval)

lemma test_merged:
  "mergeCollectionResults good_service
       [Inr [article_A, article_M], Inl (RetryError 3 (Error (js ''503'')))] 0
     = ([article_A, article_M], [zenn_error])"
  "mergeCollectionResults malformed_service
       [Inr [article_A, article_M], Inl (RetryError 3 (Error (js ''503'')))] 0
     = ([article_A, article_M], [zenn_error])"
  by (simp_all add: mergeCollectionResults_def test_sources zenn_error_def Number_toString_def js_def)

lemma test_kept:
  "kept URL_new new_DeduplicationService [article_A, article_M] = [article_A, article_M]"
  "seen_after URL_new new_DeduplicationService [article_A, article_M]
     = \<lparr>seenUrls = {js ''not a url'', js ''https://a.com/x''},
        seenTitles = {js ''first'', js ''chatgpt tips''}\<rparr>"
  by (simp_all add: admits_def record_article_def new_DeduplicationService_def A_keys
        M_nurl M_keys(3)) (simp_all add: js_def)

lemma test_dedup_state:
  "deduplicationService good_service = new_DeduplicationService"
  "deduplicationService malformed_service = new_DeduplicationService"
  "filtering (config malformed_service) = None"
  "filtering (config good_service) = Some \<lparr>filtering_excludeKeywords = [], filtering_minRelevanceScore = 0,
                        filtering_maxArticlesPerDay = 10\<rparr>"
  "config_keywords (config good_service) = []"
  by (simp_all add: service_eval)

lemma good_criteria:
  "criteria_of (config good_service) \<lparr>filtering_excludeKeywords = [], filtering_minRelevanceScore = 0,
                        filtering_maxArticlesPerDay = 10\<rparr>
     = \<lparr>keywords' = [], excludeKeywords = [], minRelevanceScore = 0, maxArticlesPerDay = 10\<rparr>"
  by (simp add: criteria_of_def test_dedup_state)

lemma good_run:
  "\<exists>r. collectAllArticles URL_new good_service 0 0
         = (Inr r,
            good_service\<lparr>deduplicationService :=
              \<lparr>seenUrls = {js ''not a url'', js ''https://a.com/x''},
               seenTitles = {js ''first'', js ''chatgpt tips''}\<rparr>\<rparr>, 4)
       \<and> errors r = [zenn_error] \<and> length (articles r) = 2"
  by (simp add: collectAllArticles_eq Let_def test_settled test_merged test_dedup_state
        test_kept good_criteria filterArticles_all_pass del: kept.simps seen_after.simps)

text \<open>
  The run of the claim's example: the configuration has lost its \<open>filtering\<close> object, the
  \<^verbatim>\<open>try\<close> block throws the \<open>TypeError\<close>, and \<open>collectAllArticles\<close> returns a result.
\<close>

theorem collectAllArticles_catches_TypeError:
  "fst (collectAllArticles_try URL_new malformed_service 0 0) = Inl missing_filtering
   \<and> fst (collectAllArticles URL_new malformed_service 0 0)
       = Inr \<lparr>articles = [],
              errors = [zenn_error,
                        \<lparr>error_source = js ''ArticleCollectorService'',
                         error_message = js ''Cannot read properties of undefined (reading 'excludeKeywords')'',
                         error_timestamp = 0\<rparr>],
              timestamp = 0\<rparr>
   \<and> \<not> isl (fst (collectAllArticles URL_new malformed_service 0 0))"
  by (simp add: collectAllArticles_eq collectAllArticles_try_eq Let_def test_settled test_merged
        test_dedup_state service_error_def missing_filtering_def)

lemma failing_runs:
  "collectFromAllSources good_service w
     = ([Inr [article_A, article_M], Inl (RetryError 3 (Error (js ''503'')))], w + 4)
   \<and> mergeCollectionResults_method failing_merge good_service
       [Inr [article_A, article_M], Inl (RetryError 3 (Error (js ''503'')))] 0
       = Inl (ErrorObj (Error (js ''result.value is not iterable'')))
   \<and> mergeCollectionResults_method failing_deduplication good_service
       [Inr [article_A, article_M], Inl (RetryError 3 (Error (js ''503'')))] 0
       = Inr ([article_A, article_M], [zenn_error])
   \<and> deduplicateArticles_method failing_deduplication new_DeduplicationService [article_A, article_M]
       = (Inl (ErrorObj (Error (js ''Cannot read properties of undefined (reading 'toLowerCase')''))),
          new_DeduplicationService)"
  by (simp add: test_settled failing_merge_def failing_deduplication_def service_methods_def
        test_merged)

theorem collectAllArticles_never_rejects_witness:
  "fst (collectAllArticles_with failing_merge good_service 0 0)
     = Inr \<lparr>articles = [],
            errors = [\<lparr>error_source = js ''ArticleCollectorService'',
                       error_message = js ''result.value is not iterable'',
                       error_timestamp = 0\<rparr>],
            timestamp = 0\<rparr>
   \<and> fst (collectAllArticles_with failing_deduplication good_service 0 0)
       = Inr \<lparr>articles = [],
              errors = [zenn_error,
                        \<lparr>error_source = js ''ArticleCollectorService'',
                         error_message = js ''Cannot read properties of undefined (reading 'toLowerCase')'',
                         error_timestamp = 0\<rparr>],
              timestamp = 0\<rparr>
   \<and> filtering (config malformed_service) = None
   \<and> fst (collectAllArticles URL_new malformed_service 0 0)
       = Inr \<lparr>articles = [],
              errors = [zenn_error,
                        \<lparr>error_source = js ''ArticleCollectorService'',
                         error_message = js ''Cannot read properties of undefined (reading 'excludeKeywords')'',
                         error_timestamp = 0\<rparr>],
              timestamp = 0\<rparr>
   \<and> (\<exists>f. filtering (config good_service) = Some f)
   \<and> (\<exists>r. fst (collectAllArticles URL_new good_service 0 0) = Inr r
          \<and> errors r = [zenn_error] \<and> length (articles r) = 2)"
proof -
  note t1 = collectAllArticles_never_rejects
              [where methods = failing_merge and svc = good_service and now = 0 and w = 0
                 and parse = URL_new]
  note t2 = collectAllArticles_never_rejects
              [where methods = failing_deduplication and svc = good_service and now = 0 and w = 0
                 and parse = URL_new]
  note t3 = collectAllArticles_never_rejects
              [where methods = failing_merge and svc = malformed_service and now = 0 and w = 0
                 and parse = URL_new]
  have m: "fst (collectAllArticles_with failing_merge good_service 0 0)
     = Inr \<lparr>articles = [],
            errors = [\<lparr>error_source = js ''ArticleCollectorService'',
                       error_message = js ''result.value is not iterable'',
                       error_timestamp = 0\<rparr>],
            timestamp = 0\<rparr>"
    using t1 failing_runs [of 0] by (simp add: service_error_def test_dedup_state)
  have d: "fst (collectAllArticles_with failing_deduplication good_service 0 0)
       = Inr \<lparr>articles = [],
              errors = [zenn_error,
                        \<lparr>error_source = js ''ArticleCollectorService'',
                         error_message = js ''Cannot read properties of undefined (reading 'toLowerCase')'',
                         error_timestamp = 0\<rparr>],
              timestamp = 0\<rparr>"
    using t2 failing_runs [of 0] by (simp add: service_error_def test_dedup_state article_A_def mk_article_def)
  have n: "filtering (config malformed_service) = None" by (rule test_dedup_state)
  have nonempty: "fst (mergeCollectionResults malformed_service
                         (fst (collectFromAllSources malformed_service 0)) 0) \<noteq> []"
    by (simp add: test_settled test_merged)
  have es: "snd (mergeCollectionResults malformed_service
                   (fst (collectFromAllSources malformed_service 0)) 0) = [zenn_error]"
    by (simp add: test_settled test_merged)
  from t3 n nonempty have "fst (collectAllArticles URL_new malformed_service 0 0) =
              Inr \<lparr>articles = [],
                   errors = snd (mergeCollectionResults malformed_service
                                   (fst (collectFromAllSources malformed_service 0)) 0)
                              @ [service_error missing_filtering 0],
                   timestamp = 0\<rparr>"
    by blast
  then have b: "fst (collectAllArticles URL_new malformed_service 0 0)
       = Inr \<lparr>articles = [],
              errors = [zenn_error,
                        \<lparr>error_source = js ''ArticleCollectorService'',
                         error_message = js ''Cannot read properties of undefined (reading 'excludeKeywords')'',
                         error_timestamp = 0\<rparr>],
              timestamp = 0\<rparr>"
    by (simp add: es service_error_def missing_filtering_def)
  have f: "\<exists>f. filtering (config good_service) = Some f" by (simp add: test_dedup_state)
  from t1 f obtain r0 where r0: "fst (collectAllArticles URL_new good_service 0 0) = Inr r0"
    "errors r0 = snd (mergeCollectionResults good_service
                        (fst (collectFromAllSources good_service 0)) 0)"
    by force
  from good_run r0(1) have "length (articles r0) = 2" by auto
  with r0 have g: "\<exists>r. fst (collectAllArticles URL_new good_service 0 0) = Inr r
          \<and> errors r = [zenn_error] \<and> length (articles r) = 2"
    by (simp add: test_settled test_merged)
  from m d n b f g show ?thesis by blast
qed
subsection \<open>Successive runs on one instance\<close>

text \<open>
  Claim C9. The seen-sets live in the service and \<open>collectAllArticles\<close> never clears them.
  For two successive runs on one instance: every article the first run kept in its
  deduplication (hence every article of its result) has its normalized URL and title in
  the sets the second run starts from, and no article of the second result has the
  normalized URL or the normalized title of any of them; nothing seen before the first
  run is forgotten; \<open>clearCache\<close> and \<open>updateConfig\<close> leave a fresh deduplication service.
\<close>

theorem seen_sets_persist_across_runs:
  assumes "collectAllArticles parse svc now w = (Inr r1, svc1, w1)"
    and "collectAllArticles parse svc1 now' w1 = (Inr r2, svc2, w2)"
  shows "(\<forall>a\<in>set (fst (deduplicateArticles parse (deduplicationService svc)
                  (fst (mergeCollectionResults svc (fst (collectFromAllSources svc w)) now))))
              \<union> set (articles r1).
            nurl parse a \<in> seenUrls (deduplicationService svc1)
            \<and> ntitle a \<in> seenTitles (deduplicationService svc1)
            \<and> (\<forall>b\<in>set (articles r2). nurl parse b \<noteq> nurl parse a \<and> ntitle b \<noteq> ntitle a))
       \<and> seenUrls (deduplicationService svc) \<subseteq> seenUrls (deduplicationService svc1)
       \<and> seenTitles (deduplicationService svc) \<subseteq> seenTitles (deduplicationService svc1)
       \<and> deduplicationService (service_clearCache svc1) = new_DeduplicationService
       \<and> deduplicationService (updateConfig adapters newConfig svc1) = new_DeduplicationService"
proof -
  let ?as1 = "fst (mergeCollectionResults svc (fst (collectFromAllSources svc w)) now)"
  let ?as2 = "fst (mergeCollectionResults svc1 (fst (collectFromAllSources svc1 w1)) now')"
  let ?d = "deduplicationService svc"
  let ?d1 = "deduplicationService svc1"
  have d1: "?d1 = seen_after parse ?d ?as1" using assms(1) by (rule run_service)
  have seen: "nurl parse a \<in> seenUrls ?d1 \<and> ntitle a \<in> seenTitles ?d1"
    if "a \<in> set (kept parse ?d ?as1) \<union> set (articles r1)" for a
  proof -
    from that run_articles [OF assms(1)]
    obtain x where x: "x \<in> set (kept parse ?d ?as1)" "url a = url x" "title a = title x"
      by blast
    then show ?thesis unfolding d1 by (auto simp: seen_after_urls seen_after_titles)
  qed
  have fresh: "nurl parse b \<notin> seenUrls ?d1 \<and> ntitle b \<notin> seenTitles ?d1"
    if "b \<in> set (articles r2)" for b
  proof -
    from that run_articles [OF assms(2)]
    obtain x where x: "x \<in> set (kept parse ?d1 ?as2)" "url b = url x" "title b = title x"
      by blast
    from kept_fresh_urls [OF x(1)] kept_fresh_titles [OF x(1)] x(2,3) show ?thesis by simp
  qed
  have first: "\<forall>a\<in>set (fst (deduplicateArticles parse ?d ?as1)) \<union> set (articles r1).
            nurl parse a \<in> seenUrls ?d1 \<and> ntitle a \<in> seenTitles ?d1
            \<and> (\<forall>b\<in>set (articles r2). nurl parse b \<noteq> nurl parse a \<and> ntitle b \<noteq> ntitle a)"
    unfolding deduplicateArticles_eq fst_conv using seen fresh by metis
  have mono: "seenUrls ?d \<subseteq> seenUrls ?d1" "seenTitles ?d \<subseteq> seenTitles ?d1"
    unfolding d1 by (simp_all add: seen_after_urls seen_after_titles)
  have clear: "deduplicationService (service_clearCache svc1) = new_DeduplicationService"
    "deduplicationService (updateConfig adapters newConfig svc1) = new_DeduplicationService"
    by (simp_all add: service_clearCache_def updateConfig_def clearCache_def new_DeduplicationService_def)
  from first mono clear show ?thesis by blast
qed

lemma seen_service_parts:
  "collectFromAllSources seen_service w = collectFromAllSources good_service w"
  "mergeCollectionResults seen_service results now = mergeCollectionResults good_service results now"
  "config seen_service = config good_service"
  "deduplicationService seen_service
     = \<lparr>seenUrls = {js ''not a url'', js ''https://a.com/x''},
        seenTitles = {js ''first'', js ''chatgpt tips''}\<rparr>"
  by (simp_all add: seen_service_def collectFromAllSources_def mergeCollectionResults_def
        getEnabledSources_def)

lemma seen_service_cleared: "service_clearCache seen_service = good_service"
  by (simp add: seen_service_def service_clearCache_def clearCache_def good_service_def
        new_ArticleCollectorService_def new_DeduplicationService_def)

lemma test_merged_articles:
  "fst (mergeCollectionResults good_service
         [Inr [article_A, article_M], Inl (RetryError 3 (Error (js ''503'')))] now)
     = [article_A, article_M]"
  by (simp add: mergeCollectionResults_def test_sources)

lemma good_run_articles:
  "\<exists>r. collectAllArticles URL_new good_service now w = (Inr r, seen_service, w + 4)
       \<and> length (articles r) = 2"
  by (simp add: collectAllArticles_eq Let_def test_settled test_merged_articles test_dedup_state
        test_kept good_criteria filterArticles_all_pass seen_service_def
        del: kept.simps seen_after.simps)

lemma seen_kept:
  "kept URL_new (deduplicationService seen_service) [article_A, article_M] = []"
  "seen_after URL_new (deduplicationService seen_service) [article_A, article_M]
     = deduplicationService seen_service"
  by (simp_all add: seen_service_parts admits_def A_keys M_nurl)

lemma seen_run:
  "\<exists>r. collectAllArticles URL_new seen_service now w = (Inr r, seen_service, w + 4)
       \<and> articles r = []"
  by (simp add: collectAllArticles_eq Let_def seen_service_parts(1-3) test_settled
        test_merged_articles test_dedup_state seen_kept good_criteria filterArticles_Nil
        del: kept.simps seen_after.simps)

theorem seen_sets_persist_across_runs_witness:
  "\<exists>r1 r2 r3. collectAllArticles URL_new good_service 0 0 = (Inr r1, seen_service, 4)
       \<and> collectAllArticles URL_new seen_service 1 4 = (Inr r2, seen_service, 8)
       \<and> length (articles r1) = 2 \<and> articles r2 = []
       \<and> nurl URL_new article_A \<in> seenUrls (deduplicationService seen_service)
       \<and> deduplicationService (service_clearCache seen_service) = new_DeduplicationService
       \<and> collectAllArticles URL_new (service_clearCache seen_service) 2 8 = (Inr r3, seen_service, 12)
       \<and> length (articles r3) = 2"
proof -
  from good_run_articles [of 0 0] obtain r1 where
    r1: "collectAllArticles URL_new good_service 0 0 = (Inr r1, seen_service, 4)"
      "length (articles r1) = 2" by auto
  from seen_run [of 1 4] obtain r2 where
    r2: "collectAllArticles URL_new seen_service 1 4 = (Inr r2, seen_service, 8)"
      "articles r2 = []" by auto
  from good_run_articles [of 2 8] obtain r3 where
    r3: "collectAllArticles URL_new (service_clearCache seen_service) 2 8 = (Inr r3, seen_service, 12)"
      "length (articles r3) = 2" by (auto simp: seen_service_cleared)
  have k: "article_A \<in> set (fst (deduplicateArticles URL_new (deduplicationService good_service)
             (fst (mergeCollectionResults good_service (fst (collectFromAllSources good_service 0)) 0))))"
    by (simp add: deduplicateArticles_eq test_settled test_merged_articles test_dedup_state test_kept
          del: kept.simps)
  from seen_sets_persist_across_runs [OF r1(1) r2(1), of test_adapters good_config] k
  have "nurl URL_new article_A \<in> seenUrls (deduplicationService seen_service)"
    and "deduplicationService (service_clearCache seen_service) = new_DeduplicationService"
    by blast+
  with r1 r2 r3 show ?thesis by blast
qed

end
